(* ===== verification/Prelude.thy ===== *)
theory Prelude
  imports Main
begin

text \<open>
  What the components share: the decimal rendering of numbers in template strings, the
  destructuring of a query's first row, tables as lists of rows with the conditional UPDATE of
  SQL, the error monad of a database transaction, systems of steps with their invariants and
  simulations, and the generic lemmas on them.
\<close>

named_theorems table_simps \<open>facts about rows of a table after an UPDATE\<close>
named_theorems query_defs \<open>definitions of the queries of the repositories\<close>

subsection \<open>Numbers in template strings\<close>

definition digit :: "nat \<Rightarrow> char" where
  "digit n = ''0123456789'' ! n"

fun show_nat :: "nat \<Rightarrow> string" where
  "show_nat n = (if n < 10 then [digit n] else show_nat (n div 10) @ [digit (n mod 10)])"

declare show_nat.simps [simp del]

definition show_int :: "int \<Rightarrow> string" where
  "show_int i = (if i < 0 then CHR ''-'' # show_nat (nat (- i)) else show_nat (nat i))"

definition undigit :: "char \<Rightarrow> nat" where
  "undigit c = of_char c - 48"

definition read_nat :: "string \<Rightarrow> nat" where
  "read_nat s = foldl (\<lambda>n c. 10 * n + undigit c) 0 s"

lemma less_ten_cases: "n < 10 \<Longrightarrow> n \<in> {0, 1, 2, 3, 4, 5, 6, 7, 8, 9}" for n :: nat
  by auto

lemma undigit_digit [simp]: "n < 10 \<Longrightarrow> undigit (digit n) = n"
  by (drule less_ten_cases) (auto simp: undigit_def digit_def)

lemma digit_in: "n < 10 \<Longrightarrow> digit n \<in> set ''0123456789''"
  by (drule less_ten_cases) (auto simp: digit_def)

lemma read_show_nat [simp]: "read_nat (show_nat n) = n"
proof (induction n rule: show_nat.induct)
  case (1 n)
  show ?case
    using "1.IH" by (subst show_nat.simps) (auto simp: read_nat_def)
qed

lemma show_nat_digits: "set (show_nat n) \<subseteq> set ''0123456789''"
proof (induction n rule: show_nat.induct)
  case (1 n)
  show ?case
    using "1.IH" digit_in [of n] digit_in [of "n mod 10"] by (subst show_nat.simps) auto
qed

lemma show_nat_inj: "show_nat m = show_nat n \<Longrightarrow> m = n"
  by (metis read_show_nat)

lemma show_nat_no_minus: "show_nat m \<noteq> CHR ''-'' # s"
  using show_nat_digits [of m] by auto

lemma show_int_inj: "show_int i = show_int j \<Longrightarrow> i = j"
  by (auto simp: show_int_def show_nat_no_minus show_nat_no_minus [symmetric]
      dest!: show_nat_inj split: if_splits)

definition read_int :: "string \<Rightarrow> int" where
  "read_int s = (case s of [] \<Rightarrow> 0 | x # xs \<Rightarrow> if x = CHR ''-'' then - int (read_nat xs) else int (read_nat s))"

lemma read_show_int [simp]: "read_int (show_int i) = i"
proof (cases "i < 0")
  case False
  have "show_nat (nat i) \<noteq> []"
    by (subst show_nat.simps) simp
  then obtain x xs where x: "show_nat (nat i) = x # xs" by (cases "show_nat (nat i)") auto
  then have "x \<noteq> CHR ''-''" using show_nat_no_minus by auto
  with False x show ?thesis
    using read_show_nat [of "nat i"] by (simp add: read_int_def show_int_def)
qed (simp add: read_int_def show_int_def)

subsection \<open>Splitting on a character\<close>

text \<open>\<open>s.split(c)\<close>: at least one piece, one more than there are separators.\<close>

fun split_on :: "char \<Rightarrow> string \<Rightarrow> string list" where
  "split_on c [] = [[]]"
| "split_on c (x # xs) =
     (if x = c then [] # split_on c xs
      else (case split_on c xs of p # ps \<Rightarrow> (x # p) # ps | [] \<Rightarrow> [[x]]))"

lemma split_on_free: "c \<notin> set xs \<Longrightarrow> split_on c xs = [xs]"
  by (induction xs) auto

lemma split_on_append: "c \<notin> set xs \<Longrightarrow> split_on c (xs @ c # ys) = xs # split_on c ys"
  by (induction xs) auto

subsection \<open>Rows of a table\<close>

text \<open>\<open>const [row] = await query; return row ?? null\<close>.\<close>

definition first_row :: "'r list \<Rightarrow> 'r option" where
  "first_row rows = (case rows of [] \<Rightarrow> None | r # _ \<Rightarrow> Some r)"

lemma first_row_simps [simp]: "first_row [] = None" "first_row (r # rs) = Some r"
  by (simp_all add: first_row_def)

lemma first_row_None [simp]: "first_row rows = None \<longleftrightarrow> rows = []"
  by (cases rows) simp_all

lemma first_row_SomeD: "first_row rows = Some r \<Longrightarrow> r \<in> set rows"
  by (cases rows) simp_all

text \<open>
  \<open>UPDATE t SET f WHERE p RETURNING *\<close>: the rows that match are rewritten in place, and
  returned as rewritten.
\<close>

definition update_rows :: "('r \<Rightarrow> bool) \<Rightarrow> ('r \<Rightarrow> 'r) \<Rightarrow> 'r list \<Rightarrow> 'r list" where
  "update_rows p f rows = map (\<lambda>r. if p r then f r else r) rows"

definition returned_rows :: "('r \<Rightarrow> bool) \<Rightarrow> ('r \<Rightarrow> 'r) \<Rightarrow> 'r list \<Rightarrow> 'r list" where
  "returned_rows p f rows = map f (filter p rows)"

lemma update_rows_none [table_simps]:
  "\<forall>r\<in>set rows. \<not> p r \<Longrightarrow> update_rows p f rows = rows"
  by (simp add: update_rows_def map_idI)

lemma returned_rows_none [table_simps]:
  "\<forall>r\<in>set rows. \<not> p r \<Longrightarrow> returned_rows p f rows = []"
  by (simp add: returned_rows_def)

lemma map_update_rows [table_simps]:
  "(\<And>r. k (f r) = k r) \<Longrightarrow> map k (update_rows p f rows) = map k rows"
  by (simp add: update_rows_def)

lemma image_update_rows [table_simps]:
  "(\<And>r. k (f r) = k r) \<Longrightarrow> k ` set (update_rows p f rows) = k ` set rows"
  by (metis map_update_rows set_map)

lemma set_update_rows: "set (update_rows p f rows) = (\<lambda>r. if p r then f r else r) ` set rows"
  by (simp add: update_rows_def)

lemma distinct_key_unique:
  "distinct (map k rows) \<Longrightarrow> r \<in> set rows \<Longrightarrow> r' \<in> set rows \<Longrightarrow> k r = k r' \<Longrightarrow> r = r'"
  by (meson distinct_map inj_onD)

lemma filter_key_unique:
  assumes "distinct (map k rows)" and "r \<in> set rows"
  shows "filter (\<lambda>x. k x = k r) rows = [r]"
  using assms
proof (induction rows)
  case (Cons x rows)
  then show ?case
    by (cases "x = r") (force simp: filter_empty_conv image_iff)+
qed simp

lemma filter_key_and:
  assumes "distinct (map k rows)" and "r \<in> set rows"
  shows "filter (\<lambda>x. k x = k r \<and> P x) rows = (if P r then [r] else [])"
proof -
  have "filter (\<lambda>x. k x = k r \<and> P x) rows = filter P (filter (\<lambda>x. k x = k r) rows)"
    by (simp add: conj_commute)
  with assms show ?thesis by (simp add: filter_key_unique)
qed

subsection \<open>Transactions\<close>

text \<open>
  A computation on the database either throws or returns a value and the new database.
  \<open>transaction\<close> runs one as \<open>db.transaction\<close> does: a throw rolls every write back and is
  rethrown to the caller.
\<close>

type_synonym ('e, 's, 'a) tx = "'s \<Rightarrow> 'e + ('a \<times> 's)"

definition tx_return :: "'a \<Rightarrow> ('e, 's, 'a) tx" where
  "tx_return x s = Inr (x, s)"

definition tx_throw :: "'e \<Rightarrow> ('e, 's, 'a) tx" where
  "tx_throw e s = Inl e"

definition tx_bind :: "('e, 's, 'a) tx \<Rightarrow> ('a \<Rightarrow> ('e, 's, 'b) tx) \<Rightarrow> ('e, 's, 'b) tx" where
  "tx_bind m f s = (case m s of Inl e \<Rightarrow> Inl e | Inr (x, s') \<Rightarrow> f x s')"

definition transaction :: "('e, 's, 'a) tx \<Rightarrow> 's \<Rightarrow> ('e + 'a) \<times> 's" where
  "transaction m s = (case m s of Inl e \<Rightarrow> (Inl e, s) | Inr (x, s') \<Rightarrow> (Inr x, s'))"

lemma tx_simps [simp]:
  "tx_return x s = Inr (x, s)"
  "tx_throw e s = Inl e"
  by (simp_all add: tx_return_def tx_throw_def)

lemma tx_bind_InrD:
  "tx_bind m f s = Inr r \<Longrightarrow> \<exists>x s'. m s = Inr (x, s') \<and> f x s' = Inr r"
  by (auto simp: tx_bind_def split: sum.splits prod.splits)

lemma transaction_rollback: "fst (transaction m s) = Inl e \<Longrightarrow> snd (transaction m s) = s"
  by (auto simp: transaction_def split: sum.splits prod.splits)

subsection \<open>Invariants of transition systems\<close>

text \<open>
  The contract of a component with state: a start predicate, a step relation and an
  invariant that the start states satisfy and every step keeps. Its client fact, proved once
  here, is that the invariant holds in every reachable state.
\<close>

inductive reachable_from :: "('s \<Rightarrow> bool) \<Rightarrow> ('s \<Rightarrow> 's \<Rightarrow> bool) \<Rightarrow> 's \<Rightarrow> bool"
  for init :: "'s \<Rightarrow> bool" and step :: "'s \<Rightarrow> 's \<Rightarrow> bool" where
  reach_init: "init s \<Longrightarrow> reachable_from init step s"
| reach_step: "reachable_from init step s \<Longrightarrow> step s t \<Longrightarrow> reachable_from init step t"

locale invariant_system =
  fixes init :: "'s \<Rightarrow> bool"
    and step :: "'s \<Rightarrow> 's \<Rightarrow> bool"
    and inv :: "'s \<Rightarrow> bool"
  assumes inv_init: "init s \<Longrightarrow> inv s"
    and inv_step: "inv s \<Longrightarrow> step s t \<Longrightarrow> inv t"
begin

lemma reachable_inv: "reachable_from init step s \<Longrightarrow> inv s"
  by (induction rule: reachable_from.induct) (auto intro: inv_init inv_step)

lemma steps_inv: "step\<^sup>*\<^sup>* s t \<Longrightarrow> inv s \<Longrightarrow> inv t"
  by (induction rule: rtranclp_induct) (auto intro: inv_step)

end


subsection \<open>Runs with observations, and simulation\<close>

text \<open>A run of a system whose steps show something: the list of all it shows, in order.\<close>

inductive observed_run :: "('s \<Rightarrow> 'o list \<Rightarrow> 's \<Rightarrow> bool) \<Rightarrow> 's \<Rightarrow> 'o list \<Rightarrow> 's \<Rightarrow> bool"
  for step :: "'s \<Rightarrow> 'o list \<Rightarrow> 's \<Rightarrow> bool" and s :: 's where
  run_nothing [simp, intro]: "observed_run step s [] s"
| run_more: "observed_run step s xs t \<Longrightarrow> step t ys u \<Longrightarrow> observed_run step s (xs @ ys) u"

lemma run_one: "step s xs t \<Longrightarrow> observed_run step s xs t"
  using run_more [of step s "[]" s xs t] by simp

lemma run_silent: "observed_run step s xs t \<Longrightarrow> step t [] u \<Longrightarrow> observed_run step s xs u"
  using run_more [of step s xs t "[]" u] by simp

lemma observed_run_trans:
  "observed_run step t ys u \<Longrightarrow> observed_run step s xs t \<Longrightarrow> observed_run step s (xs @ ys) u"
proof (induction rule: observed_run.induct)
  case (run_more ys t' zs u)
  from observed_run.run_more [OF run_more.IH [OF run_more.prems] run_more.hyps(2)] show ?case by simp
qed simp

text \<open>
  A system is simulated by an abstract one when every step from a state of its invariant is a run
  of the abstract system that shows the same. Its client fact is that whole runs are.
\<close>

locale simulation = invariant_system init "\<lambda>s t. \<exists>shown. step s shown t" inv
  for init :: "'s \<Rightarrow> bool" and step :: "'s \<Rightarrow> 'o list \<Rightarrow> 's \<Rightarrow> bool" and inv :: "'s \<Rightarrow> bool" +
  fixes astep :: "'a \<Rightarrow> 'o list \<Rightarrow> 'a \<Rightarrow> bool"
    and absf :: "'s \<Rightarrow> 'a"
  assumes simulates: "inv s \<Longrightarrow> step s shown t \<Longrightarrow> observed_run astep (absf s) shown (absf t)"
begin

lemma run_inv: "observed_run step s shown t \<Longrightarrow> inv s \<Longrightarrow> inv t"
  by (induction rule: observed_run.induct) (auto intro: inv_step)

lemma run_simulates: "observed_run step s shown t \<Longrightarrow> inv s \<Longrightarrow> observed_run astep (absf s) shown (absf t)"
proof (induction rule: observed_run.induct)
  case (run_more xs t ys u)
  from run_inv [OF run_more.hyps(1) run_more.prems] have "inv t" .
  from observed_run_trans [OF simulates [OF this run_more.hyps(2)] run_more.IH [OF run_more.prems]]
  show ?case .
qed simp

lemma runs_from_init: "init s \<Longrightarrow> observed_run step s shown t \<Longrightarrow> observed_run astep (absf s) shown (absf t)"
  using run_simulates inv_init by blast

end

text \<open>What holds of everything the abstract system can show holds of the system it simulates.\<close>

locale refined_safety = simulation init step inv astep absf
  for init :: "'s \<Rightarrow> bool" and step :: "'s \<Rightarrow> 'o list \<Rightarrow> 's \<Rightarrow> bool" and inv :: "'s \<Rightarrow> bool"
    and astep :: "'a \<Rightarrow> 'o list \<Rightarrow> 'a \<Rightarrow> bool" and absf :: "'s \<Rightarrow> 'a" +
  fixes safe :: "'o list \<Rightarrow> bool"
  assumes astep_safe: "observed_run astep a shown b \<Longrightarrow> safe shown"
begin

lemma run_safe: "init s \<Longrightarrow> observed_run step s shown t \<Longrightarrow> safe shown"
  using runs_from_init astep_safe by blast

end

end
