(* ===== verification/Errors.thy ===== *)
theory Errors
  imports Prelude
begin

text \<open>
  The errors the backend throws (\<open>shared/errors/AppError.ts\<close> and the error classes of the
  modules) and the Fastify error handler that turns them into replies
  (\<open>shared/middleware/errorHandler.ts\<close>).
\<close>

subsection \<open>Thrown values\<close>

text \<open>
  The classes the error handler distinguishes. \<open>AppError\<close> carries message, status code and
  code. \<open>ZodError\<close> carries the issues of a failed schema. \<open>FastifyError\<close> is an error of the
  framework, with its message and its \<open>statusCode\<close> when it has one. \<open>DbError\<close> is what a
  query rejects with, named by its SQLSTATE. \<open>PlainError\<close> is any other \<open>Error\<close>.
\<close>

type_synonym zod_issues = "string list"

datatype js_error =
    AppError string int string
  | ZodError zod_issues
  | FastifyError string "int option"
  | DbError string
  | PlainError string

type_synonym 'a result = "js_error + 'a"

definition SeatNotFoundError :: "int \<Rightarrow> js_error" where
  "SeatNotFoundError seatId =
     AppError (''Seat '' @ show_int seatId @ '' not found'') 404 ''SEAT_NOT_FOUND''"

definition SeatUnavailableError :: "int \<Rightarrow> js_error" where
  "SeatUnavailableError seatId =
     AppError (''Seat '' @ show_int seatId @ '' is not available'') 409 ''SEAT_UNAVAILABLE''"

definition BookingNotFoundError :: "int \<Rightarrow> js_error" where
  "BookingNotFoundError bookingId =
     AppError (''Booking '' @ show_int bookingId @ '' not found'') 404 ''BOOKING_NOT_FOUND''"

text \<open>The single quotes around the status are the character with code 39.\<close>

definition quoted :: "string \<Rightarrow> string" where
  "quoted s = CHR 0x27 # s @ [CHR 0x27]"

definition BookingNotConfirmableError :: "int \<Rightarrow> string \<Rightarrow> js_error" where
  "BookingNotConfirmableError bookingId status =
     AppError (''Booking '' @ show_int bookingId @ '' cannot be confirmed from status '' @ quoted status)
       409 ''BOOKING_NOT_CONFIRMABLE''"

definition BookingNotCancellableError :: "int \<Rightarrow> string \<Rightarrow> js_error" where
  "BookingNotCancellableError bookingId status =
     AppError (''Booking '' @ show_int bookingId @ '' cannot be cancelled from status '' @ quoted status)
       409 ''BOOKING_NOT_CANCELLABLE''"

definition EventNotFoundError :: "int \<Rightarrow> js_error" where
  "EventNotFoundError eventId =
     AppError (''Event '' @ show_int eventId @ '' not found'') 404 ''EVENT_NOT_FOUND''"

definition EmailAlreadyRegisteredError :: js_error where
  "EmailAlreadyRegisteredError =
     AppError ''Email is already registered'' 409 ''EMAIL_ALREADY_REGISTERED''"

definition InvalidCredentialsError :: js_error where
  "InvalidCredentialsError =
     AppError ''Invalid email or password'' 401 ''INVALID_CREDENTIALS''"

definition RateLimitError :: js_error where
  "RateLimitError =
     AppError ''Too many requests, please try again later'' 429 ''RATE_LIMIT_EXCEEDED''"

definition UnauthorizedError :: "string \<Rightarrow> js_error" where
  "UnauthorizedError message = AppError message 401 ''UNAUTHORIZED''"

definition default_unauthorized :: string where
  "default_unauthorized = ''Missing or invalid authorization token''"

lemmas app_error_defs =
  SeatNotFoundError_def SeatUnavailableError_def BookingNotFoundError_def
  BookingNotConfirmableError_def BookingNotCancellableError_def EventNotFoundError_def
  EmailAlreadyRegisteredError_def InvalidCredentialsError_def RateLimitError_def
  UnauthorizedError_def

subsection \<open>The error handler\<close>

record error_reply =
  er_status :: int
  er_code :: string
  er_message :: string

text \<open>
  The branches in the order of the code. \<open>prettify\<close> is \<open>z.prettifyError\<close>. Only framework
  errors have the \<open>statusCode\<close> property that the third branch looks for.
\<close>

fun errorHandler :: "(zod_issues \<Rightarrow> string) \<Rightarrow> js_error \<Rightarrow> error_reply" where
  "errorHandler prettify (AppError message statusCode code) =
     \<lparr>er_status = statusCode, er_code = code, er_message = message\<rparr>"
| "errorHandler prettify (ZodError issues) =
     \<lparr>er_status = 400, er_code = ''VALIDATION_ERROR'', er_message = prettify issues\<rparr>"
| "errorHandler prettify (FastifyError message statusCode) =
     (if statusCode = Some 400
      then \<lparr>er_status = 400, er_code = ''VALIDATION_ERROR'', er_message = message\<rparr>
      else \<lparr>er_status = 500, er_code = ''INTERNAL_SERVER_ERROR'',
             er_message = ''Something went wrong''\<rparr>)"
| "errorHandler prettify _ =
     \<lparr>er_status = 500, er_code = ''INTERNAL_SERVER_ERROR'', er_message = ''Something went wrong''\<rparr>"

text \<open>
  \<open>domain_error\<close> holds of every error the application's own classes construct: their statuses
  are 401, 404, 409 and 429, never 500.
\<close>

definition domain_error :: "js_error \<Rightarrow> bool" where
  "domain_error e \<longleftrightarrow>
     (\<exists>m s c. e = AppError m s c \<and> s \<in> {401, 404, 409, 429})"

lemma domain_errors [simp]:
  "domain_error (SeatNotFoundError i)" "domain_error (SeatUnavailableError i)"
  "domain_error (BookingNotFoundError i)" "domain_error (BookingNotConfirmableError i st)"
  "domain_error (BookingNotCancellableError i st)" "domain_error (EventNotFoundError i)"
  "domain_error EmailAlreadyRegisteredError" "domain_error InvalidCredentialsError"
  "domain_error RateLimitError" "domain_error (UnauthorizedError m)"
  by (simp_all add: domain_error_def app_error_defs)

lemma errorHandler_server_error:
  "er_status (errorHandler prettify e) = 500 \<Longrightarrow> \<not> domain_error e \<and> (\<forall>is. e \<noteq> ZodError is)"
  by (cases e) (auto simp: domain_error_def)

text \<open>Status and code of what the handler makes of an error, as the clients see them.\<close>

lemma errorHandler_app [simp]:
  "errorHandler prettify (SeatNotFoundError i) =
     \<lparr>er_status = 404, er_code = ''SEAT_NOT_FOUND'', er_message = ''Seat '' @ show_int i @ '' not found''\<rparr>"
  "er_status (errorHandler prettify (SeatUnavailableError i)) = 409"
  "er_status (errorHandler prettify (BookingNotFoundError i)) = 404"
  "er_status (errorHandler prettify (BookingNotConfirmableError i st)) = 409"
  "er_status (errorHandler prettify (BookingNotCancellableError i st)) = 409"
  "er_status (errorHandler prettify (UnauthorizedError m)) = 401"
  by (simp_all add: app_error_defs)

end
