(* ===== verification/Database.thy ===== *)
theory Database
  imports Errors
begin

text \<open>
  The tables of \<open>infrastructure/database/schema/*.ts\<close> as lists of rows, the two text enums of
  the booking flow, and the statements the repositories build on them: reads by key, the
  conditional UPDATE of seats and of bookings, and the INSERT of a booking. Timestamps are
  milliseconds since the epoch. An \<open>integer\<close> or \<open>serial\<close> column is 32 bits signed: a
  parameter or a computed value outside it makes the statement fail with SQLSTATE 22003.
\<close>

subsection \<open>Rows\<close>

datatype seat_status = Available | Held | Booked

datatype booking_status = Pending | Confirmed | Cancelled | Expired

datatype event_status = Scheduled | EventCancelled | Completed

record venue_row =
  venue_id :: int
  venue_name :: string
  venue_city :: string
  venue_createdAt :: int

record event_row =
  event_id :: int
  event_venueId :: int
  event_name :: string
  event_startsAt :: int
  event_status :: event_status
  event_createdAt :: int

record seat_row =
  seat_id :: int
  seat_eventId :: int
  seat_section :: string
  seat_rowLabel :: string
  seat_seatNumber :: int
  seat_status :: seat_status
  seat_version :: int
  seat_createdAt :: int

record user_row =
  user_id :: int
  user_email :: string
  user_passwordHash :: string
  user_createdAt :: int

record booking_row =
  bk_id :: int
  bk_seatId :: int
  bk_userId :: int
  bk_status :: booking_status
  bk_holdExpiresAt :: "int option"
  bk_createdAt :: int
  bk_updatedAt :: int

text \<open>
  \<open>users_seq\<close> and \<open>bookings_seq\<close> are the next values of the serial columns.
\<close>

record db =
  venues :: "venue_row list"
  events :: "event_row list"
  seats :: "seat_row list"
  users :: "user_row list"
  bookings :: "booking_row list"
  users_seq :: int
  bookings_seq :: int

type_synonym 'a query = "(js_error, db, 'a) tx"

text \<open>The enum values as the text the columns hold.\<close>

fun seat_status_text :: "seat_status \<Rightarrow> string" where
  "seat_status_text Available = ''available''"
| "seat_status_text Held = ''held''"
| "seat_status_text Booked = ''booked''"

fun booking_status_text :: "booking_status \<Rightarrow> string" where
  "booking_status_text Pending = ''pending''"
| "booking_status_text Confirmed = ''confirmed''"
| "booking_status_text Cancelled = ''cancelled''"
| "booking_status_text Expired = ''expired''"

lemma seat_status_text_inj: "seat_status_text a = seat_status_text b \<Longrightarrow> a = b"
  by (cases a; cases b) simp_all

lemma booking_status_text_inj: "booking_status_text a = booking_status_text b \<Longrightarrow> a = b"
  by (cases a; cases b) simp_all

subsection \<open>The order of the booking lifecycle\<close>

text \<open>
  Booking statuses in the order in which a booking can pass through them; the instance makes
  "the status only advances" an inequality.
\<close>

fun lifecycle_rank :: "booking_status \<Rightarrow> nat" where
  "lifecycle_rank Pending = 0"
| "lifecycle_rank Confirmed = 1"
| "lifecycle_rank Cancelled = 2"
| "lifecycle_rank Expired = 3"

lemma lifecycle_rank_inj: "lifecycle_rank a = lifecycle_rank b \<Longrightarrow> a = b"
  by (cases a; cases b) simp_all

instantiation booking_status :: linorder
begin

definition less_eq_booking_status :: "booking_status \<Rightarrow> booking_status \<Rightarrow> bool" where
  "less_eq_booking_status a b \<longleftrightarrow> lifecycle_rank a \<le> lifecycle_rank b"

definition less_booking_status :: "booking_status \<Rightarrow> booking_status \<Rightarrow> bool" where
  "less_booking_status a b \<longleftrightarrow> lifecycle_rank a < lifecycle_rank b"

instance
  by standard (auto simp: less_eq_booking_status_def less_booking_status_def
      dest: lifecycle_rank_inj)

end

definition live :: "booking_status \<Rightarrow> bool" where
  "live st \<longleftrightarrow> st = Pending \<or> st = Confirmed"

lemma live_simps [simp]: "live Pending" "live Confirmed" "\<not> live Cancelled" "\<not> live Expired"
  by (simp_all add: live_def)

subsection \<open>Column types\<close>

definition int4_max :: int where
  "int4_max = 2147483647"

definition int4_ok :: "int \<Rightarrow> bool" where
  "int4_ok n \<longleftrightarrow> - 2147483648 \<le> n \<and> n \<le> int4_max"

definition out_of_range :: js_error where
  "out_of_range = DbError ''22003''"

definition sequence_exhausted :: js_error where
  "sequence_exhausted = DbError ''2200H''"

definition foreign_key_violation :: js_error where
  "foreign_key_violation = DbError ''23503''"

definition unique_violation :: js_error where
  "unique_violation = DbError ''23505''"

lemmas db_error_defs =
  out_of_range_def sequence_exhausted_def foreign_key_violation_def unique_violation_def

subsection \<open>Statements on seats\<close>

text \<open>
  \<open>UPDATE seats SET status = st, version = version + 1 WHERE p RETURNING *\<close>. The new version
  must fit the column, or the statement fails.
\<close>

definition bump_seat :: "seat_status \<Rightarrow> seat_row \<Rightarrow> seat_row" where
  "bump_seat st s = s\<lparr>seat_status := st, seat_version := seat_version s + 1\<rparr>"

definition update_seats :: "seat_status \<Rightarrow> (seat_row \<Rightarrow> bool) \<Rightarrow> seat_row list query" where
  "update_seats st p d =
     (if \<exists>s\<in>set (seats d). p s \<and> \<not> int4_ok (seat_version s + 1) then Inl out_of_range
      else Inr (returned_rows p (bump_seat st) (seats d),
                d\<lparr>seats := update_rows p (bump_seat st) (seats d)\<rparr>))"

lemma bump_seat_simps [simp]:
  "seat_id (bump_seat st s) = seat_id s"
  "seat_eventId (bump_seat st s) = seat_eventId s"
  "seat_status (bump_seat st s) = st"
  "seat_version (bump_seat st s) = seat_version s + 1"
  by (simp_all add: bump_seat_def)

subsection \<open>Statements on bookings\<close>

definition set_status :: "booking_status \<Rightarrow> booking_row \<Rightarrow> booking_row" where
  "set_status st b = b\<lparr>bk_status := st\<rparr>"

definition set_status_at :: "booking_status \<Rightarrow> int \<Rightarrow> booking_row \<Rightarrow> booking_row" where
  "set_status_at st now b = b\<lparr>bk_status := st, bk_updatedAt := now\<rparr>"

lemma set_status_simps [simp]:
  "bk_id (set_status st b) = bk_id b" "bk_seatId (set_status st b) = bk_seatId b"
  "bk_userId (set_status st b) = bk_userId b" "bk_status (set_status st b) = st"
  "bk_updatedAt (set_status st b) = bk_updatedAt b"
  "bk_id (set_status_at st now b) = bk_id b" "bk_seatId (set_status_at st now b) = bk_seatId b"
  "bk_userId (set_status_at st now b) = bk_userId b" "bk_status (set_status_at st now b) = st"
  "bk_updatedAt (set_status_at st now b) = now"
  by (simp_all add: set_status_def set_status_at_def)

definition update_bookings ::
  "(booking_row \<Rightarrow> booking_row) \<Rightarrow> (booking_row \<Rightarrow> bool) \<Rightarrow> booking_row list query" where
  "update_bookings f p d =
     Inr (returned_rows p f (bookings d), d\<lparr>bookings := update_rows p f (bookings d)\<rparr>)"

text \<open>
  \<open>INSERT INTO bookings (...) VALUES (...) RETURNING *\<close>: the serial id, the defaults of
  \<open>created_at\<close> and \<open>updated_at\<close> (\<open>now\<close>), and the two foreign keys.
\<close>

definition insert_booking ::
  "int \<Rightarrow> int \<Rightarrow> booking_status \<Rightarrow> int option \<Rightarrow> int \<Rightarrow> booking_row query" where
  "insert_booking seatId userId status holdExpiresAt now d =
     (if \<not> int4_ok seatId \<or> \<not> int4_ok userId then Inl out_of_range
      else if bookings_seq d > int4_max then Inl sequence_exhausted
      else if \<not> (\<exists>s\<in>set (seats d). seat_id s = seatId) \<or>
              \<not> (\<exists>u\<in>set (users d). user_id u = userId) then Inl foreign_key_violation
      else let row = \<lparr>bk_id = bookings_seq d, bk_seatId = seatId, bk_userId = userId,
                 bk_status = status, bk_holdExpiresAt = holdExpiresAt,
                 bk_createdAt = now, bk_updatedAt = now\<rparr>
           in Inr (row, d\<lparr>bookings := bookings d @ [row], bookings_seq := bookings_seq d + 1\<rparr>))"

text \<open>
  \<open>SELECT * FROM bookings WHERE id = ... [AND user_id = ...]\<close>.
\<close>

definition select_bookings :: "(booking_row \<Rightarrow> bool) \<Rightarrow> db \<Rightarrow> booking_row list" where
  "select_bookings p d = filter p (bookings d)"

end
