(* ===== verification/Seat_Repository.thy ===== *)
theory Seat_Repository
  imports Database
begin

text \<open>
  The seat repository of the booking module (\<open>infrastructure/seat.repository.ts\<close>): one read
  and the four optimistic transitions of a seat. Each transition is one conditional UPDATE;
  their shared contract is the locale \<open>seat_transition\<close>, interpreted below on all four.
\<close>

subsection \<open>The queries\<close>

definition reserveSeatRow :: "int \<Rightarrow> seat_row option query" where
  "reserveSeatRow seatId d =
     (if \<not> int4_ok seatId then Inl out_of_range
      else tx_bind (update_seats Held (\<lambda>s. seat_id s = seatId \<and> seat_status s = Available))
             (\<lambda>rows. tx_return (first_row rows)) d)"

definition findSeatById :: "int \<Rightarrow> seat_row option query" where
  "findSeatById seatId d =
     (if \<not> int4_ok seatId then Inl out_of_range
      else Inr (first_row (filter (\<lambda>s. seat_id s = seatId) (seats d)), d))"

definition releaseSeatRow :: "int \<Rightarrow> seat_row option query" where
  "releaseSeatRow seatId d =
     (if \<not> int4_ok seatId then Inl out_of_range
      else tx_bind (update_seats Available (\<lambda>s. seat_id s = seatId \<and> seat_status s = Held))
             (\<lambda>rows. tx_return (first_row rows)) d)"

definition confirmSeatRow :: "int \<Rightarrow> seat_row option query" where
  "confirmSeatRow seatId d =
     (if \<not> int4_ok seatId then Inl out_of_range
      else tx_bind (update_seats Booked (\<lambda>s. seat_id s = seatId \<and> seat_status s = Held))
             (\<lambda>rows. tx_return (first_row rows)) d)"

definition releaseHeldOrBookedSeatRow :: "int \<Rightarrow> seat_row option query" where
  "releaseHeldOrBookedSeatRow seatId d =
     (if \<not> int4_ok seatId then Inl out_of_range
      else tx_bind (update_seats Available
               (\<lambda>s. seat_id s = seatId \<and> seat_status s \<in> {Held, Booked}))
             (\<lambda>rows. tx_return (first_row rows)) d)"

subsection \<open>The contract of a seat transition\<close>

text \<open>
  The seats table after the seat \<open>sid\<close> moved to status \<open>st\<close>: that row and no other changes,
  and its version goes up by one.
\<close>

definition move_seat :: "seat_status \<Rightarrow> int \<Rightarrow> db \<Rightarrow> db" where
  "move_seat st sid d =
     d\<lparr>seats := update_rows (\<lambda>s. seat_id s = sid) (bump_seat st) (seats d)\<rparr>"

definition seat_at :: "db \<Rightarrow> int \<Rightarrow> seat_row option" where
  "seat_at d sid = first_row (filter (\<lambda>s. seat_id s = sid) (seats d))"

definition distinct_seats :: "db \<Rightarrow> bool" where
  "distinct_seats d \<longleftrightarrow> distinct (map seat_id (seats d))"

locale seat_transition =
  fixes tr :: "int \<Rightarrow> seat_row option query"
    and source :: "seat_status set"
    and target :: seat_status
  assumes tr_range: "\<not> int4_ok sid \<Longrightarrow> tr sid d = Inl out_of_range"
    and tr_miss: "int4_ok sid \<Longrightarrow> \<forall>s\<in>set (seats d). seat_id s = sid \<longrightarrow> seat_status s \<notin> source \<Longrightarrow>
      tr sid d = Inr (None, d)"
    and tr_hit: "int4_ok sid \<Longrightarrow> distinct_seats d \<Longrightarrow> s \<in> set (seats d) \<Longrightarrow> seat_id s = sid \<Longrightarrow>
      seat_status s \<in> source \<Longrightarrow> int4_ok (seat_version s + 1) \<Longrightarrow>
      tr sid d = Inr (Some (bump_seat target s), move_seat target sid d)"
    and tr_overflow: "int4_ok sid \<Longrightarrow> s \<in> set (seats d) \<Longrightarrow> seat_id s = sid \<Longrightarrow>
      seat_status s \<in> source \<Longrightarrow> \<not> int4_ok (seat_version s + 1) \<Longrightarrow> tr sid d = Inl out_of_range"
    and source_target: "target \<notin> source"
begin

lemma tr_cases:
  assumes "tr sid d = Inr (r, d')" and "distinct_seats d"
  obtains (miss) "r = None" "d' = d" "\<forall>s\<in>set (seats d). seat_id s = sid \<longrightarrow> seat_status s \<notin> source"
  | (hit) s where "s \<in> set (seats d)" "seat_id s = sid" "seat_status s \<in> source"
      "int4_ok (seat_version s + 1)" "r = Some (bump_seat target s)" "d' = move_seat target sid d"
proof (cases "\<exists>s\<in>set (seats d). seat_id s = sid \<and> seat_status s \<in> source")
  case True
  then obtain s where s: "s \<in> set (seats d)" "seat_id s = sid" "seat_status s \<in> source" by blast
  from assms(1) tr_range have "int4_ok sid" by (metis Inl_Inr_False)
  with s assms tr_overflow have "int4_ok (seat_version s + 1)" by (metis Inl_Inr_False)
  with \<open>int4_ok sid\<close> s assms show ?thesis by (intro hit [of s]) (auto simp: tr_hit)
next
  case False
  from assms(1) tr_range have "int4_ok sid" by (metis Inl_Inr_False)
  with False assms(1) tr_miss [of sid d] show ?thesis by (intro miss) auto
qed

lemma tr_error: "tr sid d = Inl e \<Longrightarrow> distinct_seats d \<Longrightarrow> e = out_of_range"
  by (metis sum.inject(1) tr_hit tr_miss tr_overflow tr_range Inl_Inr_False)

text \<open>A statement that won the race leaves nothing to win: a second one matches no row.\<close>

lemma tr_once:
  assumes "tr sid d = Inr (Some r, d')" and "distinct_seats d"
  shows "tr sid d' = Inr (None, d')"
proof -
  from assms(1) tr_range have "int4_ok sid" by (metis Inl_Inr_False)
  from assms show ?thesis
  proof (cases rule: tr_cases)
    case (hit s)
    with \<open>int4_ok sid\<close> source_target show ?thesis
      by (intro tr_miss) (auto simp: move_seat_def set_update_rows)
  qed simp
qed

lemma tr_seat_at:
  assumes "tr sid d = Inr (Some r, d')" and "distinct_seats d"
  shows "seat_id r = sid \<and> seat_status r = target \<and>
    (\<exists>s\<in>set (seats d). seat_id s = sid \<and> seat_status s \<in> source \<and> seat_version r = seat_version s + 1)"
  using assms by (cases rule: tr_cases) auto

end

subsection \<open>All four queries honour it\<close>

lemma update_seats_miss:
  "\<forall>s\<in>set (seats d). \<not> p s \<Longrightarrow> update_seats st p d = Inr ([], d)"
  by (simp add: update_seats_def table_simps)

lemma update_seats_hit:
  assumes "distinct_seats d" and "s \<in> set (seats d)" and "seat_id s = sid" and "P s"
    and "int4_ok (seat_version s + 1)"
  shows "update_seats st (\<lambda>x. seat_id x = sid \<and> P x) d = Inr ([bump_seat st s], move_seat st sid d)"
proof -
  let ?p = "\<lambda>x. seat_id x = sid \<and> P x"
  from assms(1) have uniq: "\<And>x. x \<in> set (seats d) \<Longrightarrow> seat_id x = sid \<Longrightarrow> x = s"
    using assms(2,3) distinct_key_unique [of seat_id "seats d"] by (auto simp: distinct_seats_def)
  have "filter ?p (seats d) = [s]"
    using assms(1-4) filter_key_and [of seat_id "seats d" s P] by (simp add: distinct_seats_def)
  moreover have "update_rows ?p (bump_seat st) (seats d)
      = update_rows (\<lambda>x. seat_id x = sid) (bump_seat st) (seats d)"
    using uniq assms(4) by (auto simp: update_rows_def)
  moreover have "\<not> (\<exists>x\<in>set (seats d). ?p x \<and> \<not> int4_ok (seat_version x + 1))"
    using uniq assms(5) by blast
  ultimately show ?thesis
    by (simp add: update_seats_def returned_rows_def move_seat_def)
qed

lemma update_seats_overflow:
  "s \<in> set (seats d) \<Longrightarrow> p s \<Longrightarrow> \<not> int4_ok (seat_version s + 1) \<Longrightarrow>
   update_seats st p d = Inl out_of_range"
  by (auto simp: update_seats_def)

lemmas update_seats_laws = update_seats_miss update_seats_hit update_seats_overflow

interpretation reserve: seat_transition reserveSeatRow "{Available}" Held
  by unfold_locales
    (auto simp: reserveSeatRow_def tx_bind_def update_seats_laws split: sum.splits)

interpretation release: seat_transition releaseSeatRow "{Held}" Available
  by unfold_locales
    (auto simp: releaseSeatRow_def tx_bind_def update_seats_laws split: sum.splits)

interpretation confirm: seat_transition confirmSeatRow "{Held}" Booked
  by unfold_locales
    (auto simp: confirmSeatRow_def tx_bind_def update_seats_laws split: sum.splits)

interpretation release_any: seat_transition releaseHeldOrBookedSeatRow "{Held, Booked}" Available
  by unfold_locales
    (auto simp: releaseHeldOrBookedSeatRow_def tx_bind_def update_seats_laws split: sum.splits)

subsection \<open>Facts on \<open>move_seat\<close> and the read\<close>

lemma move_seat_frame [simp]:
  "bookings (move_seat st sid d) = bookings d" "users (move_seat st sid d) = users d"
  "events (move_seat st sid d) = events d" "venues (move_seat st sid d) = venues d"
  "bookings_seq (move_seat st sid d) = bookings_seq d"
  "users_seq (move_seat st sid d) = users_seq d"
  by (simp_all add: move_seat_def)

lemma seats_move_seat:
  "seats (move_seat st sid d) = map (\<lambda>s. if seat_id s = sid then bump_seat st s else s) (seats d)"
  by (simp add: move_seat_def update_rows_def)

lemma seat_ids_move_seat [simp]:
  "map seat_id (seats (move_seat st sid d)) = map seat_id (seats d)"
  by (simp add: move_seat_def table_simps)

lemma ex_seat_move_seat [simp]:
  "(\<exists>s\<in>set (seats (move_seat st sid d)). seat_id s = x) \<longleftrightarrow> (\<exists>s\<in>set (seats d). seat_id s = x)"
proof -
  have "seat_id ` set (seats (move_seat st sid d)) = seat_id ` set (seats d)"
    by (metis seat_ids_move_seat set_map)
  then show ?thesis by (metis imageE imageI)
qed

lemma distinct_seats_move_seat [simp]: "distinct_seats (move_seat st sid d) = distinct_seats d"
  by (simp add: distinct_seats_def)

lemma findSeatById_unfold:
  "int4_ok seatId \<Longrightarrow> findSeatById seatId d = Inr (seat_at d seatId, d)"
  by (simp add: findSeatById_def seat_at_def)

lemma seat_at_row: "distinct_seats d \<Longrightarrow> s \<in> set (seats d) \<Longrightarrow> seat_at d (seat_id s) = Some s"
  by (simp add: seat_at_def distinct_seats_def filter_key_unique)

lemma seat_at_None: "seat_at d sid = None \<longleftrightarrow> (\<forall>s\<in>set (seats d). seat_id s \<noteq> sid)"
  by (auto simp: seat_at_def filter_empty_conv)

lemma seat_at_SomeD: "seat_at d sid = Some s \<Longrightarrow> s \<in> set (seats d) \<and> seat_id s = sid"
  by (auto simp: seat_at_def dest!: first_row_SomeD)

lemma seat_at_Some_iff:
  "distinct_seats d \<Longrightarrow> seat_at d sid = Some s \<longleftrightarrow> s \<in> set (seats d) \<and> seat_id s = sid"
  by (auto simp: seat_at_row dest: seat_at_SomeD)

lemma seat_at_move_seat:
  "seat_at (move_seat st sid d) x = (if x = sid then map_option (bump_seat st) (seat_at d x) else seat_at d x)"
proof -
  have "filter (\<lambda>s. seat_id s = x) (seats (move_seat st sid d))
      = map (\<lambda>s. if seat_id s = sid then bump_seat st s else s) (filter (\<lambda>s. seat_id s = x) (seats d))"
    by (auto simp: seats_move_seat filter_map comp_def
        intro!: arg_cong [where f = "map (\<lambda>s. if seat_id s = sid then bump_seat st s else s)"] filter_cong)
  then show ?thesis
    by (cases "filter (\<lambda>s. seat_id s = x) (seats d)") (auto simp: seat_at_def dest: filter_eq_ConsD)
qed

end
