(* ===== verification/Consistency.thy ===== *)
theory Consistency
  imports Seat_Repository
begin

text \<open>
  The invariant that ties the two tables of the booking flow together: a seat's status says
  exactly which live booking it has. Available means none, held means one pending booking,
  booked means one confirmed booking. The two lemmas that carry every preservation proof are
  here: a live booking changing status together with its seat, and a new pending booking on an
  available seat.
\<close>

definition live_bookings :: "db \<Rightarrow> int \<Rightarrow> booking_row list" where
  "live_bookings d sid = filter (\<lambda>b. bk_seatId b = sid \<and> live (bk_status b)) (bookings d)"

fun live_statuses :: "seat_status \<Rightarrow> booking_status list" where
  "live_statuses Available = []"
| "live_statuses Held = [Pending]"
| "live_statuses Booked = [Confirmed]"

fun seat_status_for :: "booking_status \<Rightarrow> seat_status" where
  "seat_status_for Pending = Held"
| "seat_status_for Confirmed = Booked"
| "seat_status_for Cancelled = Available"
| "seat_status_for Expired = Available"

lemma seat_status_for_live_statuses:
  "live_statuses (seat_status_for st) = (if live st then [st] else [])"
  by (cases st) simp_all

lemma live_statuses_single: "live_statuses ss = [st] \<longleftrightarrow> live st \<and> ss = seat_status_for st"
  by (cases ss; cases st) simp_all

lemma live_statuses_Nil [simp]: "live_statuses ss = [] \<longleftrightarrow> ss = Available"
  by (cases ss) simp_all

lemma length_live_statuses: "length (live_statuses ss) \<le> 1"
  by (cases ss) simp_all

definition seat_matches :: "db \<Rightarrow> seat_row \<Rightarrow> bool" where
  "seat_matches d s \<longleftrightarrow>
     map bk_status (live_bookings d (seat_id s)) = live_statuses (seat_status s)"

definition references_ok :: "db \<Rightarrow> booking_row \<Rightarrow> bool" where
  "references_ok d b \<longleftrightarrow> bk_id b < bookings_seq d \<and>
     (\<exists>s\<in>set (seats d). seat_id s = bk_seatId b) \<and> (\<exists>u\<in>set (users d). user_id u = bk_userId b)"

definition consistent :: "db \<Rightarrow> bool" where
  "consistent d \<longleftrightarrow>
     distinct_seats d \<and> distinct (map bk_id (bookings d)) \<and>
     (\<forall>s\<in>set (seats d). int4_ok (seat_id s)) \<and>
     (\<forall>b\<in>set (bookings d). references_ok d b) \<and>
     (\<forall>s\<in>set (seats d). seat_matches d s) \<and> 1 \<le> bookings_seq d"

lemma consistentI:
  "distinct_seats d \<Longrightarrow> distinct (map bk_id (bookings d)) \<Longrightarrow>
   (\<And>s. s \<in> set (seats d) \<Longrightarrow> int4_ok (seat_id s)) \<Longrightarrow>
   (\<And>b. b \<in> set (bookings d) \<Longrightarrow> references_ok d b) \<Longrightarrow>
   (\<And>s. s \<in> set (seats d) \<Longrightarrow> seat_matches d s) \<Longrightarrow> 1 \<le> bookings_seq d \<Longrightarrow> consistent d"
  by (simp add: consistent_def)

lemma consistentD:
  assumes "consistent d"
  shows "distinct_seats d" "distinct (map bk_id (bookings d))"
    "s \<in> set (seats d) \<Longrightarrow> int4_ok (seat_id s)"
    "b \<in> set (bookings d) \<Longrightarrow> references_ok d b"
    "s \<in> set (seats d) \<Longrightarrow> seat_matches d s" "1 \<le> bookings_seq d"
  using assms by (simp_all add: consistent_def)

lemma booking_unique:
  "consistent d \<Longrightarrow> b \<in> set (bookings d) \<Longrightarrow> b' \<in> set (bookings d) \<Longrightarrow> bk_id b = bk_id b' \<Longrightarrow> b = b'"
  by (metis consistentD(2) distinct_key_unique)

subsection \<open>A live booking and its seat\<close>

lemma live_booking_seat:
  assumes "consistent d" and "b \<in> set (bookings d)" and "live (bk_status b)"
  obtains s where "s \<in> set (seats d)" "seat_id s = bk_seatId b"
    "seat_at d (bk_seatId b) = Some s" "int4_ok (bk_seatId b)"
    "seat_status s = seat_status_for (bk_status b)" "live_bookings d (bk_seatId b) = [b]"
proof -
  from consistentD(4) [OF assms(1,2)] obtain s
    where s: "s \<in> set (seats d)" "seat_id s = bk_seatId b"
    by (auto simp: references_ok_def)
  from consistentD(5) [OF assms(1) s(1)] s(2)
  have m: "map bk_status (live_bookings d (bk_seatId b)) = live_statuses (seat_status s)"
    by (simp add: seat_matches_def)
  from assms(2,3) have mem: "b \<in> set (live_bookings d (bk_seatId b))"
    by (simp add: live_bookings_def)
  from arg_cong [OF m, of length] length_live_statuses [of "seat_status s"]
  have "length (live_bookings d (bk_seatId b)) \<le> 1" by simp
  with mem have one: "live_bookings d (bk_seatId b) = [b]"
    by (cases "live_bookings d (bk_seatId b)") auto
  with m have "live_statuses (seat_status s) = [bk_status b]" by simp
  then have "seat_status s = seat_status_for (bk_status b)" by (simp add: live_statuses_single)
  moreover have "seat_at d (bk_seatId b) = Some s"
    using s consistentD(1) [OF assms(1)] seat_at_row by metis
  ultimately show ?thesis
    using that s one consistentD(3) [OF assms(1), of s] by auto
qed

lemma at_most_one_live:
  assumes "consistent d" and "b \<in> set (bookings d)" and "b' \<in> set (bookings d)"
    and "live (bk_status b)" and "live (bk_status b')" and "bk_seatId b = bk_seatId b'"
  shows "b = b'"
proof -
  from assms(1,2,4) obtain s where "live_bookings d (bk_seatId b) = [b]"
    by (rule live_booking_seat)
  moreover have "b' \<in> set (live_bookings d (bk_seatId b))"
    using assms by (simp add: live_bookings_def)
  ultimately show ?thesis by simp
qed

lemma available_no_live:
  assumes "consistent d" and "s \<in> set (seats d)" and "seat_status s = Available"
  shows "live_bookings d (seat_id s) = []"
  using consistentD(5) [OF assms(1,2)] assms(3) by (simp add: seat_matches_def)

subsection \<open>Transitions that keep it\<close>

definition move_booking :: "(booking_row \<Rightarrow> booking_row) \<Rightarrow> int \<Rightarrow> db \<Rightarrow> db" where
  "move_booking f bid d = d\<lparr>bookings := update_rows (\<lambda>b. bk_id b = bid) f (bookings d)\<rparr>"

lemma move_booking_frame [simp]:
  "seats (move_booking f bid d) = seats d" "users (move_booking f bid d) = users d"
  "events (move_booking f bid d) = events d" "venues (move_booking f bid d) = venues d"
  "bookings_seq (move_booking f bid d) = bookings_seq d"
  "users_seq (move_booking f bid d) = users_seq d"
  by (simp_all add: move_booking_def)

lemma seat_at_move_booking [simp]: "seat_at (move_booking f bid d) = seat_at d"
  by (rule ext) (simp add: seat_at_def)

lemma bookings_move_booking:
  "bookings (move_booking f bid d) = map (\<lambda>b. if bk_id b = bid then f b else b) (bookings d)"
  by (simp add: move_booking_def update_rows_def)

text \<open>Rewriting a row's status keeps its keys; \<open>keeps_keys\<close> names that side condition.\<close>

definition keeps_keys :: "(booking_row \<Rightarrow> booking_row) \<Rightarrow> bool" where
  "keeps_keys f \<longleftrightarrow>
     (\<forall>b. bk_id (f b) = bk_id b \<and> bk_seatId (f b) = bk_seatId b \<and> bk_userId (f b) = bk_userId b)"

lemma keeps_keys_set_status [simp]:
  "keeps_keys (set_status st)" "keeps_keys (set_status_at st now)"
  by (simp_all add: keeps_keys_def)

lemma live_bookings_transition:
  assumes "consistent d" and "b \<in> set (bookings d)" and "live (bk_status b)" and "keeps_keys f"
  shows "live_bookings (move_booking f (bk_id b) d) sid =
    (if sid = bk_seatId b then (if live (bk_status (f b)) then [f b] else [])
     else live_bookings d sid)"
proof -
  let ?g = "\<lambda>x. if bk_id x = bk_id b then f x else x"
  let ?Q = "\<lambda>x. bk_seatId x = sid \<and> live (bk_status x)"
  have uniq: "\<And>x. x \<in> set (bookings d) \<Longrightarrow> bk_id x = bk_id b \<Longrightarrow> x = b"
    using assms(1,2) booking_unique by blast
  have lhs: "live_bookings (move_booking f (bk_id b) d) sid
      = map ?g (filter (\<lambda>x. ?Q (?g x)) (bookings d))"
    by (simp add: live_bookings_def bookings_move_booking filter_map comp_def)
  obtain s where one: "live_bookings d (bk_seatId b) = [b]"
    using assms(1-3) by (rule live_booking_seat)
  have key: "bk_seatId (f b) = bk_seatId b" using assms(4) by (simp add: keeps_keys_def)
  show ?thesis
  proof (cases "sid = bk_seatId b")
    case True
    have "filter (\<lambda>x. ?Q (?g x)) (bookings d)
        = filter (\<lambda>x. live (bk_status (?g x))) (filter ?Q (bookings d))"
      using uniq assms(3) key True by (auto intro!: filter_cong)
    also have "filter ?Q (bookings d) = [b]"
      using one True by (simp add: live_bookings_def)
    finally show ?thesis unfolding lhs using True by simp
  next
    case False
    have "filter (\<lambda>x. ?Q (?g x)) (bookings d) = filter ?Q (bookings d)"
      using uniq key False by (auto intro!: filter_cong)
    moreover have "map ?g (filter ?Q (bookings d)) = filter ?Q (bookings d)"
      using False by (intro map_idI) (auto dest: uniq)
    ultimately have "live_bookings (move_booking f (bk_id b) d) sid = filter ?Q (bookings d)"
      by (simp only: lhs)
    with False show ?thesis by (simp add: live_bookings_def)
  qed
qed

lemma live_bookings_move_seat [simp]:
  "live_bookings (move_seat st x d) sid = live_bookings d sid"
  by (simp add: live_bookings_def)

lemma booking_ids_move_booking:
  "keeps_keys f \<Longrightarrow> map bk_id (bookings (move_booking f bid d)) = map bk_id (bookings d)"
  by (simp add: move_booking_def keeps_keys_def table_simps)

lemma seat_ids_int4:
  assumes "consistent d" and "map seat_id (seats d') = map seat_id (seats d)" and "s \<in> set (seats d')"
  shows "int4_ok (seat_id s)"
proof -
  from assms(2) have "seat_id ` set (seats d') = seat_id ` set (seats d)" by (metis set_map)
  with assms(3) obtain s0 where "s0 \<in> set (seats d)" "seat_id s0 = seat_id s"
    by (metis imageE imageI)
  with assms(1) show ?thesis using consistentD(3) by metis
qed

lemma references_ok_cong:
  "bookings_seq d \<le> bookings_seq d' \<Longrightarrow> map seat_id (seats d') = map seat_id (seats d) \<Longrightarrow>
   users d' = users d \<Longrightarrow> bk_id b' = bk_id b \<Longrightarrow> bk_seatId b' = bk_seatId b \<Longrightarrow>
   bk_userId b' = bk_userId b \<Longrightarrow> references_ok d b \<Longrightarrow> references_ok d' b'"
proof -
  assume "map seat_id (seats d') = map seat_id (seats d)"
  then have "seat_id ` set (seats d') = seat_id ` set (seats d)" by (metis set_map)
  moreover assume "bookings_seq d \<le> bookings_seq d'" "users d' = users d" "bk_id b' = bk_id b"
    "bk_seatId b' = bk_seatId b" "bk_userId b' = bk_userId b" "references_ok d b"
  ultimately show ?thesis
    unfolding references_ok_def by (metis (no_types, opaque_lifting) imageE imageI less_le_trans)
qed

lemma consistent_transition:
  assumes con: "consistent d" and b: "b \<in> set (bookings d)" "live (bk_status b)" and keys: "keeps_keys f"
  shows "consistent (move_seat (seat_status_for (bk_status (f b))) (bk_seatId b)
    (move_booking f (bk_id b) d))" (is "consistent ?d")
proof (rule consistentI)
  show "distinct_seats ?d" using consistentD(1) [OF con] by (simp add: distinct_seats_def)
  show "1 \<le> bookings_seq ?d" using consistentD(6) [OF con] by simp
  show "distinct (map bk_id (bookings ?d))"
    using consistentD(2) [OF con] keys by (simp add: booking_ids_move_booking)
next
  fix s assume "s \<in> set (seats ?d)"
  then show "int4_ok (seat_id s)" by (rule seat_ids_int4 [OF con, rotated]) simp
next
  fix x assume "x \<in> set (bookings ?d)"
  then obtain y where y: "y \<in> set (bookings d)" "x = (if bk_id y = bk_id b then f y else y)"
    by (auto simp: bookings_move_booking)
  from y(2) keys have "bk_id x = bk_id y" "bk_seatId x = bk_seatId y" "bk_userId x = bk_userId y"
    by (simp_all add: keeps_keys_def)
  then show "references_ok ?d x"
    by (intro references_ok_cong [OF _ _ _ _ _ _ consistentD(4) [OF con y(1)]]) simp_all
next
  fix s assume "s \<in> set (seats ?d)"
  then obtain s0 where s0: "s0 \<in> set (seats d)" and
    s: "s = (if seat_id s0 = bk_seatId b then bump_seat (seat_status_for (bk_status (f b))) s0 else s0)"
    by (auto simp: seats_move_seat)
  then show "seat_matches ?d s"
    using consistentD(5) [OF con s0] live_bookings_transition [OF con b keys]
    by (simp add: seat_matches_def seat_status_for_live_statuses)
qed

text \<open>
  The id of the new row was drawn from the sequence: it is below the next value \<open>n\<close> and no
  committed booking has it.
\<close>

lemma consistent_insert_drawn:
  assumes con: "consistent d" and s: "s \<in> set (seats d)" "seat_status s = Available"
    and fresh: "bk_id row \<notin> bk_id ` set (bookings d)" "bk_id row < n" "bookings_seq d \<le> n"
    and row: "bk_seatId row = seat_id s" "bk_status row = Pending"
    and user: "\<exists>u\<in>set (users d). user_id u = bk_userId row"
  shows "consistent ((move_seat Held (seat_id s) d)
    \<lparr>bookings := bookings d @ [row], bookings_seq := n\<rparr>)" (is "consistent ?d")
proof (rule consistentI)
  show "distinct_seats ?d" using consistentD(1) [OF con] by (simp add: distinct_seats_def)
  show "1 \<le> bookings_seq ?d" using consistentD(6) [OF con] fresh(3) by simp
  show "distinct (map bk_id (bookings ?d))" using consistentD(2) [OF con] fresh(1) by auto
next
  fix x assume "x \<in> set (seats ?d)"
  then show "int4_ok (seat_id x)" by (rule seat_ids_int4 [OF con, rotated]) simp
next
  fix x assume "x \<in> set (bookings ?d)"
  then consider "x \<in> set (bookings d)" | "x = row" by auto
  then show "references_ok ?d x"
  proof cases
    case 1
    then show ?thesis by (intro references_ok_cong [OF _ _ _ _ _ _ consistentD(4) [OF con]]) (simp_all add: fresh)
  next
    case 2
    with s fresh row user show ?thesis
      by (auto simp: references_ok_def seats_move_seat intro!: bexI [of _ "bump_seat Held s"])
  qed
next
  fix x assume "x \<in> set (seats ?d)"
  then obtain x0 where x0: "x0 \<in> set (seats d)" "x = (if seat_id x0 = seat_id s then bump_seat Held x0 else x0)"
    by (auto simp: seats_move_seat)
  have "live_bookings ?d (seat_id x) = live_bookings d (seat_id x) @ (if seat_id x = seat_id s then [row] else [])"
    using row by (simp add: live_bookings_def)
  with x0 row available_no_live [OF con s] consistentD(5) [OF con x0(1)]
  show "seat_matches ?d x" by (auto simp: seat_matches_def)
qed

lemma consistent_insert:
  assumes "consistent d" and "s \<in> set (seats d)" "seat_status s = Available"
    and "bk_id row = bookings_seq d" "bk_seatId row = seat_id s" "bk_status row = Pending"
    and "\<exists>u\<in>set (users d). user_id u = bk_userId row"
  shows "consistent ((move_seat Held (seat_id s) d)
    \<lparr>bookings := bookings d @ [row], bookings_seq := bookings_seq d + 1\<rparr>)"
  using assms consistentD(4) [OF assms(1)]
  by (intro consistent_insert_drawn) (force simp: references_ok_def)+

subsection \<open>New seats\<close>

definition fresh_seat :: "db \<Rightarrow> seat_row \<Rightarrow> bool" where
  "fresh_seat d s \<longleftrightarrow> int4_ok (seat_id s) \<and> seat_status s = Available \<and>
     (\<forall>s'\<in>set (seats d). seat_id s' \<noteq> seat_id s)"

lemma consistent_new_seats:
  assumes con: "consistent d" and fresh: "\<forall>x\<in>set new. fresh_seat d x" and ids: "distinct (map seat_id new)"
  shows "consistent (d\<lparr>seats := seats d @ new\<rparr>)" (is "consistent ?d")
proof (rule consistentI)
  show "distinct_seats ?d"
    using consistentD(1) [OF con] fresh ids by (auto simp: distinct_seats_def fresh_seat_def)
  show "distinct (map bk_id (bookings ?d))" using consistentD(2) [OF con] by simp
  show "1 \<le> bookings_seq ?d" using consistentD(6) [OF con] by simp
  show "int4_ok (seat_id s)" if "s \<in> set (seats ?d)" for s
    using that consistentD(3) [OF con, of s] fresh by (auto simp: fresh_seat_def)
  show "references_ok ?d b" if "b \<in> set (bookings ?d)" for b
    using that consistentD(4) [OF con, of b] by (auto simp: references_ok_def)
  have live: "live_bookings ?d i = live_bookings d i" for i by (simp add: live_bookings_def)
  have none: "live_bookings d (seat_id x) = []" if "x \<in> set new" for x
    using consistentD(4) [OF con] fresh that
    by (force simp: live_bookings_def filter_empty_conv fresh_seat_def references_ok_def)
  show "seat_matches ?d s" if "s \<in> set (seats ?d)" for s
    using that consistentD(5) [OF con, of s] none fresh by (auto simp: seat_matches_def live fresh_seat_def)
qed

end
