(* ===== verification/Messaging.thy ===== *)
theory Messaging
  imports Database
begin

text \<open>
  What the booking use cases do outside the database: the Kafka producer
  (\<open>infrastructure/kafka/producer.ts\<close>) and the BullMQ queue of hold-expiry jobs
  (\<open>infrastructure/queue/hold-expiry.queue.ts\<close>). KafkaJS and BullMQ are not part of the
  repository: the record \<open>services\<close> is the parameter that stands for them, each call with any
  outcome (resolved or rejected) and any effect on its own state.
\<close>

subsection \<open>Messages and jobs\<close>

datatype booking_event_type = BookingCreated | BookingConfirmed | BookingCancelled

fun event_type_text :: "booking_event_type \<Rightarrow> string" where
  "event_type_text BookingCreated = ''booking.created''"
| "event_type_text BookingConfirmed = ''booking.confirmed''"
| "event_type_text BookingCancelled = ''booking.cancelled''"

text \<open>The payload fields the use cases send; a field that is absent is \<open>None\<close>.\<close>

record event_payload =
  pl_bookingId :: "int option"
  pl_seatId :: int
  pl_userId :: int
  pl_holdExpiresAt :: "int option"

text \<open>The message value is kept as the structure that \<open>JSON.stringify\<close> is applied to.\<close>

record kafka_message =
  km_topic :: string
  km_key :: string
  km_type :: string
  km_payload :: event_payload
  km_timestamp :: int

record hold_job =
  job_name :: string
  job_bookingId :: int
  job_delay :: int
  job_jobId :: string
  job_removeOnComplete :: bool
  job_attempts :: int
  job_backoff :: "string \<times> int"
  job_removeOnFail :: int

text \<open>
  A call that resolves returns \<open>None\<close>, one that rejects returns the error. \<open>queue_getJob\<close>
  resolves with whether the job was found.
\<close>

record ('q, 'k) services =
  queue_add :: "hold_job \<Rightarrow> 'q \<Rightarrow> js_error option \<times> 'q"
  queue_getJob :: "string \<Rightarrow> 'q \<Rightarrow> bool result \<times> 'q"
  job_remove :: "string \<Rightarrow> 'q \<Rightarrow> js_error option \<times> 'q"
  producer_send :: "kafka_message \<Rightarrow> 'k \<Rightarrow> js_error option \<times> 'k"

datatype expiry_outcome = Reverted | Noop | Failed

text \<open>The process: the database it talks to, the two services, and its counters.\<close>

record ('q, 'k) world =
  w_db :: db
  w_queue :: 'q
  w_kafka :: 'k
  w_published :: "booking_event_type \<Rightarrow> nat"
  w_expiryJobs :: "expiry_outcome \<Rightarrow> nat"

subsection \<open>publishBookingEvent\<close>

definition booking_message :: "booking_event_type \<Rightarrow> event_payload \<Rightarrow> int \<Rightarrow> kafka_message" where
  "booking_message eventType payload now =
     \<lparr>km_topic = ''booking.events'',
      km_key = (case pl_bookingId payload of None \<Rightarrow> '''' | Some i \<Rightarrow> show_int i),
      km_type = event_type_text eventType, km_payload = payload, km_timestamp = now\<rparr>"

definition publishBookingEvent ::
  "('q, 'k) services \<Rightarrow> booking_event_type \<Rightarrow> event_payload \<Rightarrow> int \<Rightarrow> ('q, 'k) world \<Rightarrow>
   js_error option \<times> ('q, 'k) world" where
  "publishBookingEvent svc eventType payload now w =
     (case producer_send svc (booking_message eventType payload now) (w_kafka w) of
        (Some e, k) \<Rightarrow> (Some e, w\<lparr>w_kafka := k\<rparr>)
      | (None, k) \<Rightarrow> (None, w\<lparr>w_kafka := k,
            w_published := (w_published w)(eventType := Suc (w_published w eventType))\<rparr>))"

subsection \<open>scheduleHoldExpiry\<close>

definition hold_job_id :: "int \<Rightarrow> string" where
  "hold_job_id bookingId = ''hold-expiry-'' @ show_int bookingId"

definition hold_expiry_job :: "int \<Rightarrow> int \<Rightarrow> int \<Rightarrow> hold_job" where
  "hold_expiry_job bookingId holdExpiresAt now =
     \<lparr>job_name = ''expire-hold'', job_bookingId = bookingId,
      job_delay = max 0 (holdExpiresAt - now), job_jobId = hold_job_id bookingId,
      job_removeOnComplete = True, job_attempts = 3, job_backoff = (''exponential'', 5000),
      job_removeOnFail = 200\<rparr>"

definition scheduleHoldExpiry ::
  "('q, 'k) services \<Rightarrow> int \<Rightarrow> int \<Rightarrow> int \<Rightarrow> ('q, 'k) world \<Rightarrow>
   js_error option \<times> ('q, 'k) world" where
  "scheduleHoldExpiry svc bookingId holdExpiresAt now w =
     (case queue_add svc (hold_expiry_job bookingId holdExpiresAt now) (w_queue w) of
        (r, q) \<Rightarrow> (r, w\<lparr>w_queue := q\<rparr>))"

subsection \<open>What the calls leave alone\<close>

lemma publishBookingEvent_db [simp]:
  "w_db (snd (publishBookingEvent svc ty pl now w)) = w_db w"
  by (auto simp: publishBookingEvent_def split: prod.splits option.splits)

lemma scheduleHoldExpiry_db [simp]:
  "w_db (snd (scheduleHoldExpiry svc b h now w)) = w_db w"
  by (auto simp: scheduleHoldExpiry_def split: prod.splits)

lemma hold_job_id_inj: "hold_job_id a = hold_job_id b \<Longrightarrow> a = b"
  by (simp add: hold_job_id_def show_int_inj)

lemma hold_expiry_job_delay:
  "0 \<le> job_delay (hold_expiry_job b h now)"
  "now \<le> h \<Longrightarrow> now + job_delay (hold_expiry_job b h now) = h"
  by (simp_all add: hold_expiry_job_def)

end
