(* ===== verification/Demo.thy ===== *)
theory Demo
  imports Consistency Messaging
begin

text \<open>
  The concrete states on which the witnesses of the properties run: a database with one event,
  two seats and two users, the same database with a pending booking on the first seat, and
  services that accept every call.
\<close>

definition demo_seat :: "int \<Rightarrow> seat_status \<Rightarrow> int \<Rightarrow> seat_row" where
  "demo_seat i st v = \<lparr>seat_id = i, seat_eventId = 1, seat_section = ''A'', seat_rowLabel = ''R1'',
     seat_seatNumber = i, seat_status = st, seat_version = v, seat_createdAt = 0\<rparr>"

definition demo_user :: "int \<Rightarrow> user_row" where
  "demo_user i = \<lparr>user_id = i, user_email = show_int i @ ''@example.com'', user_passwordHash = '''',
     user_createdAt = 0\<rparr>"

definition demo_booking :: booking_row where
  "demo_booking = \<lparr>bk_id = 1, bk_seatId = 1, bk_userId = 1, bk_status = Pending,
     bk_holdExpiresAt = Some 300000, bk_createdAt = 0, bk_updatedAt = 0\<rparr>"

definition demo_event :: event_row where
  "demo_event = \<lparr>event_id = 1, event_venueId = 1, event_name = ''Show'', event_startsAt = 900000,
     event_status = Scheduled, event_createdAt = 0\<rparr>"

definition demo_venue :: venue_row where
  "demo_venue = \<lparr>venue_id = 1, venue_name = ''Arena'', venue_city = ''Pune'', venue_createdAt = 0\<rparr>"

definition demo_db :: db where
  "demo_db = \<lparr>venues = [demo_venue], events = [demo_event],
     seats = [demo_seat 1 Available 0, demo_seat 2 Available 0],
     users = [demo_user 1, demo_user 2], bookings = [], users_seq = 3, bookings_seq = 1\<rparr>"

definition demo_held :: db where
  "demo_held = \<lparr>venues = [demo_venue], events = [demo_event],
     seats = [demo_seat 1 Held 1, demo_seat 2 Available 0],
     users = [demo_user 1, demo_user 2], bookings = [demo_booking], users_seq = 3, bookings_seq = 2\<rparr>"

definition quiet_services :: "(hold_job list, kafka_message list) services" where
  "quiet_services = \<lparr>queue_add = (\<lambda>j q. (None, q @ [j])),
     queue_getJob = (\<lambda>i q. (Inr (\<exists>j\<in>set q. job_jobId j = i), q)),
     job_remove = (\<lambda>i q. (None, filter (\<lambda>j. job_jobId j \<noteq> i) q)),
     producer_send = (\<lambda>m k. (None, k @ [m]))\<rparr>"

definition demo_world :: "db \<Rightarrow> (hold_job list, kafka_message list) world" where
  "demo_world d = \<lparr>w_db = d, w_queue = [], w_kafka = [], w_published = (\<lambda>_. 0), w_expiryJobs = (\<lambda>_. 0)\<rparr>"

lemmas demo_defs = demo_db_def demo_held_def demo_seat_def demo_user_def demo_booking_def

lemma w_db_demo_world [simp]: "w_db (demo_world d) = d"
  by (simp add: demo_world_def)

lemma demo_consistent: "consistent demo_db" "consistent demo_held"
  by (simp_all add: consistent_def demo_defs distinct_seats_def seat_matches_def live_bookings_def
      references_ok_def int4_ok_def int4_max_def)

lemma demo_seat_at:
  "seat_at demo_db 1 = Some (demo_seat 1 Available 0)" "seat_at demo_held 1 = Some (demo_seat 1 Held 1)"
  by (simp_all add: seat_at_def demo_defs)

lemma demo_int4: "int4_ok 0" "int4_ok 1" "int4_ok 2"
  by (simp_all add: int4_ok_def int4_max_def)

lemma demo_bookings: "bookings demo_db = []" "bookings demo_held = [demo_booking]"
  by (simp_all add: demo_db_def demo_held_def)

end
