(* ===== verification/Booking.thy ===== *)
theory Booking
  imports Consistency Messaging Demo
begin

text \<open>
  The use cases of the booking module (\<open>modules/booking/application/*.ts\<close>): reserve, confirm,
  cancel, expire, get and list. Each use case is written as the stages between its awaits on the
  database (the read before the transaction, the transaction, the re-read that names the status
  in the error, the side effects after the commit) and as their composition on a \<open>world\<close>.
  The times the code reads (\<open>Date.now()\<close>, \<open>new Date()\<close>, the database's \<open>now()\<close>) are
  arguments.
\<close>

subsection \<open>Expiring a hold\<close>

record expire_result =
  er_booking :: booking_row
  er_seat :: "seat_row option"

definition expireHold :: "int \<Rightarrow> expire_result option query" where
  "expireHold bookingId d =
     (if \<not> int4_ok bookingId then Inl out_of_range
      else tx_bind (update_bookings (set_status Expired)
               (\<lambda>b. bk_id b = bookingId \<and> bk_status b = Pending))
             (\<lambda>rows. case first_row rows of
                None \<Rightarrow> tx_return None
              | Some expiredBooking \<Rightarrow>
                  tx_bind (releaseSeatRow (bk_seatId expiredBooking))
                    (\<lambda>seat. tx_return (Some \<lparr>er_booking = expiredBooking, er_seat = seat\<rparr>))) d)"

subsection \<open>Reserving a seat\<close>

definition reserve_check :: "int \<Rightarrow> db \<Rightarrow> unit result" where
  "reserve_check seatId d =
     (case findSeatById seatId d of
        Inl e \<Rightarrow> Inl e
      | Inr (None, _) \<Rightarrow> Inl (SeatNotFoundError seatId)
      | Inr (Some _, _) \<Rightarrow> Inr ())"

definition reserve_tx :: "int \<Rightarrow> int \<Rightarrow> int \<Rightarrow> int \<Rightarrow> booking_row query" where
  "reserve_tx seatId userId holdExpiresAt now =
     tx_bind (reserveSeatRow seatId)
       (\<lambda>seat. case seat of
          None \<Rightarrow> tx_throw (SeatUnavailableError seatId)
        | Some _ \<Rightarrow> insert_booking seatId userId Pending (Some holdExpiresAt) now)"

definition after_reserve ::
  "('q, 'k) services \<Rightarrow> booking_row \<Rightarrow> int \<Rightarrow> int \<Rightarrow> int \<Rightarrow> int \<Rightarrow> int \<Rightarrow> ('q, 'k) world \<Rightarrow>
   ('q, 'k) world" where
  "after_reserve svc booking seatId userId holdExpiresAt t_sched t_event w =
     snd (publishBookingEvent svc BookingCreated
       \<lparr>pl_bookingId = Some (bk_id booking), pl_seatId = seatId, pl_userId = userId,
        pl_holdExpiresAt = Some holdExpiresAt\<rparr> t_event
       (snd (scheduleHoldExpiry svc (bk_id booking) holdExpiresAt t_sched w)))"

text \<open>
  \<open>hold_ms\<close> is \<open>env.HOLD_DURATION_MS\<close>. The two side effects run after the commit, each in its
  own try block that swallows the rejection.
\<close>

definition reserveSeat ::
  "('q, 'k) services \<Rightarrow> int \<Rightarrow> int \<Rightarrow> int \<Rightarrow> int \<Rightarrow> int \<Rightarrow> int \<Rightarrow> int \<Rightarrow> ('q, 'k) world \<Rightarrow>
   booking_row result \<times> ('q, 'k) world" where
  "reserveSeat svc hold_ms seatId userId t_hold t_db t_sched t_event w =
     (case reserve_check seatId (w_db w) of
        Inl e \<Rightarrow> (Inl e, w)
      | Inr _ \<Rightarrow>
          (let holdExpiresAt = t_hold + hold_ms in
           case transaction (reserve_tx seatId userId holdExpiresAt t_db) (w_db w) of
             (Inl e, d) \<Rightarrow> (Inl e, w\<lparr>w_db := d\<rparr>)
           | (Inr booking, d) \<Rightarrow>
               (Inr booking,
                after_reserve svc booking seatId userId holdExpiresAt t_sched t_event
                  (w\<lparr>w_db := d\<rparr>))))"

subsection \<open>Reading bookings\<close>

definition select_own_booking :: "int \<Rightarrow> int \<Rightarrow> db \<Rightarrow> booking_row option result" where
  "select_own_booking bookingId userId d =
     (if \<not> int4_ok bookingId \<or> \<not> int4_ok userId then Inl out_of_range
      else Inr (first_row (select_bookings (\<lambda>b. bk_id b = bookingId \<and> bk_userId b = userId) d)))"

definition getBooking :: "int \<Rightarrow> int \<Rightarrow> db \<Rightarrow> booking_row result" where
  "getBooking bookingId userId d =
     (case select_own_booking bookingId userId d of
        Inl e \<Rightarrow> Inl e
      | Inr None \<Rightarrow> Inl (BookingNotFoundError bookingId)
      | Inr (Some booking) \<Rightarrow> Inr booking)"

text \<open>
  \<open>ORDER BY created_at DESC\<close>. SQL leaves the order of rows with equal times open; the model
  takes the stable order.
\<close>

definition listBookings :: "int \<Rightarrow> db \<Rightarrow> booking_row list result" where
  "listBookings userId d =
     (if \<not> int4_ok userId then Inl out_of_range
      else Inr (sort_key (\<lambda>b. - bk_createdAt b) (select_bookings (\<lambda>b. bk_userId b = userId) d)))"

subsection \<open>Confirming a booking\<close>

definition confirm_drift :: "int \<Rightarrow> int \<Rightarrow> js_error" where
  "confirm_drift bookingId seatId = PlainError
     (''booking '' @ show_int bookingId @ '' confirmed but its seat '' @ show_int seatId @
      '' was not '' @ quoted ''held'' @ '' -- state drift'')"

definition owner_check :: "int \<Rightarrow> int \<Rightarrow> db \<Rightarrow> unit result" where
  "owner_check bookingId userId d =
     (case select_own_booking bookingId userId d of
        Inl e \<Rightarrow> Inl e
      | Inr None \<Rightarrow> Inl (BookingNotFoundError bookingId)
      | Inr (Some _) \<Rightarrow> Inr ())"

definition confirm_tx :: "int \<Rightarrow> int \<Rightarrow> booking_row option query" where
  "confirm_tx now bookingId d =
     (if \<not> int4_ok bookingId then Inl out_of_range
      else tx_bind (update_bookings (set_status_at Confirmed now)
               (\<lambda>b. bk_id b = bookingId \<and> bk_status b = Pending))
             (\<lambda>rows. case first_row rows of
                None \<Rightarrow> tx_return None
              | Some updatedBooking \<Rightarrow>
                  tx_bind (confirmSeatRow (bk_seatId updatedBooking))
                    (\<lambda>seat. case seat of
                       None \<Rightarrow> tx_throw (confirm_drift bookingId (bk_seatId updatedBooking))
                     | Some _ \<Rightarrow> tx_return (Some updatedBooking))) d)"

text \<open>
  The re-read by id alone: \<open>current?.status ?? "unknown"\<close>.
\<close>

definition current_status :: "int \<Rightarrow> db \<Rightarrow> string" where
  "current_status bookingId d =
     (case first_row (select_bookings (\<lambda>b. bk_id b = bookingId) d) of
        None \<Rightarrow> ''unknown''
      | Some b \<Rightarrow> booking_status_text (bk_status b))"

definition confirmBooking ::
  "('q, 'k) services \<Rightarrow> int \<Rightarrow> int \<Rightarrow> int \<Rightarrow> int \<Rightarrow> ('q, 'k) world \<Rightarrow>
   booking_row result \<times> ('q, 'k) world" where
  "confirmBooking svc bookingId userId t_upd t_event w =
     (case owner_check bookingId userId (w_db w) of
        Inl e \<Rightarrow> (Inl e, w)
      | Inr _ \<Rightarrow>
          (case transaction (confirm_tx t_upd bookingId) (w_db w) of
             (Inl e, d) \<Rightarrow> (Inl e, w\<lparr>w_db := d\<rparr>)
           | (Inr None, d) \<Rightarrow>
               (Inl (BookingNotConfirmableError bookingId (current_status bookingId d)), w\<lparr>w_db := d\<rparr>)
           | (Inr (Some confirmed), d) \<Rightarrow>
               (Inr confirmed,
                snd (publishBookingEvent svc BookingConfirmed
                  \<lparr>pl_bookingId = Some (bk_id confirmed), pl_seatId = bk_seatId confirmed,
                   pl_userId = bk_userId confirmed, pl_holdExpiresAt = None\<rparr> t_event
                  (w\<lparr>w_db := d\<rparr>)))))"

subsection \<open>Cancelling a booking\<close>

definition cancel_drift :: "int \<Rightarrow> int \<Rightarrow> js_error" where
  "cancel_drift bookingId seatId = PlainError
     (''booking '' @ show_int bookingId @ '' cancelled but its seat '' @ show_int seatId @
      '' was not held/booked -- state drift'')"

definition cancel_tx :: "int \<Rightarrow> int \<Rightarrow> booking_row option query" where
  "cancel_tx now bookingId d =
     (if \<not> int4_ok bookingId then Inl out_of_range
      else tx_bind (update_bookings (set_status_at Cancelled now)
               (\<lambda>b. bk_id b = bookingId \<and> bk_status b \<in> {Pending, Confirmed}))
             (\<lambda>rows. case first_row rows of
                None \<Rightarrow> tx_return None
              | Some updatedBooking \<Rightarrow>
                  tx_bind (releaseHeldOrBookedSeatRow (bk_seatId updatedBooking))
                    (\<lambda>seat. case seat of
                       None \<Rightarrow> tx_throw (cancel_drift bookingId (bk_seatId updatedBooking))
                     | Some _ \<Rightarrow> tx_return (Some updatedBooking))) d)"

definition remove_hold_job ::
  "('q, 'k) services \<Rightarrow> int \<Rightarrow> ('q, 'k) world \<Rightarrow> ('q, 'k) world" where
  "remove_hold_job svc bookingId w =
     (case queue_getJob svc (hold_job_id bookingId) (w_queue w) of
        (Inl e, q) \<Rightarrow> w\<lparr>w_queue := q\<rparr>
      | (Inr found, q) \<Rightarrow>
          (if found then w\<lparr>w_queue := snd (job_remove svc (hold_job_id bookingId) q)\<rparr>
           else w\<lparr>w_queue := q\<rparr>))"

definition cancelBooking ::
  "('q, 'k) services \<Rightarrow> int \<Rightarrow> int \<Rightarrow> int \<Rightarrow> int \<Rightarrow> ('q, 'k) world \<Rightarrow>
   booking_row result \<times> ('q, 'k) world" where
  "cancelBooking svc bookingId userId t_upd t_event w =
     (case owner_check bookingId userId (w_db w) of
        Inl e \<Rightarrow> (Inl e, w)
      | Inr _ \<Rightarrow>
          (case transaction (cancel_tx t_upd bookingId) (w_db w) of
             (Inl e, d) \<Rightarrow> (Inl e, w\<lparr>w_db := d\<rparr>)
           | (Inr None, d) \<Rightarrow>
               (Inl (BookingNotCancellableError bookingId (current_status bookingId d)), w\<lparr>w_db := d\<rparr>)
           | (Inr (Some cancelled), d) \<Rightarrow>
               (Inr cancelled,
                snd (publishBookingEvent svc BookingCancelled
                  \<lparr>pl_bookingId = Some (bk_id cancelled), pl_seatId = bk_seatId cancelled,
                   pl_userId = bk_userId cancelled, pl_holdExpiresAt = None\<rparr> t_event
                  (remove_hold_job svc bookingId (w\<lparr>w_db := d\<rparr>))))))"

lemma remove_hold_job_db [simp]: "w_db (remove_hold_job svc b w) = w_db w"
  by (auto simp: remove_hold_job_def split: prod.splits sum.splits)

lemma after_reserve_db [simp]: "w_db (after_reserve svc b s u h t1 t2 w) = w_db w"
  by (simp add: after_reserve_def)

end
