(* ===== verification/Booking_Contract.thy ===== *)
theory Booking_Contract
  imports Booking
begin

text \<open>
  The contract the three transactions on an existing booking share (confirm, cancel, expire),
  as the locale \<open>booking_transition\<close>: a conditional UPDATE of the booking decides the race, the
  seat follows in the same transaction. What every client needs (consistency is kept, a second
  attempt finds nothing, the status advances, no other booking or seat changes, the drift error
  is unreachable) is proved once and obtained for each transaction by interpretation.
\<close>

definition has_booking :: "db \<Rightarrow> int \<Rightarrow> booking_status set \<Rightarrow> bool" where
  "has_booking d bid S \<longleftrightarrow> (\<exists>b\<in>set (bookings d). bk_id b = bid \<and> bk_status b \<in> S)"

locale booking_transition =
  fixes tx :: "int \<Rightarrow> booking_row option query"
    and upd :: "booking_row \<Rightarrow> booking_row"
    and source :: "booking_status set"
    and target :: booking_status
  assumes tx_range: "\<not> int4_ok bid \<Longrightarrow> tx bid d = Inl out_of_range"
    and tx_miss: "int4_ok bid \<Longrightarrow> \<not> has_booking d bid source \<Longrightarrow> tx bid d = Inr (None, d)"
    and tx_hit: "int4_ok bid \<Longrightarrow> consistent d \<Longrightarrow> b \<in> set (bookings d) \<Longrightarrow> bk_id b = bid \<Longrightarrow>
      bk_status b \<in> source \<Longrightarrow> seat_at d (bk_seatId b) = Some s \<Longrightarrow> int4_ok (seat_version s + 1) \<Longrightarrow>
      tx bid d = Inr (Some (upd b),
        move_seat (seat_status_for target) (bk_seatId b) (move_booking upd bid d))"
    and tx_overflow: "int4_ok bid \<Longrightarrow> consistent d \<Longrightarrow> b \<in> set (bookings d) \<Longrightarrow> bk_id b = bid \<Longrightarrow>
      bk_status b \<in> source \<Longrightarrow> seat_at d (bk_seatId b) = Some s \<Longrightarrow> \<not> int4_ok (seat_version s + 1) \<Longrightarrow>
      tx bid d = Inl out_of_range"
    and upd_keys: "keeps_keys upd"
    and upd_status: "bk_status (upd b) = target"
    and source_live: "st \<in> source \<Longrightarrow> live st \<and> st < target"
begin

lemma tx_cases:
  assumes "tx bid d = Inr (r, d')" and "consistent d"
  obtains (miss) "r = None" "d' = d" "\<not> has_booking d bid source"
  | (hit) b s where "b \<in> set (bookings d)" "bk_id b = bid" "bk_status b \<in> source"
      "seat_at d (bk_seatId b) = Some s" "int4_ok (seat_version s + 1)" "r = Some (upd b)"
      "d' = move_seat (seat_status_for target) (bk_seatId b) (move_booking upd bid d)"
proof (cases "has_booking d bid source")
  case True
  from assms(1) tx_range have ok: "int4_ok bid" by (metis Inl_Inr_False)
  from True obtain b where b: "b \<in> set (bookings d)" "bk_id b = bid" "bk_status b \<in> source"
    by (auto simp: has_booking_def)
  with source_live assms(2) obtain s where s: "seat_at d (bk_seatId b) = Some s"
    by (meson live_booking_seat)
  with ok b assms tx_overflow have "int4_ok (seat_version s + 1)" by (metis Inl_Inr_False)
  with ok b s assms show ?thesis by (intro hit [of b s]) (auto simp: tx_hit)
next
  case False
  from assms(1) tx_range have "int4_ok bid" by (metis Inl_Inr_False)
  with False assms(1) tx_miss [of bid d] show ?thesis by (intro miss) auto
qed

text \<open>The only way to throw is a value that does not fit its column: never the drift error.\<close>

lemma tx_error:
  assumes "tx bid d = Inl e" and "consistent d"
  shows "e = out_of_range"
proof (cases "has_booking d bid source")
  case True
  then obtain b where b: "b \<in> set (bookings d)" "bk_id b = bid" "bk_status b \<in> source"
    by (auto simp: has_booking_def)
  with source_live assms(2) obtain s where "seat_at d (bk_seatId b) = Some s"
    by (meson live_booking_seat)
  with b assms show ?thesis
    by (cases "int4_ok bid"; cases "int4_ok (seat_version s + 1)")
      (auto simp: tx_range tx_hit tx_overflow)
next
  case False
  with assms show ?thesis by (cases "int4_ok bid") (auto simp: tx_range tx_miss)
qed

lemma tx_consistent:
  assumes "tx bid d = Inr (r, d')" and "consistent d"
  shows "consistent d'"
  using assms
proof (cases rule: tx_cases)
  case (hit b s)
  with assms(2) source_live upd_keys upd_status show ?thesis
    by (metis consistent_transition)
qed (use assms in simp)

text \<open>
  The race arbiter: after a transaction that won, the booking is no longer in the source set.
\<close>

lemma tx_once:
  assumes "tx bid d = Inr (Some r, d')" and "consistent d"
  shows "tx bid d' = Inr (None, d')"
proof -
  from assms(1) tx_range have ok: "int4_ok bid" by (metis Inl_Inr_False)
  from assms show ?thesis
  proof (cases rule: tx_cases)
    case (hit b s)
    have "target \<notin> source" using source_live by blast
    then have "\<not> has_booking d' bid source"
      by (auto simp: hit(7) has_booking_def bookings_move_booking upd_status)
    with ok show ?thesis by (rule tx_miss)
  qed simp
qed

lemma tx_result:
  assumes "tx bid d = Inr (Some r, d')" and "consistent d"
  shows "r \<in> set (bookings d')" and "bk_id r = bid" and "bk_status r = target"
    and "\<exists>b\<in>set (bookings d). bk_id b = bid \<and> bk_status b \<in> source \<and> bk_seatId b = bk_seatId r
      \<and> bk_userId b = bk_userId r"
    and "\<exists>s. seat_at d' (bk_seatId r) = Some s \<and> seat_status s = seat_status_for target"
proof -
  obtain b s where b: "b \<in> set (bookings d)" "bk_id b = bid" "bk_status b \<in> source"
    "seat_at d (bk_seatId b) = Some s" "r = upd b"
    "d' = move_seat (seat_status_for target) (bk_seatId b) (move_booking upd bid d)"
    using assms by (elim tx_cases) auto
  then show "r \<in> set (bookings d')" by (auto simp: bookings_move_booking image_iff)
  from b upd_keys show "bk_id r = bid" by (simp add: keeps_keys_def)
  from b upd_status show "bk_status r = target" by simp
  from b upd_keys show "\<exists>b\<in>set (bookings d). bk_id b = bid \<and> bk_status b \<in> source
      \<and> bk_seatId b = bk_seatId r \<and> bk_userId b = bk_userId r"
    by (auto simp: keeps_keys_def)
  from b upd_keys show "\<exists>s. seat_at d' (bk_seatId r) = Some s \<and> seat_status s = seat_status_for target"
    by (simp add: keeps_keys_def seat_at_move_seat)
qed

text \<open>Frame: every other booking and every other seat is as before.\<close>

lemma tx_frame:
  assumes "tx bid d = Inr (r, d')" and "consistent d"
  shows "b \<in> set (bookings d) \<Longrightarrow> bk_id b \<noteq> bid \<Longrightarrow> b \<in> set (bookings d')"
    and "(\<And>b. r = Some b \<Longrightarrow> bk_seatId b \<noteq> sid) \<Longrightarrow> seat_at d' sid = seat_at d sid"
    and "users d' = users d" and "bookings_seq d' = bookings_seq d" and "users_seq d' = users_seq d"
  using assms upd_keys
  by (auto elim!: tx_cases simp: bookings_move_booking keeps_keys_def seat_at_move_seat image_iff)

lemma tx_advances:
  assumes "tx bid d = Inr (r, d')" and "consistent d"
  shows "list_all2 (\<lambda>b b'. bk_id b' = bk_id b \<and> bk_seatId b' = bk_seatId b \<and> bk_userId b' = bk_userId b
    \<and> bk_status b \<le> bk_status b') (bookings d) (bookings d')"
  using assms
proof (cases rule: tx_cases)
  case miss
  then show ?thesis by (simp add: list_all2_same)
next
  case (hit b s)
  have uniq: "x = b" if "x \<in> set (bookings d)" "bk_id x = bid" for x
    using that hit(1,2) assms(2) booking_unique by blast
  have "bk_status b \<le> target" using source_live [OF hit(3)] by (auto intro: less_imp_le)
  then show ?thesis
    using upd_keys by (auto simp: hit(7) bookings_move_booking list_all2_map2 list_all2_same
      keeps_keys_def upd_status dest: uniq)
qed

end

subsection \<open>The three transactions honour it\<close>

lemma update_bookings_miss:
  "\<forall>b\<in>set (bookings d). \<not> p b \<Longrightarrow> update_bookings f p d = Inr ([], d)"
  by (simp add: update_bookings_def table_simps)

lemma update_bookings_hit:
  assumes "consistent d" and "b \<in> set (bookings d)" and "bk_id b = bid" and "P b"
  shows "update_bookings f (\<lambda>x. bk_id x = bid \<and> P x) d = Inr ([f b], move_booking f bid d)"
proof -
  have uniq: "\<And>x. x \<in> set (bookings d) \<Longrightarrow> bk_id x = bid \<Longrightarrow> x = b"
    using assms(1-3) booking_unique by blast
  have "filter (\<lambda>x. bk_id x = bid \<and> P x) (bookings d) = [b]"
    using assms consistentD(2) filter_key_and [of bk_id "bookings d" b P] by auto
  moreover have "update_rows (\<lambda>x. bk_id x = bid \<and> P x) f (bookings d)
      = update_rows (\<lambda>x. bk_id x = bid) f (bookings d)"
    using uniq assms(4) by (auto simp: update_rows_def)
  ultimately show ?thesis
    by (simp add: update_bookings_def returned_rows_def move_booking_def)
qed

text \<open>
  The seat half of a transaction, after the booking half: the seat is where the booking's
  status says, so the seat transition hits.
\<close>

lemma seat_half:
  assumes tr: "seat_transition tr source target" and con: "consistent d"
    and b: "b \<in> set (bookings d)" "live (bk_status b)" "seat_status_for (bk_status b) \<in> source"
    and s: "seat_at d (bk_seatId b) = Some s"
  shows "int4_ok (seat_version s + 1) \<Longrightarrow> tr (bk_seatId b) (move_booking f bid d) =
      Inr (Some (bump_seat target s), move_seat target (bk_seatId b) (move_booking f bid d))"
    and "\<not> int4_ok (seat_version s + 1) \<Longrightarrow> tr (bk_seatId b) (move_booking f bid d) = Inl out_of_range"
proof -
  obtain s' where "seat_at d (bk_seatId b) = Some s'" "int4_ok (bk_seatId b)"
      "seat_status s' = seat_status_for (bk_status b)" "s' \<in> set (seats d)" "seat_id s' = bk_seatId b"
    using con b(1,2) by (elim live_booking_seat) auto
  with s b(3) have *: "int4_ok (bk_seatId b)" "seat_status s \<in> source" "s \<in> set (seats d)"
      "seat_id s = bk_seatId b" by auto
  have "distinct_seats (move_booking f bid d)"
    using consistentD(1) [OF con] by (simp add: distinct_seats_def)
  with * show "int4_ok (seat_version s + 1) \<Longrightarrow> tr (bk_seatId b) (move_booking f bid d) =
      Inr (Some (bump_seat target s), move_seat target (bk_seatId b) (move_booking f bid d))"
    and "\<not> int4_ok (seat_version s + 1) \<Longrightarrow> tr (bk_seatId b) (move_booking f bid d) = Inl out_of_range"
    using tr by (auto intro: seat_transition.tr_hit seat_transition.tr_overflow)
qed

lemmas confirm_half = seat_half [OF confirm.seat_transition_axioms]
lemmas release_half = seat_half [OF release.seat_transition_axioms]
lemmas release_any_half = seat_half [OF release_any.seat_transition_axioms]

lemma less_status_simps [simp]:
  "Pending < Confirmed" "Pending < Cancelled" "Confirmed < Cancelled" "Pending < Expired"
  by (simp_all add: less_booking_status_def)

interpretation confirm_booking:
  booking_transition "confirm_tx now" "set_status_at Confirmed now" "{Pending}" Confirmed for now
  by unfold_locales
    (auto simp: confirm_tx_def tx_bind_def has_booking_def update_bookings_miss
      update_bookings_hit confirm_half)

interpretation cancel_booking:
  booking_transition "cancel_tx now" "set_status_at Cancelled now" "{Pending, Confirmed}" Cancelled
  for now
  by unfold_locales
    (auto simp: cancel_tx_def tx_bind_def has_booking_def update_bookings_miss
      update_bookings_hit release_any_half)

definition expire_tx :: "int \<Rightarrow> booking_row option query" where
  "expire_tx bookingId = tx_bind (expireHold bookingId) (\<lambda>r. tx_return (map_option er_booking r))"

interpretation expire_booking:
  booking_transition expire_tx "set_status Expired" "{Pending}" Expired
  by unfold_locales
    (auto simp: expire_tx_def expireHold_def tx_bind_def has_booking_def update_bookings_miss
      update_bookings_hit release_half)

end
