(* ===== verification/Booking_Usecases.thy ===== *)
theory Booking_Usecases
  imports Booking_Contract "HOL-Library.Multiset"
begin

text \<open>
  What the booking use cases promise, one call at a time: the outcome of each on every branch,
  rollback on errors, independence of the broker and the queue, ownership, and the races
  between reservations and between confirming and expiring.
\<close>

subsection \<open>The reserve transaction\<close>

definition pending_booking :: "db \<Rightarrow> int \<Rightarrow> int \<Rightarrow> int \<Rightarrow> int \<Rightarrow> booking_row" where
  "pending_booking d seatId userId holdExpiresAt now =
     \<lparr>bk_id = bookings_seq d, bk_seatId = seatId, bk_userId = userId, bk_status = Pending,
      bk_holdExpiresAt = Some holdExpiresAt, bk_createdAt = now, bk_updatedAt = now\<rparr>"

definition reserved_db :: "db \<Rightarrow> booking_row \<Rightarrow> db" where
  "reserved_db d row = (move_seat Held (bk_seatId row) d)
     \<lparr>bookings := bookings d @ [row], bookings_seq := bookings_seq d + 1\<rparr>"

text \<open>
  The database has room for one more booking by this user: the account exists, and neither the
  seat's version nor the booking sequence is at the end of its 32-bit column.
\<close>

definition can_insert :: "db \<Rightarrow> int \<Rightarrow> int \<Rightarrow> bool" where
  "can_insert d seatId userId \<longleftrightarrow> int4_ok userId \<and> (\<exists>u\<in>set (users d). user_id u = userId) \<and>
     bookings_seq d \<le> int4_max \<and>
     (\<forall>s. seat_at d seatId = Some s \<longrightarrow> int4_ok (seat_version s + 1))"

definition versions_room :: "db \<Rightarrow> bool" where
  "versions_room d \<longleftrightarrow> (\<forall>s\<in>set (seats d). int4_ok (seat_version s + 1))"

lemma pending_booking_simps [simp]:
  "bk_id (pending_booking d s u h now) = bookings_seq d"
  "bk_seatId (pending_booking d s u h now) = s" "bk_userId (pending_booking d s u h now) = u"
  "bk_status (pending_booking d s u h now) = Pending"
  "bk_holdExpiresAt (pending_booking d s u h now) = Some h"
  by (simp_all add: pending_booking_def)

lemma reserved_db_simps [simp]:
  "bookings (reserved_db d row) = bookings d @ [row]" "users (reserved_db d row) = users d"
  "bookings_seq (reserved_db d row) = bookings_seq d + 1"
  "seats (reserved_db d row) = seats (move_seat Held (bk_seatId row) d)"
  by (simp_all add: reserved_db_def)

lemma seat_at_reserved_db [simp]:
  "seat_at (reserved_db d row) x = seat_at (move_seat Held (bk_seatId row) d) x"
  by (simp add: seat_at_def)

lemma insert_booking_eq:
  "insert_booking seatId userId Pending (Some h) now d' =
     (if \<not> int4_ok seatId \<or> \<not> int4_ok userId then Inl out_of_range
      else if bookings_seq d' > int4_max then Inl sequence_exhausted
      else if \<not> (\<exists>s\<in>set (seats d'). seat_id s = seatId) \<or>
              \<not> (\<exists>u\<in>set (users d'). user_id u = userId) then Inl foreign_key_violation
      else Inr (pending_booking d' seatId userId h now,
        d'\<lparr>bookings := bookings d' @ [pending_booking d' seatId userId h now],
           bookings_seq := bookings_seq d' + 1\<rparr>))"
  by (simp add: insert_booking_def pending_booking_def Let_def)

lemma seq_int4: "consistent d \<Longrightarrow> can_insert d seatId userId \<Longrightarrow> int4_ok (bookings_seq d)"
  using consistentD(6) [of d] by (simp add: can_insert_def int4_ok_def)

lemma reserve_tx_hit:
  assumes "consistent d" and "seat_at d seatId = Some s" and "seat_status s = Available"
    and "can_insert d seatId userId"
  shows "reserve_tx seatId userId h now d =
    Inr (pending_booking d seatId userId h now, reserved_db d (pending_booking d seatId userId h now))"
proof -
  from assms(2) have s: "s \<in> set (seats d)" "seat_id s = seatId" by (auto dest: seat_at_SomeD)
  with consistentD(3) [OF assms(1)] have ok: "int4_ok seatId" by blast
  with s assms have "reserveSeatRow seatId d = Inr (Some (bump_seat Held s), move_seat Held seatId d)"
    by (intro reserve.tr_hit) (auto simp: can_insert_def dest: consistentD(1))
  moreover have "\<exists>x\<in>set (seats (move_seat Held seatId d)). seat_id x = seatId"
    using s by auto
  ultimately show ?thesis
    using ok assms(4)
    by (auto simp: reserve_tx_def tx_bind_def insert_booking_eq can_insert_def reserved_db_def
        pending_booking_def)
qed

lemma reserve_tx_taken:
  assumes "int4_ok seatId" and "distinct_seats d" and "\<forall>s. seat_at d seatId = Some s \<longrightarrow> seat_status s \<noteq> Available"
  shows "reserve_tx seatId userId h now d = Inl (SeatUnavailableError seatId)"
proof -
  have "reserveSeatRow seatId d = Inr (None, d)"
    using assms by (intro reserve.tr_miss) (auto simp: seat_at_Some_iff)
  then show ?thesis by (simp add: reserve_tx_def tx_bind_def)
qed

lemma reserve_tx_cases:
  assumes "reserve_tx seatId userId h now d = Inr (row, d')" and "consistent d"
  obtains s where "seat_at d seatId = Some s" "seat_status s = Available"
    "row = pending_booking d seatId userId h now" "d' = reserved_db d row"
    "\<exists>u\<in>set (users d). user_id u = userId" "int4_ok (bookings_seq d)" "int4_ok userId"
proof -
  from assms(1) obtain d1 r where r: "reserveSeatRow seatId d = Inr (Some r, d1)"
    and i: "insert_booking seatId userId Pending (Some h) now d1 = Inr (row, d')"
    by (auto simp: reserve_tx_def dest!: tx_bind_InrD split: option.splits)
  from r consistentD(1) [OF assms(2)] obtain s where s: "s \<in> set (seats d)" "seat_id s = seatId"
    "seat_status s = Available" "d1 = move_seat Held seatId d"
    by (elim reserve.tr_cases) auto
  then have "seat_at d seatId = Some s" using seat_at_row consistentD(1) [OF assms(2)] by metis
  with s i consistentD(6) [OF assms(2)] show ?thesis
    by (intro that)
      (auto simp: insert_booking_eq reserved_db_def pending_booking_def int4_ok_def split: if_splits)
qed

lemma reserve_tx_consistent:
  assumes "reserve_tx seatId userId h now d = Inr (row, d')" and "consistent d"
  shows "consistent d'"
  using assms
proof (cases rule: reserve_tx_cases)
  case (1 s)
  then have s: "s \<in> set (seats d)" "seat_id s = seatId" by (auto dest: seat_at_SomeD)
  with 1 show ?thesis
    using consistent_insert [OF assms(2) s(1) 1(2), of row] by (simp add: reserved_db_def)
qed

lemma reserve_tx_error:
  assumes "reserve_tx seatId userId h now d = Inl e" and "distinct_seats d"
  shows "e \<in> {SeatUnavailableError seatId, out_of_range, sequence_exhausted, foreign_key_violation}"
  using assms
  by (auto simp: reserve_tx_def tx_bind_def insert_booking_eq dest: reserve.tr_error
      split: sum.splits option.splits prod.splits if_splits)

subsection \<open>The demo states meet the side conditions\<close>

lemma demo_room: "can_insert demo_db 1 1" "can_insert demo_db 1 2" "versions_room demo_held"
  by (simp_all add: can_insert_def versions_room_def seat_at_def int4_ok_def int4_max_def demo_defs)

lemma demo_pending: "pending_booking demo_db 1 1 300000 0 = demo_booking"
  by (simp add: pending_booking_def demo_booking_def demo_db_def)

lemmas demo_facts = demo_consistent demo_seat_at demo_int4 demo_room demo_pending demo_bookings
  demo_seat_def

subsection \<open>Reserving: outcome, rollback, services\<close>

lemma reserve_check_eq:
  "int4_ok seatId \<Longrightarrow> reserve_check seatId d =
     (if seat_at d seatId = None then Inl (SeatNotFoundError seatId) else Inr ())"
  by (auto simp: reserve_check_def findSeatById_unfold split: option.splits)

text \<open>
  C8. Every branch of \<open>reserveSeat\<close> on a consistent database with room for the booking: a seat
  id that does not exist is SeatNotFound, a seat that is held or booked is SeatUnavailable, both
  with the database as it was; an available seat yields the pending booking of this user,
  expiring \<open>hold_ms\<close> after the call, and the database in which that booking is inserted and the
  seat is held with its version one higher.
\<close>

theorem reserveSeat_outcome:
  assumes "consistent (w_db w)" and "int4_ok seatId" and "can_insert (w_db w) seatId userId"
  shows "(case seat_at (w_db w) seatId of
      None \<Rightarrow> reserveSeat svc hold_ms seatId userId t_hold t_db t_sched t_event w
                = (Inl (SeatNotFoundError seatId), w)
    | Some s \<Rightarrow>
        (if seat_status s = Available then
           (let row = pending_booking (w_db w) seatId userId (t_hold + hold_ms) t_db;
                (r, w') = reserveSeat svc hold_ms seatId userId t_hold t_db t_sched t_event w
            in r = Inr row \<and> w_db w' = reserved_db (w_db w) row \<and>
               seat_at (w_db w') seatId = Some (bump_seat Held s))
         else reserveSeat svc hold_ms seatId userId t_hold t_db t_sched t_event w
                = (Inl (SeatUnavailableError seatId), w)))"
proof (cases "seat_at (w_db w) seatId")
  case None
  with assms(2) show ?thesis by (simp add: reserveSeat_def reserve_check_eq)
next
  case (Some s)
  show ?thesis
  proof (cases "seat_status s = Available")
    case True
    from reserve_tx_hit [OF assms(1) Some True assms(3)] Some True assms(2) show ?thesis
      by (simp add: reserveSeat_def reserve_check_eq transaction_def Let_def seat_at_move_seat)
  next
    case False
    with Some assms have "reserve_tx seatId userId (t_hold + hold_ms) t_db (w_db w)
        = Inl (SeatUnavailableError seatId)"
      by (intro reserve_tx_taken) (auto dest: consistentD(1))
    with Some False assms(2) show ?thesis
      by (simp add: reserveSeat_def reserve_check_eq transaction_def Let_def)
  qed
qed

theorem reserveSeat_outcome_witness:
  "fst (reserveSeat quiet_services 300000 1 1 0 0 0 0 (demo_world demo_db)) = Inr demo_booking"
  using reserveSeat_outcome [where w = "demo_world demo_db" and seatId = 1 and userId = 1 and svc = quiet_services
      and hold_ms = 300000 and t_hold = 0 and t_db = 0 and t_sched = 0 and t_event = 0]
  by (simp add: demo_facts Let_def split: prod.splits)

subsection \<open>Services never decide\<close>

text \<open>
  C26. Kafka and BullMQ never decide a booking request: whatever the broker and the queue do
  (reject, lose a message, find or miss the job), reserve, confirm and cancel return the same
  result and leave the same database as with any other broker and queue.
\<close>

theorem services_irrelevant:
  fixes svc :: "('q, 'k) services" and svc' :: "('r, 'l) services"
  shows "let w' = \<lparr>w_db = w_db w, w_queue = q, w_kafka = k, w_published = p, w_expiryJobs = x\<rparr>;
      same = (\<lambda>(r, v) (r', v'). r = r' \<and> w_db v = w_db v')
    in same (reserveSeat svc hold_ms sid uid t1 t2 t3 t4 w) (reserveSeat svc' hold_ms sid uid t1 t2 t5 t6 w')
     \<and> same (confirmBooking svc bid uid t1 t4 w) (confirmBooking svc' bid uid t1 t6 w')
     \<and> same (cancelBooking svc bid uid t1 t4 w) (cancelBooking svc' bid uid t1 t6 w')"
  by (auto simp: reserveSeat_def confirmBooking_def cancelBooking_def Let_def
      split: sum.splits prod.splits option.splits)

subsection \<open>Confirming and cancelling: outcome, ownership\<close>

definition owns :: "db \<Rightarrow> int \<Rightarrow> int \<Rightarrow> bool" where
  "owns d bookingId userId \<longleftrightarrow> (\<exists>b\<in>set (bookings d). bk_id b = bookingId \<and> bk_userId b = userId)"

lemma owner_check_eq:
  "int4_ok bid \<Longrightarrow> int4_ok uid \<Longrightarrow>
   owner_check bid uid d = (if owns d bid uid then Inr () else Inl (BookingNotFoundError bid))"
  by (auto simp: owner_check_def select_own_booking_def select_bookings_def owns_def
      filter_empty_conv split: option.splits)

lemma current_status_eq:
  assumes "consistent d" and "b \<in> set (bookings d)" and "bk_id b = bid"
  shows "current_status bid d = booking_status_text (bk_status b)"
  using assms filter_key_unique [OF consistentD(2) [OF assms(1)] assms(2)]
  by (simp add: current_status_def select_bookings_def)

text \<open>
  The branches of the transaction of a transition on a booking the caller owns, as
  \<open>confirmBooking\<close> and \<open>cancelBooking\<close> use it.
\<close>

context booking_transition
begin

lemma transaction_eq:
  assumes "consistent d" and "versions_room d" and "int4_ok bid"
    and b: "b \<in> set (bookings d)" "bk_id b = bid"
  shows "transaction (tx bid) d = (if bk_status b \<in> source
    then (Inr (Some (upd b)), move_seat (seat_status_for target) (bk_seatId b) (move_booking upd bid d))
    else (Inr None, d))"
proof (cases "bk_status b \<in> source")
  case True
  with source_live assms(1) b obtain s where "seat_at d (bk_seatId b) = Some s" "s \<in> set (seats d)"
    by (meson live_booking_seat)
  with True assms show ?thesis by (simp add: transaction_def tx_hit versions_room_def)
next
  case False
  then have "\<not> has_booking d bid source"
    using assms(1) b booking_unique by (auto simp: has_booking_def)
  with False assms(3) show ?thesis by (simp add: transaction_def tx_miss)
qed

end

text \<open>
  C9. Confirming one's own booking: a pending booking becomes confirmed with \<open>updated_at\<close> set,
  its seat becomes booked, and the confirmed row is returned; from any other status the request
  fails with BookingNotConfirmable naming that status and nothing changes.
\<close>

theorem confirmBooking_outcome:
  assumes "consistent (w_db w)" and "versions_room (w_db w)" and "int4_ok bid" and "int4_ok uid"
    and "b \<in> set (bookings (w_db w))" and "bk_id b = bid" and "bk_userId b = uid"
  shows "if bk_status b = Pending then
      (let (r, w') = confirmBooking svc bid uid t_upd t_event w
       in r = Inr (b\<lparr>bk_status := Confirmed, bk_updatedAt := t_upd\<rparr>) \<and>
          w_db w' = move_seat Booked (bk_seatId b)
            (move_booking (set_status_at Confirmed t_upd) bid (w_db w)))
    else confirmBooking svc bid uid t_upd t_event w =
      (Inl (BookingNotConfirmableError bid (booking_status_text (bk_status b))), w)"
  using assms confirm_booking.transaction_eq [OF assms(1-3,5,6), of t_upd]
  by (auto simp: confirmBooking_def owner_check_eq owns_def current_status_eq set_status_at_def Let_def)

theorem confirmBooking_outcome_witness:
  "fst (confirmBooking quiet_services 1 1 5 6 (demo_world demo_held))
     = Inr (demo_booking\<lparr>bk_status := Confirmed, bk_updatedAt := 5\<rparr>)"
  using confirmBooking_outcome [where w = "demo_world demo_held" and bid = 1 and uid = 1 and b = demo_booking
      and svc = quiet_services and t_upd = 5 and t_event = 6]
  by (simp add: demo_facts demo_booking_def Let_def split: prod.splits)

text \<open>
  C10. Cancelling one's own booking: a pending or confirmed booking becomes cancelled with
  \<open>updated_at\<close> set, its seat becomes available again, and the cancelled row is returned; from
  cancelled or expired the request fails with BookingNotCancellable naming that status and
  nothing changes.
\<close>

theorem cancelBooking_outcome:
  assumes "consistent (w_db w)" and "versions_room (w_db w)" and "int4_ok bid" and "int4_ok uid"
    and "b \<in> set (bookings (w_db w))" and "bk_id b = bid" and "bk_userId b = uid"
  shows "if bk_status b \<in> {Pending, Confirmed} then
      (let (r, w') = cancelBooking svc bid uid t_upd t_event w
       in r = Inr (b\<lparr>bk_status := Cancelled, bk_updatedAt := t_upd\<rparr>) \<and>
          w_db w' = move_seat Available (bk_seatId b)
            (move_booking (set_status_at Cancelled t_upd) bid (w_db w)))
    else cancelBooking svc bid uid t_upd t_event w =
      (Inl (BookingNotCancellableError bid (booking_status_text (bk_status b))), w)"
  using assms cancel_booking.transaction_eq [OF assms(1-3,5,6), of t_upd]
  by (auto simp: cancelBooking_def owner_check_eq owns_def current_status_eq set_status_at_def Let_def)

theorem cancelBooking_outcome_witness:
  "fst (cancelBooking quiet_services 1 1 5 6 (demo_world demo_held))
     = Inr (demo_booking\<lparr>bk_status := Cancelled, bk_updatedAt := 5\<rparr>)"
  using cancelBooking_outcome [where w = "demo_world demo_held" and bid = 1 and uid = 1 and b = demo_booking
      and svc = quiet_services and t_upd = 5 and t_event = 6]
  by (simp add: demo_facts demo_booking_def Let_def split: prod.splits)

text \<open>
  A booking that is not the caller's is not there for the caller: whether the id belongs to
  someone else or to nobody, get, confirm and cancel all answer BookingNotFound with the id that
  was asked for, and change nothing. No reply depends on whether the id exists.
\<close>

theorem foreign_booking_hidden:
  assumes "int4_ok bid" and "int4_ok uid"
    and "\<forall>b\<in>set (bookings (w_db w)). bk_id b = bid \<longrightarrow> bk_userId b \<noteq> uid"
  shows "getBooking bid uid (w_db w) = Inl (BookingNotFoundError bid)
    \<and> confirmBooking svc bid uid t_upd t_event w = (Inl (BookingNotFoundError bid), w)
    \<and> cancelBooking svc bid uid t_upd t_event w = (Inl (BookingNotFoundError bid), w)"
proof -
  from assms(3) have "\<not> owns (w_db w) bid uid" by (auto simp: owns_def)
  moreover from assms have "select_own_booking bid uid (w_db w) = Inr None"
    by (auto simp: select_own_booking_def select_bookings_def filter_empty_conv)
  ultimately show ?thesis
    using assms by (simp add: getBooking_def confirmBooking_def cancelBooking_def owner_check_eq)
qed

theorem foreign_booking_hidden_witness:
  "getBooking 1 2 demo_held = Inl (BookingNotFoundError 1)
   \<and> cancelBooking quiet_services 1 2 5 6 (demo_world demo_held)
       = (Inl (BookingNotFoundError 1), demo_world demo_held)"
  using foreign_booking_hidden [where w = "demo_world demo_held" and bid = 1 and uid = 2
      and svc = quiet_services and t_upd = 5 and t_event = 6]
  by (simp add: demo_facts demo_booking_def)

subsection \<open>Consistency and rollback of whole requests\<close>

context booking_transition
begin

lemma transaction_consistent: "consistent d \<Longrightarrow> consistent (snd (transaction (tx bid) d))"
  by (auto simp: transaction_def split: sum.splits prod.splits intro: tx_consistent)

lemma transaction_not_applied:
  "consistent d \<Longrightarrow> fst (transaction (tx bid) d) = Inr None \<or> fst (transaction (tx bid) d) = Inl e \<Longrightarrow>
   snd (transaction (tx bid) d) = d"
  by (auto simp: transaction_def split: sum.splits prod.splits elim!: tx_cases)

end

lemma reserve_transaction_consistent:
  "consistent d \<Longrightarrow> consistent (snd (transaction (reserve_tx sid uid h now) d))"
  by (auto simp: transaction_def split: sum.splits prod.splits intro: reserve_tx_consistent)

lemma expire_tx_db: "snd (transaction (expireHold bid) d) = snd (transaction (expire_tx bid) d)"
  by (auto simp: transaction_def expire_tx_def tx_bind_def split: sum.splits prod.splits)

lemma w_db_reserveSeat:
  "w_db (snd (reserveSeat svc hold_ms sid uid t1 t2 t3 t4 w)) =
     (if \<exists>e. reserve_check sid (w_db w) = Inl e then w_db w
      else snd (transaction (reserve_tx sid uid (t1 + hold_ms) t2) (w_db w)))"
  by (auto simp: reserveSeat_def Let_def split: sum.splits prod.splits)

lemma w_db_confirmBooking:
  "w_db (snd (confirmBooking svc bid uid t1 t2 w)) =
     (if \<exists>e. owner_check bid uid (w_db w) = Inl e then w_db w
      else snd (transaction (confirm_tx t1 bid) (w_db w)))"
  by (auto simp: confirmBooking_def split: sum.splits prod.splits option.splits)

lemma w_db_cancelBooking:
  "w_db (snd (cancelBooking svc bid uid t1 t2 w)) =
     (if \<exists>e. owner_check bid uid (w_db w) = Inl e then w_db w
      else snd (transaction (cancel_tx t1 bid) (w_db w)))"
  by (auto simp: cancelBooking_def split: sum.splits prod.splits option.splits)

lemmas w_db_usecases = w_db_reserveSeat w_db_confirmBooking w_db_cancelBooking expire_tx_db

lemma reserveSeat_consistent:
  "consistent (w_db w) \<Longrightarrow> consistent (w_db (snd (reserveSeat svc hold_ms sid uid t1 t2 t3 t4 w)))"
  by (simp add: w_db_reserveSeat reserve_transaction_consistent)

lemma confirmBooking_consistent:
  "consistent (w_db w) \<Longrightarrow> consistent (w_db (snd (confirmBooking svc bid uid t1 t2 w)))"
  by (simp add: w_db_confirmBooking confirm_booking.transaction_consistent)

lemma cancelBooking_consistent:
  "consistent (w_db w) \<Longrightarrow> consistent (w_db (snd (cancelBooking svc bid uid t1 t2 w)))"
  by (simp add: w_db_cancelBooking cancel_booking.transaction_consistent)

text \<open>
  Every use case that writes keeps the two tables consistent: from a database in which each
  seat's status says exactly which live booking it has, reserving, confirming, cancelling and
  expiring (whatever their arguments, and whether they succeed or fail) leave such a database.
\<close>

theorem usecases_keep_consistency:
  assumes "consistent (w_db w)"
  shows "consistent (w_db (snd (reserveSeat svc hold_ms sid uid t1 t2 t3 t4 w)))
    \<and> consistent (w_db (snd (confirmBooking svc bid uid t1 t4 w)))
    \<and> consistent (w_db (snd (cancelBooking svc bid uid t1 t4 w)))
    \<and> consistent (snd (transaction (expireHold bid) (w_db w)))"
  using assms
  by (simp add: reserveSeat_consistent confirmBooking_consistent cancelBooking_consistent
      expire_tx_db expire_booking.transaction_consistent)

theorem usecases_keep_consistency_witness:
  "consistent (w_db (snd (reserveSeat quiet_services 300000 1 1 0 0 0 0 (demo_world demo_db))))"
  using usecases_keep_consistency [of "demo_world demo_db" quiet_services 300000 1 1 0 0 0 0]
  by (simp add: demo_facts)

text \<open>
  A request that fails has no effect: when reserve, confirm or cancel throws, the database,
  the job queue, the broker and the counters are exactly as before the call.
\<close>

theorem failed_request_no_effect:
  assumes "consistent (w_db w)"
  shows "(fst (reserveSeat svc hold_ms sid uid t1 t2 t3 t4 w) = Inl e \<longrightarrow>
        snd (reserveSeat svc hold_ms sid uid t1 t2 t3 t4 w) = w)
    \<and> (fst (confirmBooking svc bid uid t1 t4 w) = Inl e \<longrightarrow> snd (confirmBooking svc bid uid t1 t4 w) = w)
    \<and> (fst (cancelBooking svc bid uid t1 t4 w) = Inl e \<longrightarrow> snd (cancelBooking svc bid uid t1 t4 w) = w)"
proof -
  have r: "transaction (reserve_tx sid uid (t1 + hold_ms) t2) (w_db w) = (Inl x, d) \<Longrightarrow> d = w_db w" for x d
    by (auto simp: transaction_def split: sum.splits prod.splits)
  have c: "transaction (confirm_tx t1 bid) (w_db w) = (Inl x, d) \<Longrightarrow> d = w_db w"
      "transaction (cancel_tx t1 bid) (w_db w) = (Inl x, d) \<Longrightarrow> d = w_db w" for x d
    by (auto simp: transaction_def split: sum.splits prod.splits)
  have n: "transaction (confirm_tx t1 bid) (w_db w) = (Inr None, d) \<Longrightarrow> d = w_db w"
      "transaction (cancel_tx t1 bid) (w_db w) = (Inr None, d) \<Longrightarrow> d = w_db w" for d
    using confirm_booking.transaction_not_applied [OF assms, of t1 bid]
      cancel_booking.transaction_not_applied [OF assms, of t1 bid] by auto
  show ?thesis
    by (auto simp: reserveSeat_def confirmBooking_def cancelBooking_def Let_def dest!: r c n
        split: sum.splits prod.splits option.splits)
qed

theorem failed_request_no_effect_witness:
  "reserveSeat quiet_services 300000 1 2 0 0 0 0 (demo_world demo_held)
     = (Inl (SeatUnavailableError 1), demo_world demo_held)"
proof -
  have "fst (reserveSeat quiet_services 300000 1 2 0 0 0 0 (demo_world demo_held))
      = Inl (SeatUnavailableError 1)"
    by (simp add: reserveSeat_def reserve_check_eq demo_facts transaction_def reserve_tx_taken
        consistentD(1) Let_def)
  with failed_request_no_effect [of "demo_world demo_held" quiet_services 300000 1 2 0 0 0 0 "SeatUnavailableError 1"]
  show ?thesis by (simp add: demo_facts prod_eq_iff)
qed

subsection \<open>Races\<close>

text \<open>
  \<open>reserve_all\<close> runs the reserve transactions of several users for one seat, in the order in
  which the row lock lets them through.
\<close>

fun reserve_all :: "int \<Rightarrow> int \<Rightarrow> int \<Rightarrow> int list \<Rightarrow> db \<Rightarrow> booking_row result list \<times> db" where
  "reserve_all seatId h now [] d = ([], d)"
| "reserve_all seatId h now (uid # uids) d =
     (case transaction (reserve_tx seatId uid h now) d of
        (r, d1) \<Rightarrow> (case reserve_all seatId h now uids d1 of (rs, d2) \<Rightarrow> (r # rs, d2)))"

lemma reserve_all_taken:
  "int4_ok seatId \<Longrightarrow> distinct_seats d \<Longrightarrow> \<forall>s. seat_at d seatId = Some s \<longrightarrow> seat_status s \<noteq> Available \<Longrightarrow>
   reserve_all seatId h now uids d = (replicate (length uids) (Inl (SeatUnavailableError seatId)), d)"
  by (induction uids) (simp_all add: transaction_def reserve_tx_taken)

text \<open>
  Flash sale: when any number of users race for one available seat, the first transaction
  to get the row wins it and every other one is told SeatUnavailable; the database afterwards is
  the one with the winner's booking and nothing else.
\<close>

theorem one_winner:
  assumes "consistent d" and "seat_at d seatId = Some s" and "seat_status s = Available"
    and "can_insert d seatId winner"
  shows "let row = pending_booking d seatId winner h now
    in reserve_all seatId h now (winner # losers) d =
      (Inr row # replicate (length losers) (Inl (SeatUnavailableError seatId)), reserved_db d row)"
proof -
  let ?row = "pending_booking d seatId winner h now"
  from assms(2) have s: "s \<in> set (seats d)" "seat_id s = seatId" by (auto dest: seat_at_SomeD)
  with consistentD(3) [OF assms(1)] have "int4_ok seatId" by blast
  moreover have "distinct_seats (reserved_db d ?row)"
    using consistentD(1) [OF assms(1)] by (simp add: reserved_db_def distinct_seats_def)
  moreover have "\<forall>x. seat_at (reserved_db d ?row) seatId = Some x \<longrightarrow> seat_status x \<noteq> Available"
    using assms(2) by (simp add: seat_at_move_seat)
  ultimately show ?thesis
    using reserve_tx_hit [OF assms] by (simp add: transaction_def Let_def reserve_all_taken)
qed

theorem one_winner_witness:
  "fst (reserve_all 1 300000 0 [1, 2, 2] demo_db)
     = [Inr demo_booking, Inl (SeatUnavailableError 1), Inl (SeatUnavailableError 1)]"
  using one_winner [of demo_db 1 "demo_seat 1 Available 0" 1 300000 0 "[2, 2]"]
  by (simp add: demo_facts Let_def numeral_2_eq_2 del: reserve_all.simps)

context booking_transition
begin

lemma tx_leaves:
  assumes "tx bid d = Inr (Some r, d')" and "consistent d" and "target \<notin> S"
  shows "int4_ok bid \<and> \<not> has_booking d' bid S"
proof
  show "int4_ok bid" using assms(1) tx_range by (metis Inl_Inr_False)
  from assms(1,2) show "\<not> has_booking d' bid S"
  proof (cases rule: tx_cases)
    case (hit b s)
    with assms(3) show ?thesis by (auto simp: has_booking_def bookings_move_booking upd_status)
  qed simp
qed

end

lemma expireHold_miss:
  "int4_ok bid \<Longrightarrow> \<not> has_booking d bid {Pending} \<Longrightarrow> expireHold bid d = Inr (None, d)"
  by (simp add: expireHold_def tx_bind_def has_booking_def update_bookings_miss)

lemma expireHold_tx: "expireHold bid d = Inr (Some x, d') \<Longrightarrow> expire_tx bid d = Inr (Some (er_booking x), d')"
  by (simp add: expire_tx_def tx_bind_def)

text \<open>
  Confirming and the expiry job race for a pending booking, and whichever transaction runs
  first decides: after a confirm the job finds nothing to revert and changes nothing, after the
  job the confirm finds nothing to confirm and changes nothing.
\<close>

theorem confirm_expire_race:
  assumes "consistent d"
  shows "(\<forall>b d1. confirm_tx now bid d = Inr (Some b, d1) \<longrightarrow> transaction (expireHold bid) d1 = (Inr None, d1))
    \<and> (\<forall>x d2. expireHold bid d = Inr (Some x, d2) \<longrightarrow> transaction (confirm_tx now bid) d2 = (Inr None, d2))"
proof (intro conjI allI impI)
  fix b d1 assume "confirm_tx now bid d = Inr (Some b, d1)"
  from confirm_booking.tx_leaves [OF this assms, of "{Pending}"]
  show "transaction (expireHold bid) d1 = (Inr None, d1)"
    by (simp add: transaction_def expireHold_miss)
next
  fix x d2 assume "expireHold bid d = Inr (Some x, d2)"
  from expire_booking.tx_leaves [OF expireHold_tx [OF this] assms, of "{Pending}"]
  show "transaction (confirm_tx now bid) d2 = (Inr None, d2)"
    by (simp add: transaction_def confirm_booking.tx_miss)
qed

theorem confirm_expire_race_witness:
  "\<exists>b d1. confirm_tx 5 1 demo_held = Inr (Some b, d1) \<and> transaction (expireHold 1) d1 = (Inr None, d1)"
proof -
  have "\<exists>b d1. confirm_tx 5 1 demo_held = Inr (Some b, d1)"
    using confirm_booking.tx_hit [of 1 demo_held demo_booking "demo_seat 1 Held 1" 5]
    by (simp add: demo_facts demo_booking_def int4_ok_def int4_max_def)
  with confirm_expire_race [of demo_held 5 1] show ?thesis by (auto simp: demo_facts)
qed

subsection \<open>Expiring, and giving a seat back\<close>

lemma expireHold_hit:
  assumes "consistent d" and "versions_room d" and "int4_ok bid"
    and "b \<in> set (bookings d)" and "bk_id b = bid" and "bk_status b = Pending"
    and "seat_at d (bk_seatId b) = Some s"
  shows "expireHold bid d = Inr (Some \<lparr>er_booking = set_status Expired b, er_seat = Some (bump_seat Available s)\<rparr>,
    move_seat Available (bk_seatId b) (move_booking (set_status Expired) bid d))"
proof -
  from assms(7) have "int4_ok (seat_version s + 1)"
    using assms(2) by (auto simp: versions_room_def dest: seat_at_SomeD)
  then show ?thesis
    using assms by (simp add: expireHold_def tx_bind_def update_bookings_hit release_half)
qed

text \<open>
  The expiry job on an abandoned hold: the pending booking becomes expired and its seat
  available, and the job gets both rows back (the seat is never missing). Nothing else of the
  booking changes: \<open>updated_at\<close> keeps its old value, unlike after a confirm or a cancel.
\<close>

theorem expireHold_outcome:
  assumes "consistent d" and "versions_room d" and "int4_ok bid"
    and "b \<in> set (bookings d)" and "bk_id b = bid" and "bk_status b = Pending"
  shows "\<exists>s. seat_at d (bk_seatId b) = Some s \<and> seat_status s = Held \<and>
    (let d' = move_seat Available (bk_seatId b) (move_booking (set_status Expired) bid d);
         b' = b\<lparr>bk_status := Expired\<rparr>
     in transaction (expireHold bid) d =
          (Inr (Some \<lparr>er_booking = b', er_seat = Some (bump_seat Available s)\<rparr>), d') \<and>
        bk_updatedAt b' = bk_updatedAt b)"
proof -
  obtain s where "seat_at d (bk_seatId b) = Some s" "seat_status s = Held"
    using assms(1,4,6) by (metis live_booking_seat live_simps(1) seat_status_for.simps(1))
  with expireHold_hit [OF assms(1-6)] show ?thesis
    by (simp add: transaction_def Let_def set_status_def)
qed

theorem expireHold_outcome_witness:
  "\<exists>d'. transaction (expireHold 1) demo_held =
     (Inr (Some \<lparr>er_booking = demo_booking\<lparr>bk_status := Expired\<rparr>,
                 er_seat = Some (demo_seat 1 Available 2)\<rparr>), d')"
  using expireHold_outcome [of demo_held 1 demo_booking]
  by (auto simp: demo_facts demo_booking_def bump_seat_def Let_def)

text \<open>
  Reserving and then cancelling gives the seat back: after both transactions the seat is
  the row it was before, available again, with its version two higher, and it has no live
  booking.
\<close>

theorem reserve_cancel_roundtrip:
  assumes "consistent d" and "seat_at d seatId = Some s" and "seat_status s = Available"
    and "can_insert d seatId uid" and "int4_ok (seat_version s + 2)"
  shows "\<exists>row d1 c d2. reserve_tx seatId uid h now d = Inr (row, d1) \<and>
    cancel_tx now' (bk_id row) d1 = Inr (Some c, d2) \<and>
    seat_at d2 seatId = Some (s\<lparr>seat_version := seat_version s + 2\<rparr>) \<and> live_bookings d2 seatId = []"
proof -
  let ?row = "pending_booking d seatId uid h now"
  let ?d1 = "reserved_db d ?row"
  have r: "reserve_tx seatId uid h now d = Inr (?row, ?d1)" using assms by (rule_tac reserve_tx_hit)
  from r assms(1) have c1: "consistent ?d1" by (rule reserve_tx_consistent)
  have s1: "seat_at ?d1 (bk_seatId ?row) = Some (bump_seat Held s)"
    using assms(2) by (simp add: seat_at_move_seat)
  have t: "cancel_tx now' (bk_id ?row) ?d1 = Inr (Some (set_status_at Cancelled now' ?row),
      move_seat Available (bk_seatId ?row) (move_booking (set_status_at Cancelled now') (bk_id ?row) ?d1))"
    (is "_ = Inr (_, ?d2)")
    using cancel_booking.tx_hit [OF _ c1, of "bk_id ?row" ?row "bump_seat Held s" now'] assms(1,4,5) s1
    by (simp add: add.assoc seq_int4)
  have "seat_at ?d2 seatId = Some (s\<lparr>seat_version := seat_version s + 2\<rparr>)"
    using assms(2,3) by (cases s) (simp add: seat_at_move_seat bump_seat_def)
  moreover have "live_bookings ?d2 seatId = []"
    using live_bookings_transition [OF c1, of ?row] by (simp add: keeps_keys_set_status)
  ultimately show ?thesis using r t by blast
qed

theorem reserve_cancel_roundtrip_witness:
  "\<exists>row d1 c d2. reserve_tx 1 1 300000 0 demo_db = Inr (row, d1) \<and>
    cancel_tx 5 (bk_id row) d1 = Inr (Some c, d2) \<and>
    seat_at d2 1 = Some (demo_seat 1 Available 2) \<and> live_bookings d2 1 = []"
  using reserve_cancel_roundtrip [of demo_db 1 "demo_seat 1 Available 0" 1 300000 0 5]
  by (simp add: demo_facts int4_ok_def int4_max_def)

subsection \<open>Reading back\<close>

text \<open>
  What was reserved can be read back by its owner: after a successful \<open>reserveSeat\<close>,
  \<open>getBooking\<close> with the returned id and the same user returns exactly the returned row.
\<close>

theorem reserve_get_roundtrip:
  assumes "consistent (w_db w)" and "reserveSeat svc hold_ms sid uid t1 t2 t3 t4 w = (Inr row, w')"
  shows "getBooking (bk_id row) uid (w_db w') = Inr row"
proof -
  from assms(2) have "reserve_tx sid uid (t1 + hold_ms) t2 (w_db w) = Inr (row, w_db w')"
    by (auto simp: reserveSeat_def transaction_def Let_def split: sum.splits prod.splits)
  then obtain s where row: "row = pending_booking (w_db w) sid uid (t1 + hold_ms) t2"
    "w_db w' = reserved_db (w_db w) row" "int4_ok (bookings_seq (w_db w))" "int4_ok uid"
    using assms(1) by (elim reserve_tx_cases)
  have "filter (\<lambda>b. bk_id b = bk_id row \<and> bk_userId b = uid) (bookings (w_db w)) = []"
    using consistentD(4) [OF assms(1)] row(1) by (force simp: filter_empty_conv references_ok_def)
  with row show ?thesis
    by (simp add: getBooking_def select_own_booking_def select_bookings_def)
qed

theorem reserve_get_roundtrip_witness:
  "\<exists>w'. reserveSeat quiet_services 300000 1 1 0 0 0 0 (demo_world demo_db) = (Inr demo_booking, w')
     \<and> getBooking 1 1 (w_db w') = Inr demo_booking"
proof -
  have "reserve_tx 1 1 300000 0 demo_db = Inr (demo_booking, reserved_db demo_db demo_booking)"
    using reserve_tx_hit [of demo_db 1 "demo_seat 1 Available 0" 1 300000 0] by (simp add: demo_facts)
  then obtain w' where w': "reserveSeat quiet_services 300000 1 1 0 0 0 0 (demo_world demo_db)
      = (Inr demo_booking, w')"
    by (simp add: reserveSeat_def reserve_check_eq demo_facts transaction_def Let_def)
  with reserve_get_roundtrip [OF _ w'] show ?thesis by (simp add: demo_facts demo_booking_def)
qed

text \<open>
  \<open>listBookings\<close> returns exactly the caller's bookings, each once, newest first.
\<close>

theorem listBookings_own_newest_first:
  assumes "int4_ok uid"
  shows "\<exists>bs. listBookings uid d = Inr bs \<and>
    mset bs = filter_mset (\<lambda>b. bk_userId b = uid) (mset (bookings d)) \<and>
    sorted_wrt (\<lambda>a b. bk_createdAt a \<ge> bk_createdAt b) bs"
proof -
  have "sorted (map (\<lambda>b. - bk_createdAt b) (sort_key (\<lambda>b. - bk_createdAt b) bs))" for bs
    by (rule sorted_sort_key)
  with assms show ?thesis
    by (simp add: listBookings_def select_bookings_def sorted_map)
qed

theorem listBookings_own_newest_first_witness:
  "\<exists>bs. listBookings 1 demo_held = Inr bs \<and> mset bs = {#demo_booking#}"
  using listBookings_own_newest_first [of 1 demo_held]
  by (auto simp: demo_facts demo_booking_def)

end
