(* ===== verification/Ticket_Ledger.thy ===== *)
theory Ticket_Ledger
  imports Booking_Usecases
begin

text \<open>
  The abstract specification of the booking flow: every seat is free, held by one user's booking
  or sold to it, and four events move it. \<open>ledger_of\<close> reads that state off the two tables; the
  lemmas here say that each transaction of the use cases is one event of the ledger.
\<close>

datatype ticket = Free | HeldBy int int | SoldTo int int

datatype ticket_event =
    EvReserve int int int   \<comment> \<open>seat, user, booking\<close>
  | EvConfirm int int       \<comment> \<open>seat, booking\<close>
  | EvCancel int int
  | EvExpire int int

type_synonym ledger = "int \<Rightarrow> ticket"

fun ledger_step :: "ledger \<Rightarrow> ticket_event \<Rightarrow> ledger option" where
  "ledger_step L (EvReserve s u b) = (if L s = Free then Some (L(s := HeldBy u b)) else None)"
| "ledger_step L (EvConfirm s b) =
     (case L s of HeldBy u b' \<Rightarrow> if b' = b then Some (L(s := SoldTo u b)) else None | _ \<Rightarrow> None)"
| "ledger_step L (EvCancel s b) =
     (case L s of HeldBy u b' \<Rightarrow> if b' = b then Some (L(s := Free)) else None
      | SoldTo u b' \<Rightarrow> if b' = b then Some (L(s := Free)) else None | Free \<Rightarrow> None)"
| "ledger_step L (EvExpire s b) =
     (case L s of HeldBy u b' \<Rightarrow> if b' = b then Some (L(s := Free)) else None | _ \<Rightarrow> None)"

fun ledger_run :: "ledger \<Rightarrow> ticket_event list \<Rightarrow> ledger option" where
  "ledger_run L [] = Some L"
| "ledger_run L (e # es) = (case ledger_step L e of None \<Rightarrow> None | Some L' \<Rightarrow> ledger_run L' es)"

lemma ledger_run_append:
  "ledger_run L (xs @ ys) = (case ledger_run L xs of None \<Rightarrow> None | Some L' \<Rightarrow> ledger_run L' ys)"
  by (induction xs arbitrary: L) (auto split: option.splits)

lemma ledger_run_snoc:
  "ledger_run L xs = Some L' \<Longrightarrow> ledger_step L' e = Some L'' \<Longrightarrow> ledger_run L (xs @ [e]) = Some L''"
  by (simp add: ledger_run_append)

fun seat_of :: "ticket_event \<Rightarrow> int" where
  "seat_of (EvReserve s u b) = s"
| "seat_of (EvConfirm s b) = s"
| "seat_of (EvCancel s b) = s"
| "seat_of (EvExpire s b) = s"

fun gives_back :: "ticket_event \<Rightarrow> bool" where
  "gives_back (EvCancel s b) = True"
| "gives_back (EvExpire s b) = True"
| "gives_back _ = False"

lemma ledger_step_taken:
  "ledger_step L e = Some L' \<Longrightarrow> L s \<noteq> Free \<Longrightarrow> \<not> (gives_back e \<and> seat_of e = s) \<Longrightarrow> L' s \<noteq> Free"
  by (cases e) (auto split: if_splits ticket.splits)

lemma ledger_run_taken:
  "ledger_run L es = Some L' \<Longrightarrow> L s \<noteq> Free \<Longrightarrow> \<forall>e\<in>set es. \<not> (gives_back e \<and> seat_of e = s) \<Longrightarrow>
   L' s \<noteq> Free"
proof (induction es arbitrary: L)
  case (Cons e es)
  then show ?case by (auto split: option.splits dest: ledger_step_taken)
qed simp

text \<open>The ledger never lets a seat be reserved twice without being given back in between.\<close>

lemma ledger_no_double_reserve:
  assumes "ledger_run L (xs @ EvReserve s u b # ys @ EvReserve s u' b' # zs) = Some L'"
  shows "\<exists>e\<in>set ys. gives_back e \<and> seat_of e = s"
proof (rule ccontr)
  assume none: "\<not> ?thesis"
  from assms obtain L1 where "ledger_run L (xs @ [EvReserve s u b]) = Some L1"
    and L1: "ledger_run L1 (ys @ EvReserve s u' b' # zs) = Some L'"
    using ledger_run_append [of L "xs @ [EvReserve s u b]" "ys @ EvReserve s u' b' # zs"]
    by (auto split: option.splits)
  then have "L1 s \<noteq> Free" by (auto simp: ledger_run_append split: option.splits if_splits)
  moreover from L1 obtain L2 where "ledger_run L1 ys = Some L2" "L2 s = Free"
    by (auto simp: ledger_run_append split: option.splits if_splits)
  ultimately show False using none ledger_run_taken by blast
qed

subsection \<open>The ledger of a database\<close>

definition ticket_of :: "booking_row \<Rightarrow> ticket" where
  "ticket_of b = (case bk_status b of
      Pending \<Rightarrow> HeldBy (bk_userId b) (bk_id b)
    | Confirmed \<Rightarrow> SoldTo (bk_userId b) (bk_id b)
    | _ \<Rightarrow> Free)"

definition ledger_of :: "db \<Rightarrow> ledger" where
  "ledger_of d sid = (case live_bookings d sid of [] \<Rightarrow> Free | b # _ \<Rightarrow> ticket_of b)"

lemma ledger_of_move_seat [simp]: "ledger_of (move_seat st sid d) = ledger_of d"
  by (rule ext) (simp add: ledger_of_def)

lemma ledger_of_transition:
  assumes "consistent d" and "b \<in> set (bookings d)" and "live (bk_status b)" and "keeps_keys f"
  shows "ledger_of d (bk_seatId b) = ticket_of b"
    and "ledger_of (move_booking f (bk_id b) d) = (ledger_of d)(bk_seatId b := ticket_of (f b))"
proof -
  obtain s where one: "live_bookings d (bk_seatId b) = [b]"
    using assms(1-3) by (rule live_booking_seat)
  then show "ledger_of d (bk_seatId b) = ticket_of b" by (simp add: ledger_of_def)
  have "ticket_of (f b) = Free" if "\<not> live (bk_status (f b))"
    using that by (auto simp: ticket_of_def live_def split: booking_status.splits)
  then show "ledger_of (move_booking f (bk_id b) d) = (ledger_of d)(bk_seatId b := ticket_of (f b))"
    by (auto simp: fun_eq_iff ledger_of_def live_bookings_transition [OF assms])
qed

context booking_transition
begin

lemma tx_ledger:
  assumes "tx bid d = Inr (Some r, d')" and "consistent d"
  obtains b where "bk_status b \<in> source" "ledger_of d (bk_seatId r) = ticket_of b"
    "bk_id b = bid" "bk_id r = bid" "bk_userId r = bk_userId b" "bk_status r = target"
    "ledger_of d' = (ledger_of d)(bk_seatId r := ticket_of r)"
  using assms
proof (cases rule: tx_cases)
  case (hit b s)
  have lv: "live (bk_status b)" using source_live [OF hit(3)] by blast
  have r: "r = upd b" using hit(6) by simp
  show ?thesis
    using ledger_of_transition [OF assms(2) hit(1) lv upd_keys] hit upd_keys upd_status
    by (intro that [of b]) (auto simp: r keeps_keys_def)
qed simp

end

lemma confirm_ledger:
  "confirm_tx now bid d = Inr (Some r, d') \<Longrightarrow> consistent d \<Longrightarrow>
   ledger_step (ledger_of d) (EvConfirm (bk_seatId r) (bk_id r)) = Some (ledger_of d')"
  by (elim confirm_booking.tx_ledger) (auto simp: ticket_of_def)

lemma cancel_ledger:
  "cancel_tx now bid d = Inr (Some r, d') \<Longrightarrow> consistent d \<Longrightarrow>
   ledger_step (ledger_of d) (EvCancel (bk_seatId r) (bk_id r)) = Some (ledger_of d')"
  by (elim cancel_booking.tx_ledger) (auto simp: ticket_of_def)

lemma expire_ledger:
  "expireHold bid d = Inr (Some x, d') \<Longrightarrow> consistent d \<Longrightarrow>
   ledger_step (ledger_of d) (EvExpire (bk_seatId (er_booking x)) (bk_id (er_booking x))) = Some (ledger_of d')"
  by (drule expireHold_tx, elim expire_booking.tx_ledger) (auto simp: ticket_of_def)

lemma ledger_of_reserved:
  assumes "consistent d" and "seat_at d sid = Some s" "seat_status s = Available"
    and "bookings d' = bookings d @ [b]" "bk_seatId b = sid" "bk_status b = Pending"
  shows "ledger_step (ledger_of d) (EvReserve sid (bk_userId b) (bk_id b)) = Some (ledger_of d')"
proof -
  from assms(2) have s: "s \<in> set (seats d)" "seat_id s = sid" by (auto dest: seat_at_SomeD)
  from available_no_live [OF assms(1) s(1) assms(3)] s(2)
  have free: "live_bookings d sid = []" by simp
  have "live_bookings d' x = (if x = sid then [b] else live_bookings d x)" for x
    using assms(4-6) free by (auto simp: live_bookings_def)
  then have "ledger_of d' = (ledger_of d)(sid := HeldBy (bk_userId b) (bk_id b))"
    using assms(6) by (auto simp: fun_eq_iff ledger_of_def ticket_of_def)
  with free show ?thesis by (simp add: ledger_of_def)
qed

lemma reserve_ledger:
  assumes "reserve_tx sid uid h now d = Inr (row, d')" and "consistent d"
  shows "ledger_step (ledger_of d) (EvReserve sid uid (bk_id row)) = Some (ledger_of d')"
  using assms
proof (cases rule: reserve_tx_cases)
  case (1 s)
  then show ?thesis using ledger_of_reserved [OF assms(2) 1(1,2), of d' row] by simp
qed

end
