(* ===== verification/Booking_System.thy ===== *)
theory Booking_System
  imports Ticket_Ledger
begin

text \<open>
  Requests and expiry jobs running at the same time, on any number of backend instances, over
  one database. A process is at one of the stages of its use case; one step of the system is
  one database action of one process (a read, or a whole transaction: Postgres runs the
  statements of a transaction on locked rows and publishes them at the commit), and between any
  two stages of a process the others may run. Connections fail, replies get lost after the
  commit, sequence values are burned by rollbacks, accounts and seats are added meanwhile.
\<close>

subsection \<open>Processes\<close>

datatype proc =
    Idle
  | ReserveCheck int int           \<comment> \<open>seat, user\<close>
  | ReserveTx int int int          \<comment> \<open>seat, user, expiry of the hold\<close>
  | ConfirmCheck int int           \<comment> \<open>booking, user\<close>
  | ConfirmTx int
  | ConfirmReread int
  | CancelCheck int int
  | CancelTx int
  | CancelReread int
  | ExpireTx int
  | Replied "booking_row option result"

definition connection_failure :: js_error where
  "connection_failure = DbError ''08006''"

text \<open>
  The next database action of a process at time \<open>t\<close>: its next stage, the database after it and
  the event of the ledger it committed, if any.
\<close>

fun advance :: "int \<Rightarrow> int \<Rightarrow> proc \<Rightarrow> db \<Rightarrow> proc \<times> db \<times> ticket_event list" where
  "advance hold_ms t (ReserveCheck sid uid) d =
     (case reserve_check sid d of
        Inl e \<Rightarrow> (Replied (Inl e), d, [])
      | Inr _ \<Rightarrow> (ReserveTx sid uid (t + hold_ms), d, []))"
| "advance hold_ms t (ReserveTx sid uid h) d =
     (case transaction (reserve_tx sid uid h t) d of
        (Inl e, d') \<Rightarrow> (Replied (Inl e), d', [])
      | (Inr b, d') \<Rightarrow> (Replied (Inr (Some b)), d', [EvReserve sid uid (bk_id b)]))"
| "advance hold_ms t (ConfirmCheck bid uid) d =
     (case owner_check bid uid d of
        Inl e \<Rightarrow> (Replied (Inl e), d, [])
      | Inr _ \<Rightarrow> (ConfirmTx bid, d, []))"
| "advance hold_ms t (ConfirmTx bid) d =
     (case transaction (confirm_tx t bid) d of
        (Inl e, d') \<Rightarrow> (Replied (Inl e), d', [])
      | (Inr None, d') \<Rightarrow> (ConfirmReread bid, d', [])
      | (Inr (Some b), d') \<Rightarrow> (Replied (Inr (Some b)), d', [EvConfirm (bk_seatId b) (bk_id b)]))"
| "advance hold_ms t (ConfirmReread bid) d =
     (Replied (Inl (BookingNotConfirmableError bid (current_status bid d))), d, [])"
| "advance hold_ms t (CancelCheck bid uid) d =
     (case owner_check bid uid d of
        Inl e \<Rightarrow> (Replied (Inl e), d, [])
      | Inr _ \<Rightarrow> (CancelTx bid, d, []))"
| "advance hold_ms t (CancelTx bid) d =
     (case transaction (cancel_tx t bid) d of
        (Inl e, d') \<Rightarrow> (Replied (Inl e), d', [])
      | (Inr None, d') \<Rightarrow> (CancelReread bid, d', [])
      | (Inr (Some b), d') \<Rightarrow> (Replied (Inr (Some b)), d', [EvCancel (bk_seatId b) (bk_id b)]))"
| "advance hold_ms t (CancelReread bid) d =
     (Replied (Inl (BookingNotCancellableError bid (current_status bid d))), d, [])"
| "advance hold_ms t (ExpireTx bid) d =
     (case transaction (expireHold bid) d of
        (Inl e, d') \<Rightarrow> (Replied (Inl e), d', [])
      | (Inr None, d') \<Rightarrow> (Replied (Inr None), d', [])
      | (Inr (Some x), d') \<Rightarrow> (Replied (Inr (Some (er_booking x))), d',
           [EvExpire (bk_seatId (er_booking x)) (bk_id (er_booking x))]))"
| "advance hold_ms t p d = (p, d, [])"

text \<open>How a process starts, and when it has something left to do.\<close>

fun starts :: "proc \<Rightarrow> bool" where
  "starts (ReserveCheck sid uid) = True"
| "starts (ConfirmCheck bid uid) = True"
| "starts (CancelCheck bid uid) = True"
| "starts (ExpireTx bid) = True"
| "starts _ = False"

fun running :: "proc \<Rightarrow> bool" where
  "running Idle = False"
| "running (Replied r) = False"
| "running _ = True"

subsection \<open>The system\<close>

record sys =
  sys_db :: db
  sys_procs :: "nat \<Rightarrow> proc"
  sys_log :: "ticket_event list"

inductive sys_step :: "int \<Rightarrow> sys \<Rightarrow> sys \<Rightarrow> bool" for hold_ms :: int where
  arrive: "sys_procs s i = Idle \<Longrightarrow> starts p \<Longrightarrow>
     sys_step hold_ms s (s\<lparr>sys_procs := (sys_procs s)(i := p)\<rparr>)"
| act: "running (sys_procs s i) \<Longrightarrow> advance hold_ms t (sys_procs s i) (sys_db s) = (p, d, evs) \<Longrightarrow>
     sys_step hold_ms s \<lparr>sys_db = d, sys_procs = (sys_procs s)(i := p), sys_log = sys_log s @ evs\<rparr>"
| fail: "running (sys_procs s i) \<Longrightarrow>
     sys_step hold_ms s (s\<lparr>sys_procs := (sys_procs s)(i := Replied (Inl connection_failure))\<rparr>)"
| lost_reply: "running (sys_procs s i) \<Longrightarrow> advance hold_ms t (sys_procs s i) (sys_db s) = (p, d, evs) \<Longrightarrow>
     sys_step hold_ms s \<lparr>sys_db = d, sys_procs = (sys_procs s)(i := Replied (Inl connection_failure)),
       sys_log = sys_log s @ evs\<rparr>"
| finish: "sys_procs s i = Replied r \<Longrightarrow>
     sys_step hold_ms s (s\<lparr>sys_procs := (sys_procs s)(i := Idle)\<rparr>)"
| burn: "sys_step hold_ms s (s\<lparr>sys_db := (sys_db s)\<lparr>bookings_seq := bookings_seq (sys_db s) + 1\<rparr>\<rparr>)"
| new_user: "sys_step hold_ms s (s\<lparr>sys_db := (sys_db s)\<lparr>users := users (sys_db s) @ [u]\<rparr>\<rparr>)"
| new_seat: "fresh_seat (sys_db s) x \<Longrightarrow>
     sys_step hold_ms s (s\<lparr>sys_db := (sys_db s)\<lparr>seats := seats (sys_db s) @ [x]\<rparr>\<rparr>)"

definition sys_init :: "sys \<Rightarrow> bool" where
  "sys_init s \<longleftrightarrow> consistent (sys_db s) \<and> bookings (sys_db s) = [] \<and>
     sys_procs s = (\<lambda>_. Idle) \<and> sys_log s = []"

abbreviation reachable :: "int \<Rightarrow> sys \<Rightarrow> bool" where
  "reachable hold_ms \<equiv> reachable_from sys_init (sys_step hold_ms)"

subsection \<open>One action\<close>

lemma expireHold_consistent: "expireHold bid d = Inr (r, d') \<Longrightarrow> consistent d \<Longrightarrow> consistent d'"
  by (rule expire_booking.tx_consistent [of bid d "map_option er_booking r"])
    (simp add: expire_tx_def tx_bind_def)

lemma expireHold_None: "expireHold bid d = Inr (None, d') \<Longrightarrow> consistent d \<Longrightarrow> d' = d"
  using expire_booking.tx_cases [of bid d None d'] by (auto simp: expire_tx_def tx_bind_def)

text \<open>An action of a process keeps consistency, and its events are steps of the ledger.\<close>

lemma advance_sound:
  assumes "advance hold_ms t p d = (p', d', evs)" and "consistent d"
  shows "consistent d' \<and> ledger_run (ledger_of d) evs = Some (ledger_of d')"
proof -
  have *: "transaction m d = (r, d') \<Longrightarrow> (case r of Inl e \<Rightarrow> d' = d | Inr x \<Rightarrow> m d = Inr (x, d'))"
    for m :: "'a query" and r
    by (auto simp: transaction_def split: sum.splits prod.splits)
  show ?thesis
  proof (cases p)
    case (ReserveTx sid uid h)
    with assms show ?thesis
      by (auto dest!: * dest: reserve_tx_consistent simp: reserve_ledger
          simp del: ledger_step.simps split: sum.splits prod.splits)
  next
    case (ConfirmTx bid)
    with assms show ?thesis
      by (auto dest!: * dest: confirm_booking.tx_consistent simp: confirm_ledger
          elim: confirm_booking.tx_cases simp del: ledger_step.simps split: sum.splits prod.splits option.splits)
  next
    case (CancelTx bid)
    with assms show ?thesis
      by (auto dest!: * dest: cancel_booking.tx_consistent simp: cancel_ledger
          elim: cancel_booking.tx_cases simp del: ledger_step.simps split: sum.splits prod.splits option.splits)
  next
    case (ExpireTx bid)
    with assms show ?thesis
      by (auto dest!: * dest: expireHold_consistent expireHold_None simp: expire_ledger
          simp del: ledger_step.simps split: sum.splits prod.splits option.splits)
  qed (use assms in \<open>auto split: sum.splits\<close>)
qed

text \<open>No action of a process on a consistent database replies with the state-drift error.\<close>

fun drift :: "js_error \<Rightarrow> bool" where
  "drift (PlainError m) = True"
| "drift _ = False"

definition reply_ok :: "proc \<Rightarrow> bool" where
  "reply_ok p \<longleftrightarrow> (\<forall>e. p = Replied (Inl e) \<longrightarrow> \<not> drift e)"

lemma no_drift [simp]:
  "\<not> drift out_of_range" "\<not> drift sequence_exhausted" "\<not> drift foreign_key_violation"
  "\<not> drift connection_failure" "\<not> drift (SeatNotFoundError i)" "\<not> drift (SeatUnavailableError i)"
  "\<not> drift (BookingNotFoundError i)" "\<not> drift (BookingNotConfirmableError i st)"
  "\<not> drift (BookingNotCancellableError i st)"
  by (simp_all add: db_error_defs app_error_defs connection_failure_def)

lemma drift_drift: "drift (confirm_drift b s)" "drift (cancel_drift b s)"
  by (simp_all add: confirm_drift_def cancel_drift_def)

lemma reserve_check_no_drift: "reserve_check sid d = Inl e \<Longrightarrow> \<not> drift e"
  by (auto simp: reserve_check_def findSeatById_def split: option.splits if_splits)

lemma owner_check_no_drift: "owner_check bid uid d = Inl e \<Longrightarrow> \<not> drift e"
  by (auto simp: owner_check_def select_own_booking_def split: option.splits if_splits)

lemma transaction_Inl: "transaction m d = (Inl e, d') \<longleftrightarrow> m d = Inl e \<and> d' = d"
  by (auto simp: transaction_def split: sum.splits prod.splits)

lemma expireHold_error: "expireHold bid d = Inl e \<Longrightarrow> consistent d \<Longrightarrow> e = out_of_range"
  by (rule expire_booking.tx_error [of bid d]) (simp_all add: expire_tx_def tx_bind_def)

lemma transaction_no_drift:
  assumes "consistent d"
  shows "reserve_tx sid uid h now d = Inl e \<Longrightarrow> \<not> drift e"
    and "confirm_tx now bid d = Inl e \<Longrightarrow> \<not> drift e"
    and "cancel_tx now bid d = Inl e \<Longrightarrow> \<not> drift e"
    and "expireHold bid d = Inl e \<Longrightarrow> \<not> drift e"
  using assms reserve_tx_error [of sid uid h now d e] confirm_booking.tx_error [of now bid d e]
    cancel_booking.tx_error [of now bid d e] expireHold_error [of bid d e] consistentD(1) [OF assms]
  by auto

lemma reply_ok_simps [simp]:
  "reply_ok (Replied (Inr x))" "reply_ok (Replied (Inl e)) \<longleftrightarrow> \<not> drift e" "reply_ok Idle"
  "reply_ok (ReserveCheck i j)" "reply_ok (ReserveTx i j k)" "reply_ok (ConfirmCheck i j)"
  "reply_ok (ConfirmTx i)" "reply_ok (ConfirmReread i)" "reply_ok (CancelCheck i j)"
  "reply_ok (CancelTx i)" "reply_ok (CancelReread i)" "reply_ok (ExpireTx i)"
  by (simp_all add: reply_ok_def)

lemma advance_reply_ok:
  assumes "advance hold_ms t p d = (p', d', evs)" and "consistent d" and "reply_ok p"
  shows "reply_ok p'"
proof (cases p)
  case (ReserveTx sid uid h)
  with assms(1) transaction_no_drift(1) [OF assms(2)] show ?thesis
    by (auto simp: transaction_Inl split: sum.splits prod.splits)
next
  case (ConfirmTx bid)
  with assms(1) transaction_no_drift(2) [OF assms(2)] show ?thesis
    by (auto simp: transaction_Inl split: sum.splits prod.splits option.splits)
next
  case (CancelTx bid)
  with assms(1) transaction_no_drift(3) [OF assms(2)] show ?thesis
    by (auto simp: transaction_Inl split: sum.splits prod.splits option.splits)
next
  case (ExpireTx bid)
  with assms(1) transaction_no_drift(4) [OF assms(2)] show ?thesis
    by (auto simp: transaction_Inl split: sum.splits prod.splits option.splits)
qed (use assms(1,3) in \<open>auto dest: reserve_check_no_drift owner_check_no_drift split: sum.splits\<close>)

subsection \<open>The invariant of the system\<close>

definition sys_inv :: "sys \<Rightarrow> bool" where
  "sys_inv s \<longleftrightarrow> consistent (sys_db s) \<and>
     ledger_run (\<lambda>_. Free) (sys_log s) = Some (ledger_of (sys_db s)) \<and>
     (\<forall>i. reply_ok (sys_procs s i))"

text \<open>The steps of the environment.\<close>

lemma live_bookings_cong: "bookings d' = bookings d \<Longrightarrow> live_bookings d' = live_bookings d"
  by (rule ext) (simp add: live_bookings_def)

lemma ledger_of_cong: "bookings d' = bookings d \<Longrightarrow> ledger_of d' = ledger_of d"
  using live_bookings_cong [of d' d] by (auto simp: fun_eq_iff ledger_of_def)

lemma consistent_burn: "consistent d \<Longrightarrow> consistent (d\<lparr>bookings_seq := bookings_seq d + 1\<rparr>)"
  by (auto simp: consistent_def references_ok_def distinct_seats_def seat_matches_def
      live_bookings_cong [of "d\<lparr>bookings_seq := bookings_seq d + 1\<rparr>" d])

lemma consistent_new_user: "consistent d \<Longrightarrow> consistent (d\<lparr>users := users d @ [u]\<rparr>)"
  by (auto simp: consistent_def references_ok_def distinct_seats_def seat_matches_def
      live_bookings_cong [of "d\<lparr>users := users d @ [u]\<rparr>" d])

lemma consistent_new_seat: "consistent d \<Longrightarrow> fresh_seat d x \<Longrightarrow> consistent (d\<lparr>seats := seats d @ [x]\<rparr>)"
  by (rule consistent_new_seats) simp_all

lemma ledger_of_env [simp]:
  "ledger_of (d\<lparr>bookings_seq := n\<rparr>) = ledger_of d" "ledger_of (d\<lparr>users := us\<rparr>) = ledger_of d"
  "ledger_of (d\<lparr>seats := ss\<rparr>) = ledger_of d"
  by (rule ledger_of_cong; simp)+

lemma sys_inv_init: "sys_init s \<Longrightarrow> sys_inv s"
  by (auto simp: sys_init_def sys_inv_def reply_ok_def fun_eq_iff ledger_of_def live_bookings_def)

lemma sys_inv_advance:
  assumes "sys_inv s" and "advance hold_ms t (sys_procs s i) (sys_db s) = (p, d, evs)"
    and "reply_ok p \<Longrightarrow> reply_ok q"
  shows "sys_inv \<lparr>sys_db = d, sys_procs = (sys_procs s)(i := q), sys_log = sys_log s @ evs\<rparr>"
proof -
  from assms(1) have inv: "consistent (sys_db s)" "reply_ok (sys_procs s j)"
    "ledger_run (\<lambda>_. Free) (sys_log s) = Some (ledger_of (sys_db s))" for j
    by (simp_all add: sys_inv_def)
  from advance_sound [OF assms(2) inv(1)] advance_reply_ok [OF assms(2) inv(1,2)] assms(3)
  show ?thesis by (simp add: sys_inv_def inv ledger_run_append)
qed

lemma sys_inv_step:
  assumes "sys_inv s" and "sys_step hold_ms s t"
  shows "sys_inv t"
  using assms(2,1)
proof cases
  case (arrive i p)
  with assms(1) show ?thesis by (cases p) (auto simp: sys_inv_def)
next
  case (act i t p d evs)
  with assms(1) show ?thesis by (auto intro: sys_inv_advance)
next
  case (lost_reply i t p d evs)
  with assms(1) show ?thesis by (auto intro: sys_inv_advance)
qed (use assms(1) in \<open>auto simp: sys_inv_def consistent_burn consistent_new_user
      consistent_new_seat\<close>)

interpretation booking_system: invariant_system sys_init "sys_step hold_ms" sys_inv for hold_ms
  by unfold_locales (auto intro: sys_inv_init sys_inv_step)

end
