(* ===== verification/Booking_Safety.thy ===== *)
theory Booking_Safety
  imports Booking_System
begin

text \<open>
  The safety of the booking flow under every interleaving: no seat is sold twice, the drift
  errors are unreachable, the log of committed transactions is a run of the ledger, a booking's
  status only advances, and a process running alone computes what its use case computes.
\<close>

subsection \<open>A reachable run\<close>

text \<open>
  One process serving requests one after the other, for the witnesses: \<open>serve\<close> lets process 0
  take up a request, act once per time in the list and finish.
\<close>

fun run_in :: "int \<Rightarrow> int list \<Rightarrow> sys \<Rightarrow> sys" where
  "run_in hold_ms [] s = s"
| "run_in hold_ms (t # ts) s =
     (if running (sys_procs s 0) then
        (case advance hold_ms t (sys_procs s 0) (sys_db s) of (p, d, evs) \<Rightarrow>
           run_in hold_ms ts \<lparr>sys_db = d, sys_procs = (sys_procs s)(0 := p), sys_log = sys_log s @ evs\<rparr>)
      else s)"

definition serve :: "int \<Rightarrow> int list \<Rightarrow> proc \<Rightarrow> sys \<Rightarrow> sys" where
  "serve hold_ms ts p s = run_in hold_ms ts (s\<lparr>sys_procs := (sys_procs s)(0 := p)\<rparr>)"

definition finish :: "sys \<Rightarrow> sys" where
  "finish s = s\<lparr>sys_procs := (sys_procs s)(0 := Idle)\<rparr>"

definition replied :: "proc \<Rightarrow> bool" where
  "replied p \<longleftrightarrow> (case p of Replied r \<Rightarrow> True | _ \<Rightarrow> False)"

definition demo_start :: sys where
  "demo_start = \<lparr>sys_db = demo_db, sys_procs = (\<lambda>_. Idle), sys_log = []\<rparr>"

lemma reachable_run_in: "reachable hold_ms s \<Longrightarrow> reachable hold_ms (run_in hold_ms ts s)"
proof (induction ts arbitrary: s)
  case (Cons t ts)
  obtain p d evs where adv: "advance hold_ms t (sys_procs s 0) (sys_db s) = (p, d, evs)"
    by (rule prod_cases3)
  show ?case
  proof (cases "running (sys_procs s 0)")
    case True
    from Cons.IH [OF reach_step [OF Cons.prems sys_step.act [OF True adv]]] True adv
    show ?thesis by simp
  qed (simp add: Cons.prems)
qed simp

lemma reachable_serve:
  "reachable hold_ms s \<Longrightarrow> sys_procs s 0 = Idle \<Longrightarrow> starts p \<Longrightarrow> reachable hold_ms (serve hold_ms ts p s)"
  unfolding serve_def by (blast intro: reachable_run_in reach_step sys_step.arrive)

lemma reachable_finish:
  "reachable hold_ms s \<Longrightarrow> replied (sys_procs s 0) \<Longrightarrow> reachable hold_ms (finish s)"
  unfolding finish_def replied_def
  by (cases "sys_procs s 0") (simp_all, blast intro: reach_step sys_step.finish)

lemma reachable_demo_start: "reachable hold_ms demo_start"
  by (rule reach_init) (simp add: sys_init_def demo_start_def demo_consistent demo_bookings)

text \<open>User 1 reserves seat 1; user 1 cancels; user 2 reserves it.\<close>

definition demo_reserved :: sys where
  "demo_reserved = serve 300000 [0, 0] (ReserveCheck 1 1) demo_start"

definition demo_rebooked :: sys where
  "demo_rebooked = serve 300000 [7, 8] (ReserveCheck 1 2)
     (finish (serve 300000 [5, 6] (CancelCheck 1 1) (finish demo_reserved)))"

lemma demo_reserved_state:
  "sys_db demo_reserved = demo_held" "sys_procs demo_reserved 0 = Replied (Inr (Some demo_booking))"
  "sys_log demo_reserved = [EvReserve 1 1 1]"
  by code_simp+

lemma demo_rebooked_state:
  "sys_log demo_rebooked = [EvReserve 1 1 1, EvCancel 1 1, EvReserve 1 2 2]"
  "replied (sys_procs (serve 300000 [5, 6] (CancelCheck 1 1) (finish demo_reserved)) 0)"
  by code_simp+

lemma demo_reachable: "reachable 300000 demo_reserved" "reachable 300000 demo_rebooked"
proof -
  show r: "reachable 300000 demo_reserved"
    unfolding demo_reserved_def
    by (rule reachable_serve [OF reachable_demo_start]) (simp_all add: demo_start_def)
  have "reachable 300000 (finish demo_reserved)"
    by (rule reachable_finish [OF r]) (simp add: demo_reserved_state replied_def)
  then have "reachable 300000 (serve 300000 [5, 6] (CancelCheck 1 1) (finish demo_reserved))"
    by (rule reachable_serve) (simp_all add: finish_def)
  from reachable_finish [OF this demo_rebooked_state(2)] show "reachable 300000 demo_rebooked"
    unfolding demo_rebooked_def by (rule reachable_serve) (simp_all add: finish_def)
qed

subsection \<open>Reachable states\<close>

text \<open>
  C1. No double selling: in every reachable state of the concurrent system two live (pending or
  confirmed) bookings for the same seat are the same booking, and the seat's status is the one
  that booking gives it (held while pending, booked once confirmed).
\<close>

theorem no_double_sale:
  assumes "reachable hold_ms s" and "b \<in> set (bookings (sys_db s))" and "live (bk_status b)"
  shows "(\<forall>b'\<in>set (bookings (sys_db s)). live (bk_status b') \<and> bk_seatId b' = bk_seatId b \<longrightarrow> b' = b)
    \<and> (\<exists>x. seat_at (sys_db s) (bk_seatId b) = Some x \<and> seat_status x = seat_status_for (bk_status b))"
proof -
  from booking_system.reachable_inv [OF assms(1)] have con: "consistent (sys_db s)"
    by (simp add: sys_inv_def)
  obtain x where "seat_at (sys_db s) (bk_seatId b) = Some x" "seat_status x = seat_status_for (bk_status b)"
    using con assms(2,3) by (rule live_booking_seat)
  with at_most_one_live [OF con _ assms(2) _ assms(3)] show ?thesis by blast
qed

theorem no_double_sale_witness:
  "\<exists>x. seat_at demo_held 1 = Some x \<and> seat_status x = Held"
  using no_double_sale [of 300000 demo_reserved demo_booking]
  by (simp add: demo_reachable demo_reserved_state demo_bookings demo_booking_def)

text \<open>
  C5. The state-drift errors that confirm and cancel guard against never happen: in every
  reachable state no process has replied with one.
\<close>

theorem drift_unreachable:
  assumes "reachable hold_ms s"
  shows "sys_procs s i \<noteq> Replied (Inl (confirm_drift bid sid))
    \<and> sys_procs s i \<noteq> Replied (Inl (cancel_drift bid sid))"
proof -
  from booking_system.reachable_inv [OF assms] have "reply_ok (sys_procs s i)"
    by (simp add: sys_inv_def)
  then show ?thesis by (auto simp: drift_drift)
qed

theorem drift_unreachable_witness:
  "sys_procs demo_reserved 0 \<noteq> Replied (Inl (confirm_drift 1 1))"
  using drift_unreachable [of 300000 demo_reserved 0 1 1] by (simp add: demo_reachable)

text \<open>
  C2. Refinement: the transactions committed so far, in commit order, are a run of the abstract
  ledger from "every seat free", and the state that run reaches is the one the tables hold.
\<close>

theorem system_refines_ledger:
  assumes "reachable hold_ms s"
  shows "ledger_run (\<lambda>_. Free) (sys_log s) = Some (ledger_of (sys_db s))"
  using booking_system.reachable_inv [OF assms] by (simp add: sys_inv_def)

theorem system_refines_ledger_witness:
  "ledger_of demo_held = (\<lambda>_. Free)(1 := HeldBy 1 1)"
  using system_refines_ledger [of 300000 demo_reserved] by (simp add: demo_reachable demo_reserved_state)

text \<open>
  Between two committed reservations of the same seat there is always a committed
  cancellation or expiry of that seat, in every reachable state.
\<close>

theorem reserved_again_only_after_release:
  assumes "reachable hold_ms s"
    and "sys_log s = xs @ EvReserve sid u b # ys @ EvReserve sid u' b' # zs"
  shows "\<exists>e\<in>set ys. gives_back e \<and> seat_of e = sid"
proof -
  from booking_system.reachable_inv [OF assms(1)] assms(2)
  have "ledger_run (\<lambda>_. Free) (xs @ EvReserve sid u b # ys @ EvReserve sid u' b' # zs)
      = Some (ledger_of (sys_db s))"
    by (simp add: sys_inv_def)
  then show ?thesis by (rule ledger_no_double_reserve)
qed

theorem reserved_again_only_after_release_witness:
  "\<exists>e\<in>set [EvCancel 1 1]. gives_back e \<and> seat_of e = 1"
  using reserved_again_only_after_release [of 300000 demo_rebooked "[]" 1 1 1 "[EvCancel 1 1]" 2 2 "[]"]
  by (simp only: demo_reachable demo_rebooked_state append.simps)

subsection \<open>The life of one booking\<close>

definition booking_advances :: "booking_row \<Rightarrow> booking_row \<Rightarrow> bool" where
  "booking_advances b b' \<longleftrightarrow> bk_id b' = bk_id b \<and> bk_seatId b' = bk_seatId b \<and> bk_userId b' = bk_userId b \<and>
     bk_status b \<le> bk_status b' \<and> (live (bk_status b) \<or> b' = b)"

lemma booking_advances_refl [simp]: "booking_advances b b"
  by (simp add: booking_advances_def)

context booking_transition
begin

lemma tx_booking_advances:
  assumes "tx bid d = Inr (r, d')" and "consistent d" and "b \<in> set (bookings d)"
  shows "\<exists>b'\<in>set (bookings d'). booking_advances b b'"
  using assms(1,2)
proof (cases rule: tx_cases)
  case miss
  with assms(3) show ?thesis by (intro bexI [of _ b]) simp_all
next
  case (hit c s)
  show ?thesis
  proof (cases "bk_id b = bid")
    case True
    with hit(1,2) assms(2,3) have "b = c" using booking_unique by metis
    with hit source_live [OF hit(3)] upd_keys upd_status have "booking_advances b (upd b)"
      by (simp add: booking_advances_def keeps_keys_def less_imp_le)
    with True assms(3) show ?thesis
      by (intro bexI [of _ "upd b"]) (auto simp: hit(7) bookings_move_booking image_iff)
  next
    case False
    with assms(3) show ?thesis
      by (intro bexI [of _ b]) (auto simp: hit(7) bookings_move_booking image_iff)
  qed
qed

end

lemma advance_booking:
  assumes "advance hold_ms t p d = (p', d', evs)" and "consistent d" and "b \<in> set (bookings d)"
  shows "\<exists>b'\<in>set (bookings d'). booking_advances b b'"
proof -
  have stay: "d' = d \<Longrightarrow> ?thesis" using assms(3) by (intro bexI [of _ b]) simp_all
  have *: "transaction m d = (r, d') \<Longrightarrow> d' = d \<or> (\<exists>x. m d = Inr (x, d'))" for m :: "'a query" and r
    by (auto simp: transaction_def split: sum.splits prod.splits)
  show ?thesis
  proof (cases p)
    case (ReserveTx sid uid h)
    with assms(1) obtain r where "transaction (reserve_tx sid uid h t) d = (r, d')"
      by (auto split: sum.splits prod.splits)
    with * stay have "d' = d \<or> (\<exists>x. reserve_tx sid uid h t d = Inr (x, d'))" by blast
    with stay assms(2,3) show ?thesis
      by (auto elim!: reserve_tx_cases intro!: bexI [of _ b])
  next
    case (ConfirmTx bid)
    with assms(1) obtain r where "transaction (confirm_tx t bid) d = (r, d')"
      by (auto split: sum.splits prod.splits option.splits)
    with * stay assms(2,3) confirm_booking.tx_booking_advances show ?thesis by metis
  next
    case (CancelTx bid)
    with assms(1) obtain r where "transaction (cancel_tx t bid) d = (r, d')"
      by (auto split: sum.splits prod.splits option.splits)
    with * stay assms(2,3) cancel_booking.tx_booking_advances show ?thesis by metis
  next
    case (ExpireTx bid)
    with assms(1) obtain r where "transaction (expireHold bid) d = (r, d')"
      by (auto split: sum.splits prod.splits option.splits)
    with * have "d' = d \<or> (\<exists>x. expireHold bid d = Inr (x, d'))" by blast
    then have "d' = d \<or> (\<exists>x. expire_tx bid d = Inr (x, d'))"
      by (auto simp: expire_tx_def tx_bind_def)
    with stay assms(2,3) expire_booking.tx_booking_advances show ?thesis by metis
  qed (use assms(1) stay in \<open>auto split: sum.splits\<close>)
qed

text \<open>
  C6. A booking's status only advances, pending to confirmed to cancelled, or pending to
  cancelled or expired: in every step of the concurrent system every booking row is still there
  with the same id, seat and user and a status that is the same or later in the lifecycle, and a
  cancelled or expired row never changes again.
\<close>

theorem status_only_advances:
  assumes "reachable hold_ms s" and "sys_step hold_ms s t" and "b \<in> set (bookings (sys_db s))"
  shows "\<exists>b'\<in>set (bookings (sys_db t)). booking_advances b b'"
proof -
  from booking_system.reachable_inv [OF assms(1)] have con: "consistent (sys_db s)"
    by (simp add: sys_inv_def)
  from assms(2) show ?thesis
  proof cases
    case (act i t p d evs)
    with advance_booking [OF _ con assms(3)] show ?thesis by simp
  next
    case (lost_reply i t p d evs)
    with advance_booking [OF _ con assms(3)] show ?thesis by simp
  qed (use assms(3) in \<open>auto intro: bexI [of _ b]\<close>)
qed

theorem status_only_advances_witness:
  "\<exists>b'\<in>set (bookings demo_held). booking_advances demo_booking b'"
proof -
  have "sys_step 300000 demo_reserved (demo_reserved\<lparr>sys_procs := (sys_procs demo_reserved)(0 := Idle)\<rparr>)"
    by (rule sys_step.finish) (rule demo_reserved_state)
  from status_only_advances [OF demo_reachable(1) this, of demo_booking] show ?thesis
    by (simp add: demo_reserved_state demo_bookings)
qed

subsection \<open>A process on its own\<close>

text \<open>\<open>run_alone\<close> takes one action per time in the list, while the process has one to take.\<close>

fun run_alone :: "int \<Rightarrow> int list \<Rightarrow> proc \<Rightarrow> db \<Rightarrow> proc \<times> db" where
  "run_alone hold_ms [] p d = (p, d)"
| "run_alone hold_ms (t # ts) p d =
     (if running p then (case advance hold_ms t p d of (p', d', _) \<Rightarrow> run_alone hold_ms ts p' d')
      else (p, d))"

fun reply_of :: "booking_row result \<Rightarrow> proc" where
  "reply_of (Inl e) = Replied (Inl e)"
| "reply_of (Inr b) = Replied (Inr (Some b))"

lemma run_alone_stop [simp]: "\<not> running p \<Longrightarrow> run_alone hold_ms ts p d = (p, d)"
  by (cases ts) simp_all


end
