(* ===== verification/Transaction_Locks.thy ===== *)
theory Transaction_Locks
  imports Booking_Contract
begin

text \<open>
  The four transactions of the booking module, one statement at a time. Any number of them run
  at once at the isolation level \<open>db.transaction\<close> gets by default (READ COMMITTED): a statement
  reads the committed rows, an UPDATE that matches a row which an unfinished transaction has
  written waits for it, the rows a transaction wrote become visible together at its commit and
  vanish at its rollback, and a value drawn from a sequence is never given back. The other
  theories run a transaction as one step; the invariant here (every row a transaction has
  written is what its statement makes of the committed row, which nobody else can change, and
  the committed tables stay consistent) is what justifies it, in \<open>Serializability\<close> and \<open>Interleaving\<close>.
\<close>

subsection \<open>The statements\<close>

datatype move = Confirm | Cancel | Expire

datatype call =
    ReserveCall int int int          \<comment> \<open>seat, user, expiry of the hold\<close>
  | MoveCall move int                \<comment> \<open>booking\<close>

fun move_update :: "move \<Rightarrow> int \<Rightarrow> booking_row \<Rightarrow> booking_row" where
  "move_update Confirm now = set_status_at Confirmed now"
| "move_update Cancel now = set_status_at Cancelled now"
| "move_update Expire now = set_status Expired"

fun move_source :: "move \<Rightarrow> booking_status set" where
  "move_source Confirm = {Pending}"
| "move_source Cancel = {Pending, Confirmed}"
| "move_source Expire = {Pending}"

fun move_target :: "move \<Rightarrow> booking_status" where
  "move_target Confirm = Confirmed"
| "move_target Cancel = Cancelled"
| "move_target Expire = Expired"

text \<open>The first statement of a move: the conditional UPDATE of the booking.\<close>

definition booking_statement :: "move \<Rightarrow> int \<Rightarrow> int \<Rightarrow> booking_row option query" where
  "booking_statement k now bid d =
     (if \<not> int4_ok bid then Inl out_of_range
      else tx_bind (update_bookings (move_update k now)
               (\<lambda>b. bk_id b = bid \<and> bk_status b \<in> move_source k))
             (\<lambda>rows. tx_return (first_row rows)) d)"

text \<open>The second one: the seat transition of the repository.\<close>

fun seat_statement :: "move \<Rightarrow> int \<Rightarrow> seat_row option query" where
  "seat_statement Confirm = confirmSeatRow"
| "seat_statement Cancel = releaseHeldOrBookedSeatRow"
| "seat_statement Expire = releaseSeatRow"

text \<open>What the code makes of the row the seat statement returned.\<close>

fun seat_outcome :: "move \<Rightarrow> int \<Rightarrow> booking_row \<Rightarrow> seat_row option \<Rightarrow> booking_row option result" where
  "seat_outcome Confirm bid b None = Inl (confirm_drift bid (bk_seatId b))"
| "seat_outcome Cancel bid b None = Inl (cancel_drift bid (bk_seatId b))"
| "seat_outcome k bid b seat = Inr (Some b)"

subsection \<open>The transactions as they run alone\<close>

fun atomic_tx :: "call \<Rightarrow> int \<Rightarrow> booking_row option query" where
  "atomic_tx (ReserveCall sid uid h) now =
     tx_bind (reserve_tx sid uid h now) (\<lambda>b. tx_return (Some b))"
| "atomic_tx (MoveCall Confirm bid) now = confirm_tx now bid"
| "atomic_tx (MoveCall Cancel bid) now = cancel_tx now bid"
| "atomic_tx (MoveCall Expire bid) now =
     tx_bind (expireHold bid) (\<lambda>r. tx_return (map_option er_booking r))"

text \<open>The transactions of the use cases are these statements in this order.\<close>

lemma atomic_move_statements:
  "atomic_tx (MoveCall k bid) now d =
     tx_bind (booking_statement k now bid) (\<lambda>found. case found of
        None \<Rightarrow> tx_return None
      | Some b \<Rightarrow> tx_bind (seat_statement k (bk_seatId b)) (\<lambda>seat d.
          case seat_outcome k bid b seat of Inl e \<Rightarrow> Inl e | Inr r \<Rightarrow> Inr (r, d))) d"
  by (cases k)
    (auto simp: confirm_tx_def cancel_tx_def expireHold_def booking_statement_def tx_bind_def
      split: sum.splits prod.splits option.splits)

lemma atomic_move_transition:
  "booking_transition (\<lambda>bid. atomic_tx (MoveCall k bid) now)
     (move_update k now) (move_source k) (move_target k)"
proof (cases k)
  case Confirm
  then show ?thesis using confirm_booking.booking_transition_axioms [of now] by simp
next
  case Cancel
  then show ?thesis using cancel_booking.booking_transition_axioms [of now] by simp
next
  case Expire
  then show ?thesis
    using expire_booking.booking_transition_axioms by (simp add: expire_tx_def [abs_def])
qed

text \<open>The seat statuses the second statement of a move matches.\<close>

fun seat_source :: "move \<Rightarrow> seat_status set" where
  "seat_source Confirm = {Held}"
| "seat_source Cancel = {Held, Booked}"
| "seat_source Expire = {Held}"

lemma seat_statement_transition:
  "seat_transition (seat_statement k) (seat_source k) (seat_status_for (move_target k))"
  using confirm.seat_transition_axioms release.seat_transition_axioms
    release_any.seat_transition_axioms by (cases k) simp_all

lemma move_facts [simp]:
  "keeps_keys (move_update k now)" "bk_status (move_update k now b) = move_target k"
  "bk_id (move_update k now b) = bk_id b" "bk_seatId (move_update k now b) = bk_seatId b"
  by (cases k; simp)+

lemma move_source_live: "st \<in> move_source k \<Longrightarrow> live st \<and> seat_status_for st \<in> seat_source k"
  by (cases k) auto

subsection \<open>Transactions in progress\<close>

text \<open>
  What a transaction has written and not yet committed: a row of seats, a row of bookings
  (updated by a move, inserted by a reservation). A written row is locked until the
  transaction ends.
\<close>

record txn =
  tx_call :: call
  tx_now :: int
  tx_seat :: "seat_row option"
  tx_booking :: "booking_row option"

record lock_state =
  lk_db :: db
  lk_txs :: "nat \<Rightarrow> txn option"

definition new_txn :: "call \<Rightarrow> int \<Rightarrow> txn" where
  "new_txn c now = \<lparr>tx_call = c, tx_now = now, tx_seat = None, tx_booking = None\<rparr>"

definition seat_free :: "lock_state \<Rightarrow> int \<Rightarrow> bool" where
  "seat_free s sid \<longleftrightarrow> (\<forall>t x r. lk_txs s t = Some x \<and> tx_seat x = Some r \<longrightarrow> seat_id r \<noteq> sid)"

definition booking_free :: "lock_state \<Rightarrow> int \<Rightarrow> bool" where
  "booking_free s bid \<longleftrightarrow> (\<forall>t x b. lk_txs s t = Some x \<and> tx_booking x = Some b \<longrightarrow> bk_id b \<noteq> bid)"

text \<open>The commit: the written rows replace the committed ones, an inserted row joins them.\<close>

definition write_seat :: "seat_row \<Rightarrow> db \<Rightarrow> db" where
  "write_seat r d = d\<lparr>seats := map (\<lambda>s. if seat_id s = seat_id r then r else s) (seats d)\<rparr>"

definition write_booking :: "call \<Rightarrow> booking_row \<Rightarrow> db \<Rightarrow> db" where
  "write_booking c b d = (case c of
     ReserveCall _ _ _ \<Rightarrow> d\<lparr>bookings := bookings d @ [b]\<rparr>
   | MoveCall _ _ \<Rightarrow>
       d\<lparr>bookings := map (\<lambda>x. if bk_id x = bk_id b then b else x) (bookings d)\<rparr>)"

definition at_seq :: "int \<Rightarrow> db \<Rightarrow> db" where
  "at_seq n d = d\<lparr>bookings_seq := n\<rparr>"

definition put_txn :: "nat \<Rightarrow> txn \<Rightarrow> lock_state \<Rightarrow> lock_state" where
  "put_txn t x s = s\<lparr>lk_txs := (lk_txs s)(t \<mapsto> x)\<rparr>"

definition end_txn :: "nat \<Rightarrow> db \<Rightarrow> lock_state \<Rightarrow> lock_state" where
  "end_txn t d s = \<lparr>lk_db = d, lk_txs = (lk_txs s)(t := None)\<rparr>"

text \<open>
  What a step shows: a transaction ended with a reply of the database, or was lost (its
  connection, or the process), or neither.
\<close>

datatype observation = Quiet | Ended nat "booking_row option result" | Lost nat

inductive lock_step :: "lock_state \<Rightarrow> observation \<Rightarrow> lock_state \<Rightarrow> bool" where
  begin_tx: "lk_txs s t = None \<Longrightarrow> lock_step s Quiet (put_txn t (new_txn c now) s)"
| take_seat: "lk_txs s t = Some x \<Longrightarrow> tx_call x = ReserveCall sid uid h \<Longrightarrow> tx_seat x = None \<Longrightarrow>
     seat_free s sid \<Longrightarrow> reserveSeatRow sid (lk_db s) = Inr (Some r, d) \<Longrightarrow>
     lock_step s Quiet (put_txn t (x\<lparr>tx_seat := Some r\<rparr>) s)"
| seat_taken: "lk_txs s t = Some x \<Longrightarrow> tx_call x = ReserveCall sid uid h \<Longrightarrow> tx_seat x = None \<Longrightarrow>
     reserveSeatRow sid (lk_db s) = Inr (None, d) \<Longrightarrow>
     lock_step s (Ended t (Inl (SeatUnavailableError sid))) (end_txn t (lk_db s) s)"
| take_seat_fails: "lk_txs s t = Some x \<Longrightarrow> tx_call x = ReserveCall sid uid h \<Longrightarrow>
     tx_seat x = None \<Longrightarrow> reserveSeatRow sid (lk_db s) = Inl e \<Longrightarrow>
     lock_step s (Ended t (Inl e)) (end_txn t (lk_db s) s)"
| insert_row: "lk_txs s t = Some x \<Longrightarrow> tx_call x = ReserveCall sid uid h \<Longrightarrow> tx_seat x = Some r \<Longrightarrow>
     tx_booking x = None \<Longrightarrow>
     insert_booking sid uid Pending (Some h) (tx_now x) (lk_db s) = Inr (b, d) \<Longrightarrow>
     lock_step s Quiet (put_txn t (x\<lparr>tx_booking := Some b\<rparr>)
       (s\<lparr>lk_db := at_seq (bookings_seq d) (lk_db s)\<rparr>))"
| insert_fails: "lk_txs s t = Some x \<Longrightarrow> tx_call x = ReserveCall sid uid h \<Longrightarrow> tx_seat x = Some r \<Longrightarrow>
     tx_booking x = None \<Longrightarrow>
     insert_booking sid uid Pending (Some h) (tx_now x) (lk_db s) = Inl e \<Longrightarrow>
     lock_step s (Ended t (Inl e)) (end_txn t (lk_db s) s)"
| take_booking: "lk_txs s t = Some x \<Longrightarrow> tx_call x = MoveCall k bid \<Longrightarrow> tx_booking x = None \<Longrightarrow>
     booking_free s bid \<Longrightarrow> booking_statement k (tx_now x) bid (lk_db s) = Inr (Some b, d) \<Longrightarrow>
     lock_step s Quiet (put_txn t (x\<lparr>tx_booking := Some b\<rparr>) s)"
| nothing_to_move: "lk_txs s t = Some x \<Longrightarrow> tx_call x = MoveCall k bid \<Longrightarrow> tx_booking x = None \<Longrightarrow>
     booking_statement k (tx_now x) bid (lk_db s) = Inr (None, d) \<Longrightarrow>
     lock_step s (Ended t (Inr None)) (end_txn t (lk_db s) s)"
| take_booking_fails: "lk_txs s t = Some x \<Longrightarrow> tx_call x = MoveCall k bid \<Longrightarrow>
     tx_booking x = None \<Longrightarrow> booking_statement k (tx_now x) bid (lk_db s) = Inl e \<Longrightarrow>
     lock_step s (Ended t (Inl e)) (end_txn t (lk_db s) s)"
| move_the_seat: "lk_txs s t = Some x \<Longrightarrow> tx_call x = MoveCall k bid \<Longrightarrow> tx_booking x = Some b \<Longrightarrow>
     tx_seat x = None \<Longrightarrow> seat_free s (bk_seatId b) \<Longrightarrow>
     seat_statement k (bk_seatId b) (lk_db s) = Inr (Some r, d) \<Longrightarrow>
     lock_step s Quiet (put_txn t (x\<lparr>tx_seat := Some r\<rparr>) s)"
| seat_not_there: "lk_txs s t = Some x \<Longrightarrow> tx_call x = MoveCall k bid \<Longrightarrow> tx_booking x = Some b \<Longrightarrow>
     tx_seat x = None \<Longrightarrow> seat_statement k (bk_seatId b) (lk_db s) = Inr (None, d) \<Longrightarrow>
     seat_outcome k bid b None = r \<Longrightarrow>
     lock_step s (Ended t r)
       (end_txn t (case r of Inl e \<Rightarrow> lk_db s | Inr _ \<Rightarrow> write_booking (tx_call x) b (lk_db s)) s)"
| move_the_seat_fails: "lk_txs s t = Some x \<Longrightarrow> tx_call x = MoveCall k bid \<Longrightarrow>
     tx_booking x = Some b \<Longrightarrow> tx_seat x = None \<Longrightarrow>
     seat_statement k (bk_seatId b) (lk_db s) = Inl e \<Longrightarrow>
     lock_step s (Ended t (Inl e)) (end_txn t (lk_db s) s)"
| commit_tx: "lk_txs s t = Some x \<Longrightarrow> tx_booking x = Some b \<Longrightarrow> tx_seat x = Some r \<Longrightarrow>
     lock_step s (Ended t (Inr (Some b)))
       (end_txn t (write_booking (tx_call x) b (write_seat r (lk_db s))) s)"
| lose_tx: "lk_txs s t = Some x \<Longrightarrow> lock_step s (Lost t) (end_txn t (lk_db s) s)"
| burn_value: "bookings_seq (lk_db s) \<le> n \<Longrightarrow>
     lock_step s Quiet (s\<lparr>lk_db := at_seq n (lk_db s)\<rparr>)"

definition lock_init :: "lock_state \<Rightarrow> bool" where
  "lock_init s \<longleftrightarrow> consistent (lk_db s) \<and> lk_txs s = (\<lambda>_. None)"

abbreviation lock_reachable :: "lock_state \<Rightarrow> bool" where
  "lock_reachable \<equiv> reachable_from lock_init (\<lambda>s s'. \<exists>l. lock_step s l s')"

subsection \<open>What each statement does to its row\<close>

definition booking_at :: "db \<Rightarrow> int \<Rightarrow> booking_row option" where
  "booking_at d bid = first_row (filter (\<lambda>b. bk_id b = bid) (bookings d))"

lemma booking_at_None: "booking_at d bid = None \<longleftrightarrow> bid \<notin> bk_id ` set (bookings d)"
  by (auto simp: booking_at_def filter_empty_conv)

lemma booking_at_SomeD: "booking_at d bid = Some b \<Longrightarrow> b \<in> set (bookings d) \<and> bk_id b = bid"
  by (auto simp: booking_at_def dest!: first_row_SomeD)

lemma booking_at_Some_iff:
  "consistent d \<Longrightarrow> booking_at d bid = Some b \<longleftrightarrow> b \<in> set (bookings d) \<and> bk_id b = bid"
  using filter_key_unique [of bk_id "bookings d" b] consistentD(2)
  by (auto simp: booking_at_def dest: booking_at_SomeD [unfolded booking_at_def])

lemma booking_at_move_booking:
  assumes "bid' \<noteq> bid" and "keeps_keys f"
  shows "booking_at (move_booking f bid d) bid' = booking_at d bid'"
proof -
  have "filter (\<lambda>b. bk_id b = bid') (bookings (move_booking f bid d))
      = map (\<lambda>b. if bk_id b = bid then f b else b) (filter (\<lambda>b. bk_id b = bid') (bookings d))"
    using assms by (auto simp: bookings_move_booking filter_map comp_def keeps_keys_def
        intro!: arg_cong [where f = "map (\<lambda>b. if bk_id b = bid then f b else b)"] filter_cong)
  also have "\<dots> = filter (\<lambda>b. bk_id b = bid') (bookings d)"
    using assms(1) by (intro map_idI) auto
  finally show ?thesis by (simp add: booking_at_def)
qed

lemma at_seq_simps [simp]:
  "seats (at_seq n d) = seats d" "bookings (at_seq n d) = bookings d" "users (at_seq n d) = users d"
  "bookings_seq (at_seq n d) = n" "seat_at (at_seq n d) = seat_at d"
  "booking_at (at_seq n d) = booking_at d" "distinct_seats (at_seq n d) = distinct_seats d"
  "at_seq (bookings_seq d) d = d" "at_seq m (at_seq n d) = at_seq m d"
  by (auto simp: at_seq_def seat_at_def booking_at_def distinct_seats_def fun_eq_iff)

lemma consistent_at_seq: "consistent d \<Longrightarrow> bookings_seq d \<le> n \<Longrightarrow> consistent (at_seq n d)"
  by (fastforce simp: consistent_def references_ok_def seat_matches_def live_bookings_def at_seq_def
      distinct_seats_def)

text \<open>A seat row as a transition from \<open>src\<close> to \<open>tgt\<close> writes it.\<close>

definition seat_written ::
  "db \<Rightarrow> seat_status set \<Rightarrow> seat_status \<Rightarrow> int \<Rightarrow> seat_row \<Rightarrow> bool" where
  "seat_written d src tgt sid r \<longleftrightarrow> int4_ok sid \<and>
     (\<exists>s. seat_at d sid = Some s \<and> seat_status s \<in> src \<and> int4_ok (seat_version s + 1) \<and>
       r = bump_seat tgt s)"

lemma seat_written_id: "seat_written d src tgt sid r \<Longrightarrow> seat_id r = sid"
  by (auto simp: seat_written_def dest: seat_at_SomeD)

context seat_transition
begin

lemma tr_written:
  assumes "distinct_seats d"
  shows "tr sid d = Inr (Some r, d') \<longleftrightarrow> seat_written d source target sid r \<and> d' = move_seat target sid d"
proof
  assume tr: "tr sid d = Inr (Some r, d')"
  then have "int4_ok sid" using tr_range by (metis Inl_Inr_False)
  with tr assms show "seat_written d source target sid r \<and> d' = move_seat target sid d"
    by (auto elim!: tr_cases simp: seat_written_def seat_at_Some_iff)
next
  assume "seat_written d source target sid r \<and> d' = move_seat target sid d"
  then show "tr sid d = Inr (Some r, d')"
    using assms by (auto simp: seat_written_def seat_at_Some_iff tr_hit)
qed

end

lemma write_seat_move:
  assumes "distinct_seats d" and "seat_written d src tgt sid r"
  shows "write_seat r d = move_seat tgt sid d"
proof -
  obtain s where s: "seat_at d sid = Some s" "r = bump_seat tgt s"
    using assms(2) unfolding seat_written_def by blast
  note rid = seat_written_id [OF assms(2)]
  have "x = s" if "x \<in> set (seats d)" "seat_id x = sid" for x
    using that s(1) seat_at_Some_iff [OF assms(1), of sid x] by simp
  then have "map (\<lambda>x. if seat_id x = seat_id r then r else x) (seats d)
      = map (\<lambda>x. if seat_id x = sid then bump_seat tgt x else x) (seats d)"
    by (intro map_cong refl) (simp add: rid, simp add: s(2))
  then show ?thesis by (simp add: write_seat_def move_seat_def update_rows_def)
qed

definition booking_written :: "db \<Rightarrow> move \<Rightarrow> int \<Rightarrow> int \<Rightarrow> booking_row \<Rightarrow> bool" where
  "booking_written d k now bid b \<longleftrightarrow> int4_ok bid \<and>
     (\<exists>b0. booking_at d bid = Some b0 \<and> bk_status b0 \<in> move_source k \<and> b = move_update k now b0)"

lemma booking_written_id: "booking_written d k now bid b \<Longrightarrow> bk_id b = bid"
  by (auto simp: booking_written_def dest: booking_at_SomeD)

lemma booking_statement_written:
  assumes "consistent d"
  shows "booking_statement k now bid d = Inr (Some b, d') \<longleftrightarrow>
    booking_written d k now bid b \<and> d' = move_booking (move_update k now) bid d"
proof (cases "\<exists>b0\<in>set (bookings d). bk_id b0 = bid \<and> bk_status b0 \<in> move_source k")
  case True
  then obtain b0 where b0: "b0 \<in> set (bookings d)" "bk_id b0 = bid" "bk_status b0 \<in> move_source k"
    by blast
  then have "booking_at d bid = Some b0" using assms by (simp add: booking_at_Some_iff)
  with b0 show ?thesis
    using update_bookings_hit [OF assms b0(1,2), of "\<lambda>b. bk_status b \<in> move_source k"]
    by (auto simp: booking_statement_def booking_written_def tx_bind_def)
next
  case False
  then show ?thesis
    by (auto simp: booking_statement_def booking_written_def tx_bind_def update_bookings_miss
        dest!: booking_at_SomeD)
qed

lemma write_booking_move:
  assumes "consistent d" and "booking_written d k now bid b"
  shows "write_booking (MoveCall k bid') b d = move_booking (move_update k now) bid d"
proof -
  obtain b0 where b0: "booking_at d bid = Some b0" "b = move_update k now b0"
    using assms(2) unfolding booking_written_def by blast
  note bid = booking_written_id [OF assms(2)]
  have "x = b0" if "x \<in> set (bookings d)" "bk_id x = bid" for x
    using that b0(1) booking_at_Some_iff [OF assms(1), of bid x] by simp
  then have "map (\<lambda>x. if bk_id x = bk_id b then b else x) (bookings d)
      = map (\<lambda>x. if bk_id x = bid then move_update k now x else x) (bookings d)"
    by (intro map_cong refl) (simp add: bid, simp add: b0(2))
  then show ?thesis by (simp add: write_booking_def move_booking_def update_rows_def)
qed

text \<open>A booking row as the INSERT builds it, whatever value of the sequence it drew.\<close>

definition booking_inserted :: "db \<Rightarrow> int \<Rightarrow> int \<Rightarrow> int \<Rightarrow> int \<Rightarrow> booking_row \<Rightarrow> bool" where
  "booking_inserted d sid uid h now b \<longleftrightarrow> int4_ok sid \<and> int4_ok uid \<and> bk_id b \<le> int4_max \<and>
     sid \<in> seat_id ` set (seats d) \<and> uid \<in> user_id ` set (users d) \<and>
     b = \<lparr>bk_id = bk_id b, bk_seatId = sid, bk_userId = uid, bk_status = Pending,
          bk_holdExpiresAt = Some h, bk_createdAt = now, bk_updatedAt = now\<rparr>"

lemma insert_booking_inserted:
  "insert_booking sid uid Pending (Some h) now d = Inr (b, d') \<longleftrightarrow>
     booking_inserted d sid uid h now b \<and> bk_id b = bookings_seq d \<and>
     d' = d\<lparr>bookings := bookings d @ [b], bookings_seq := bookings_seq d + 1\<rparr>"
  by (auto simp: insert_booking_def booking_inserted_def Let_def)

subsection \<open>The invariant of the transactions in progress\<close>

text \<open>
  Every row a transaction has written is what its statement makes of the committed row, which
  has not changed since; an id it drew is used by nobody.
\<close>

definition txn_ok :: "db \<Rightarrow> txn \<Rightarrow> bool" where
  "txn_ok d x \<longleftrightarrow> (case tx_call x of
     ReserveCall sid uid h \<Rightarrow>
       (\<forall>r. tx_seat x = Some r \<longrightarrow> seat_written d {Available} Held sid r) \<and>
       (\<forall>b. tx_booking x = Some b \<longrightarrow> tx_seat x \<noteq> None \<and> bk_id b < bookings_seq d \<and>
         booking_at d (bk_id b) = None \<and> booking_inserted d sid uid h (tx_now x) b)
   | MoveCall k bid \<Rightarrow>
       (\<forall>b. tx_booking x = Some b \<longrightarrow> booking_written d k (tx_now x) bid b) \<and>
       (\<forall>r. tx_seat x = Some r \<longrightarrow> (\<exists>b. tx_booking x = Some b \<and>
         seat_written d (seat_source k) (seat_status_for (move_target k)) (bk_seatId b) r)))"

lemma txn_ok_reserve:
  "tx_call x = ReserveCall sid uid h \<Longrightarrow> txn_ok d x \<longleftrightarrow>
     (\<forall>r. tx_seat x = Some r \<longrightarrow> seat_written d {Available} Held sid r) \<and>
     (\<forall>b. tx_booking x = Some b \<longrightarrow> tx_seat x \<noteq> None \<and> bk_id b < bookings_seq d \<and>
       booking_at d (bk_id b) = None \<and> booking_inserted d sid uid h (tx_now x) b)"
  by (simp add: txn_ok_def)

lemma txn_ok_move:
  "tx_call x = MoveCall k bid \<Longrightarrow> txn_ok d x \<longleftrightarrow>
     (\<forall>b. tx_booking x = Some b \<longrightarrow> booking_written d k (tx_now x) bid b) \<and>
     (\<forall>r. tx_seat x = Some r \<longrightarrow> (\<exists>b. tx_booking x = Some b \<and>
       seat_written d (seat_source k) (seat_status_for (move_target k)) (bk_seatId b) r))"
  by (simp add: txn_ok_def)

lemma new_txn_ok [simp]: "txn_ok d (new_txn c now)"
  by (cases c) (simp_all add: txn_ok_def new_txn_def)

text \<open>It rests on the rows the transaction has locked, so commits of others do not disturb it.\<close>

lemma txn_ok_other:
  assumes "txn_ok d x"
    and "\<And>r. tx_seat x = Some r \<Longrightarrow> seat_at d' (seat_id r) = seat_at d (seat_id r)"
    and "\<And>b. tx_booking x = Some b \<Longrightarrow> booking_at d' (bk_id b) = booking_at d (bk_id b)"
    and "bookings_seq d \<le> bookings_seq d'" and "users d' = users d"
    and "seat_id ` set (seats d') = seat_id ` set (seats d)"
  shows "txn_ok d' x"
proof -
  have seat: "seat_written d' src tgt sid r"
    if "tx_seat x = Some r" "seat_written d src tgt sid r" for src tgt sid r
    using assms(2) [OF that(1)] that(2) seat_written_id [OF that(2)] by (simp add: seat_written_def)
  have booking: "booking_written d' k now bid b"
    if "tx_booking x = Some b" "booking_written d k now bid b" for k now bid b
    using assms(3) [OF that(1)] that(2) booking_written_id [OF that(2)]
    by (simp add: booking_written_def)
  show ?thesis
  proof (cases "tx_call x")
    case (ReserveCall sid uid h)
    with assms(1,3-6) seat show ?thesis
      by (auto simp: txn_ok_reserve booking_inserted_def intro: less_le_trans)
  next
    case (MoveCall k bid)
    with assms(1) seat booking show ?thesis
      unfolding txn_ok_move [OF MoveCall] by blast
  qed
qed

definition exclusive :: "(nat \<Rightarrow> txn option) \<Rightarrow> bool" where
  "exclusive txs \<longleftrightarrow> (\<forall>t u x y. t \<noteq> u \<longrightarrow> txs t = Some x \<longrightarrow> txs u = Some y \<longrightarrow>
     (\<forall>r r'. tx_seat x = Some r \<longrightarrow> tx_seat y = Some r' \<longrightarrow> seat_id r \<noteq> seat_id r') \<and>
     (\<forall>b b'. tx_booking x = Some b \<longrightarrow> tx_booking y = Some b' \<longrightarrow> bk_id b \<noteq> bk_id b'))"

definition lock_inv :: "lock_state \<Rightarrow> bool" where
  "lock_inv s \<longleftrightarrow> consistent (lk_db s) \<and> exclusive (lk_txs s) \<and>
     (\<forall>t x. lk_txs s t = Some x \<longrightarrow> txn_ok (lk_db s) x)"

lemma lock_invD:
  assumes "lock_inv s"
  shows "consistent (lk_db s)" "exclusive (lk_txs s)" "lk_txs s t = Some x \<Longrightarrow> txn_ok (lk_db s) x"
    "distinct_seats (lk_db s)"
  using assms consistentD(1) by (auto simp: lock_inv_def)

lemma exclusive_seat:
  "exclusive txs \<Longrightarrow> txs t = Some x \<Longrightarrow> txs u = Some y \<Longrightarrow> t \<noteq> u \<Longrightarrow> tx_seat x = Some r \<Longrightarrow>
   tx_seat y = Some r' \<Longrightarrow> seat_id r \<noteq> seat_id r'"
  unfolding exclusive_def by blast

lemma exclusive_booking:
  "exclusive txs \<Longrightarrow> txs t = Some x \<Longrightarrow> txs u = Some y \<Longrightarrow> t \<noteq> u \<Longrightarrow> tx_booking x = Some b \<Longrightarrow>
   tx_booking y = Some b' \<Longrightarrow> bk_id b \<noteq> bk_id b'"
  unfolding exclusive_def by blast

lemma exclusive_remove: "exclusive txs \<Longrightarrow> exclusive (txs(t := None))"
  by (auto simp: exclusive_def)

lemma txn_booking_below:
  assumes "lock_inv s" and "lk_txs s t = Some x" and "tx_booking x = Some b"
  shows "bk_id b < bookings_seq (lk_db s)"
proof (cases "tx_call x")
  case (ReserveCall sid uid h)
  with lock_invD(3) [OF assms(1,2)] assms(3) show ?thesis by (simp add: txn_ok_reserve)
next
  case (MoveCall k bid)
  with lock_invD(3) [OF assms(1,2)] assms(3) have "booking_written (lk_db s) k (tx_now x) bid b"
    by (simp add: txn_ok_move)
  then obtain b0 where "b0 \<in> set (bookings (lk_db s))" "bk_id b0 = bk_id b"
    unfolding booking_written_def by (auto dest!: booking_at_SomeD)
  with consistentD(4) [OF lock_invD(1) [OF assms(1)]] show ?thesis
    unfolding references_ok_def by metis
qed

subsection \<open>It is kept by every step\<close>

text \<open>A statement of one transaction: it takes a row nobody else has.\<close>

lemma exclusive_put:
  assumes "exclusive txs"
    and "\<And>u y r r'. u \<noteq> t \<Longrightarrow> txs u = Some y \<Longrightarrow> tx_seat x = Some r \<Longrightarrow> tx_seat y = Some r' \<Longrightarrow>
      seat_id r' \<noteq> seat_id r"
    and "\<And>u y b b'. u \<noteq> t \<Longrightarrow> txs u = Some y \<Longrightarrow> tx_booking x = Some b \<Longrightarrow> tx_booking y = Some b' \<Longrightarrow>
      bk_id b' \<noteq> bk_id b"
  shows "exclusive (txs(t \<mapsto> x))"
  unfolding exclusive_def
proof (intro allI impI conjI)
  fix u v y z r r'
  assume "u \<noteq> v" "(txs(t \<mapsto> x)) u = Some y" "(txs(t \<mapsto> x)) v = Some z"
    "tx_seat y = Some r" "tx_seat z = Some r'"
  then show "seat_id r \<noteq> seat_id r'"
    using exclusive_seat [OF assms(1)] assms(2) by (metis fun_upd_apply option.inject)
next
  fix u v y z b b'
  assume "u \<noteq> v" "(txs(t \<mapsto> x)) u = Some y" "(txs(t \<mapsto> x)) v = Some z"
    "tx_booking y = Some b" "tx_booking z = Some b'"
  then show "bk_id b \<noteq> bk_id b'"
    using exclusive_booking [OF assms(1)] assms(3) by (metis fun_upd_apply option.inject)
qed

lemma lock_inv_put:
  assumes "lock_inv s" and "txn_ok (lk_db s) x"
    and "\<And>u y r r'. u \<noteq> t \<Longrightarrow> lk_txs s u = Some y \<Longrightarrow> tx_seat x = Some r \<Longrightarrow> tx_seat y = Some r' \<Longrightarrow>
      seat_id r' \<noteq> seat_id r"
    and "\<And>u y b b'. u \<noteq> t \<Longrightarrow> lk_txs s u = Some y \<Longrightarrow> tx_booking x = Some b \<Longrightarrow>
      tx_booking y = Some b' \<Longrightarrow> bk_id b' \<noteq> bk_id b"
  shows "lock_inv (put_txn t x s)"
  using assms exclusive_put [of "lk_txs s" t x] by (simp add: lock_inv_def put_txn_def)

lemma lock_inv_sequence:
  assumes "lock_inv s" and "bookings_seq (lk_db s) \<le> n"
  shows "lock_inv (s\<lparr>lk_db := at_seq n (lk_db s)\<rparr>)"
proof -
  have "txn_ok (at_seq n (lk_db s)) x" if "lk_txs s t = Some x" for t x
    by (rule txn_ok_other [OF lock_invD(3) [OF assms(1) that]]) (simp_all add: assms(2))
  with lock_invD(1,2) [OF assms(1)] assms(2) show ?thesis
    by (simp add: lock_inv_def consistent_at_seq)
qed

text \<open>The booking a move has locked is live, and its seat is where its status says.\<close>

lemma locked_booking_seat:
  assumes "consistent d" and "booking_written d k now bid b"
  obtains b0 s where "b0 \<in> set (bookings d)" "bk_id b0 = bid" "int4_ok bid"
    "bk_status b0 \<in> move_source k" "b = move_update k now b0" "s \<in> set (seats d)" "seat_id s = bk_seatId b"
    "seat_at d (bk_seatId b) = Some s" "int4_ok (bk_seatId b)"
    "seat_status s = seat_status_for (bk_status b0)" "live_bookings d (bk_seatId b) = [b0]"
proof -
  from assms(2) obtain b0 where b0: "booking_at d bid = Some b0" "int4_ok bid"
    "bk_status b0 \<in> move_source k" "b = move_update k now b0"
    unfolding booking_written_def by blast
  from booking_at_SomeD [OF b0(1)] have mem: "b0 \<in> set (bookings d)" "bk_id b0 = bid" by auto
  have key: "bk_seatId b = bk_seatId b0" by (simp add: b0(4))
  from move_source_live [OF b0(3)] have "live (bk_status b0)" by simp
  with assms(1) mem(1) show ?thesis
    by (rule live_booking_seat) (rule that, simp_all add: mem b0 key)
qed

lemma locked_booking_seat_hits:
  assumes "consistent d" and "booking_written d k now bid b"
  shows "seat_statement k (bk_seatId b) d \<noteq> Inr (None, d')"
proof
  assume miss: "seat_statement k (bk_seatId b) d = Inr (None, d')"
  obtain b0 :: booking_row and s where "bk_status b0 \<in> move_source k" "s \<in> set (seats d)"
      "seat_id s = bk_seatId b"
      "seat_status s = seat_status_for (bk_status b0)"
    by (rule locked_booking_seat [OF assms]) blast
  then have s: "s \<in> set (seats d)" "seat_id s = bk_seatId b" "seat_status s \<in> seat_source k"
    using move_source_live [of "bk_status b0" k] by auto
  from miss consistentD(1) [OF assms(1)] show False
    by (cases rule: seat_transition.tr_cases [OF seat_statement_transition]) (use s in auto)
qed

lemma seat_written_move_booking [simp]:
  "seat_written (move_booking f bid d) src tgt sid r = seat_written d src tgt sid r"
  by (simp add: seat_written_def)

lemma write_commute: "write_booking c b (write_seat r d) = write_seat r (write_booking c b d)"
  by (cases c) (simp_all add: write_booking_def write_seat_def)

text \<open>The two ways to commit, as changes of the tables.\<close>

lemma commit_reserve:
  assumes "consistent d" and "txn_ok d x" and "tx_call x = ReserveCall sid uid h"
    and "tx_booking x = Some b" and "tx_seat x = Some r"
  shows "write_booking (tx_call x) b (write_seat r d) =
      (move_seat Held sid d)\<lparr>bookings := bookings d @ [b]\<rparr>"
    and "seat_written d {Available} Held sid r" and "booking_inserted d sid uid h (tx_now x) b"
    and "booking_at d (bk_id b) = None" and "bk_id b < bookings_seq d"
proof -
  from assms show *: "seat_written d {Available} Held sid r"
      "booking_inserted d sid uid h (tx_now x) b" "booking_at d (bk_id b) = None"
      "bk_id b < bookings_seq d"
    by (simp_all add: txn_ok_reserve)
  show "write_booking (tx_call x) b (write_seat r d) = (move_seat Held sid d)\<lparr>bookings := bookings d @ [b]\<rparr>"
    using write_seat_move [OF consistentD(1) [OF assms(1)] *(1)] assms(3)
    by (simp add: write_booking_def)
qed

lemma commit_move:
  assumes "consistent d" and "txn_ok d x" and "tx_call x = MoveCall k bid"
    and "tx_booking x = Some b" and "tx_seat x = Some r"
  shows "write_booking (tx_call x) b (write_seat r d) =
      move_seat (seat_status_for (move_target k)) (bk_seatId b) (move_booking (move_update k (tx_now x)) bid d)"
    and "booking_written d k (tx_now x) bid b"
    and "seat_written d (seat_source k) (seat_status_for (move_target k)) (bk_seatId b) r"
proof -
  from assms show *: "booking_written d k (tx_now x) bid b"
      "seat_written d (seat_source k) (seat_status_for (move_target k)) (bk_seatId b) r"
    by (simp_all add: txn_ok_move)
  have "distinct_seats (move_booking (move_update k (tx_now x)) bid d)"
    using consistentD(1) [OF assms(1)] by (simp add: distinct_seats_def)
  with * show "write_booking (tx_call x) b (write_seat r d) =
      move_seat (seat_status_for (move_target k)) (bk_seatId b) (move_booking (move_update k (tx_now x)) bid d)"
    unfolding write_commute assms(3) write_booking_move [OF assms(1) *(1)]
    by (intro write_seat_move) simp_all
qed

lemma commit_consistent:
  assumes "consistent d" and "txn_ok d x" and "tx_booking x = Some b" and "tx_seat x = Some r"
  shows "consistent (write_booking (tx_call x) b (write_seat r d))"
proof (cases "tx_call x")
  case (ReserveCall sid uid h)
  note c = commit_reserve [OF assms(1,2) ReserveCall assms(3,4)]
  from c(2) obtain s where s: "s \<in> set (seats d)" "seat_id s = sid" "seat_status s = Available"
    unfolding seat_written_def by (auto dest!: seat_at_SomeD)
  from c(3) have row: "bk_seatId b = sid" "bk_status b = Pending" "bk_userId b = uid"
      "uid \<in> user_id ` set (users d)"
    unfolding booking_inserted_def by (metis booking_row.select_convs(2-4))+
  have "consistent ((move_seat Held (seat_id s) d)\<lparr>bookings := bookings d @ [b],
      bookings_seq := bookings_seq d\<rparr>)"
    using c(4,5) row s by (intro consistent_insert_drawn [OF assms(1)]) (auto simp: booking_at_None)
  moreover have "(move_seat Held sid d)\<lparr>bookings := bookings d @ [b], bookings_seq := bookings_seq d\<rparr>
      = (move_seat Held sid d)\<lparr>bookings := bookings d @ [b]\<rparr>"
    by (rule db.equality) simp_all
  ultimately show ?thesis by (simp add: c(1) s(2))
next
  case (MoveCall k bid)
  note c = commit_move [OF assms(1,2) MoveCall assms(3,4)]
  from assms(1) c(2) obtain b0 where b0: "b0 \<in> set (bookings d)" "bk_id b0 = bid"
      "bk_status b0 \<in> move_source k" "b = move_update k (tx_now x) b0"
    by (rule locked_booking_seat)
  show ?thesis
    unfolding c(1) using consistent_transition [OF assms(1) b0(1) _ move_facts(1) [of k "tx_now x"]]
      move_source_live [OF b0(3)] by (simp add: b0(2,4))
qed

lemma booking_at_append: "bid \<noteq> bk_id b \<Longrightarrow> bookings d' = bookings d @ [b] \<Longrightarrow>
  booking_at d' bid = booking_at d bid"
  by (simp add: booking_at_def)

lemma commit_frame:
  assumes "consistent d" and "txn_ok d x" and "tx_booking x = Some b" and "tx_seat x = Some r"
    and "d' = write_booking (tx_call x) b (write_seat r d)"
  shows "sid \<noteq> seat_id r \<Longrightarrow> seat_at d' sid = seat_at d sid"
    and "bid \<noteq> bk_id b \<Longrightarrow> booking_at d' bid = booking_at d bid"
    and "bookings_seq d' = bookings_seq d" and "users d' = users d"
    and "seat_id ` set (seats d') = seat_id ` set (seats d)"
proof -
  have ids: "seat_id ` set (seats (move_seat st i c)) = seat_id ` set (seats c)" for st i c
    by (metis seat_ids_move_seat set_map)
  have "(sid \<noteq> seat_id r \<longrightarrow> seat_at d' sid = seat_at d sid) \<and>
      (bid \<noteq> bk_id b \<longrightarrow> booking_at d' bid = booking_at d bid) \<and>
      bookings_seq d' = bookings_seq d \<and> users d' = users d \<and>
      seat_id ` set (seats d') = seat_id ` set (seats d)"
  proof (cases "tx_call x")
    case (ReserveCall i u h)
    note c = commit_reserve [OF assms(1,2) ReserveCall assms(3,4)]
    have "seat_at d' sid = seat_at (move_seat Held i d) sid"
      by (simp add: assms(5) c(1) seat_at_def)
    then show ?thesis
      using seat_written_id [OF c(2)]
      by (auto simp: assms(5) c(1) seat_at_move_seat ids intro!: booking_at_append)
  next
    case (MoveCall k i)
    note c = commit_move [OF assms(1,2) MoveCall assms(3,4)]
    have "booking_at d' bid = booking_at (move_booking (move_update k (tx_now x)) i d) bid"
      by (simp add: assms(5) c(1) booking_at_def)
    then show ?thesis
      using seat_written_id [OF c(3)] booking_written_id [OF c(2)]
      by (auto simp: assms(5) c(1) seat_at_move_seat ids booking_at_move_booking)
  qed
  then show "sid \<noteq> seat_id r \<Longrightarrow> seat_at d' sid = seat_at d sid"
    "bid \<noteq> bk_id b \<Longrightarrow> booking_at d' bid = booking_at d bid"
    "bookings_seq d' = bookings_seq d" "users d' = users d"
    "seat_id ` set (seats d') = seat_id ` set (seats d)" by simp_all
qed

lemma lock_inv_rollback: "lock_inv s \<Longrightarrow> lock_inv (end_txn t (lk_db s) s)"
  by (auto simp: lock_inv_def end_txn_def exclusive_remove)

lemma lock_inv_commit:
  assumes inv: "lock_inv s" and x: "lk_txs s t = Some x" "tx_booking x = Some b" "tx_seat x = Some r"
  shows "lock_inv (end_txn t (write_booking (tx_call x) b (write_seat r (lk_db s))) s)"
    (is "lock_inv (end_txn t ?d s)")
proof -
  note con = lock_invD(1) [OF inv] and ok = lock_invD(3) [OF inv x(1)]
  note frame = commit_frame [OF con ok x(2,3) refl]
  have "txn_ok ?d y" if y: "lk_txs s u = Some y" "u \<noteq> t" for u y
  proof (rule txn_ok_other [OF lock_invD(3) [OF inv y(1)]])
    fix r' assume "tx_seat y = Some r'"
    then show "seat_at ?d (seat_id r') = seat_at (lk_db s) (seat_id r')"
      using exclusive_seat [OF lock_invD(2) [OF inv] y(1) x(1) y(2)] x(3) by (intro frame(1)) blast
  next
    fix b' assume "tx_booking y = Some b'"
    then show "booking_at ?d (bk_id b') = booking_at (lk_db s) (bk_id b')"
      using exclusive_booking [OF lock_invD(2) [OF inv] y(1) x(1) y(2)] x(2) by (intro frame(2)) blast
  qed (simp_all add: frame(3-5))
  then show ?thesis
    using commit_consistent [OF con ok x(2,3)] exclusive_remove [OF lock_invD(2) [OF inv]]
    by (auto simp: lock_inv_def end_txn_def split: if_splits)
qed

lemma seat_freeD: "seat_free s sid \<Longrightarrow> lk_txs s t = Some x \<Longrightarrow> tx_seat x = Some r \<Longrightarrow> seat_id r \<noteq> sid"
  by (auto simp: seat_free_def)

lemma booking_freeD:
  "booking_free s bid \<Longrightarrow> lk_txs s t = Some x \<Longrightarrow> tx_booking x = Some b \<Longrightarrow> bk_id b \<noteq> bid"
  by (auto simp: booking_free_def)

lemma lock_inv_take_seat:
  assumes inv: "lock_inv s" and x: "lk_txs s t = Some x" "tx_call x = ReserveCall sid uid h" "tx_seat x = None"
    and free: "seat_free s sid" and row: "reserveSeatRow sid (lk_db s) = Inr (Some r, d)"
  shows "lock_inv (put_txn t (x\<lparr>tx_seat := Some r\<rparr>) s)"
proof (rule lock_inv_put [OF inv])
  have w: "seat_written (lk_db s) {Available} Held sid r"
    using row reserve.tr_written [OF lock_invD(4) [OF inv]] by simp
  have none: "tx_booking x = None"
    using lock_invD(3) [OF inv x(1)] x(3) by (auto simp: txn_ok_reserve [OF x(2)])
  with w show "txn_ok (lk_db s) (x\<lparr>tx_seat := Some r\<rparr>)"
    using x(2) by (simp add: txn_ok_reserve)
  show "seat_id r2 \<noteq> seat_id r1" if "lk_txs s u = Some y" "tx_seat (x\<lparr>tx_seat := Some r\<rparr>) = Some r1"
      "tx_seat y = Some r2" for u y r1 r2
    using that seat_freeD [OF free that(1)] seat_written_id [OF w] by simp
qed (use lock_invD(3) [OF inv x(1)] x in \<open>simp add: txn_ok_reserve\<close>)

lemma drawn_id_new:
  assumes "consistent d"
  shows "booking_at d (bookings_seq d) = None"
  using consistentD(4) [OF assms] by (force simp: booking_at_None references_ok_def)

lemma lock_inv_insert:
  assumes inv: "lock_inv s" and x: "lk_txs s t = Some x" "tx_call x = ReserveCall sid uid h"
      "tx_seat x = Some r" "tx_booking x = None"
    and row: "insert_booking sid uid Pending (Some h) (tx_now x) (lk_db s) = Inr (b, d)"
  shows "lock_inv (put_txn t (x\<lparr>tx_booking := Some b\<rparr>)
    (s\<lparr>lk_db := at_seq (bookings_seq d) (lk_db s)\<rparr>))" (is "lock_inv (put_txn t ?x ?s)")
proof -
  have b: "booking_inserted (lk_db s) sid uid h (tx_now x) b" "bk_id b = bookings_seq (lk_db s)"
      "bookings_seq d = bookings_seq (lk_db s) + 1"
    using row by (simp_all add: insert_booking_inserted)
  have inv': "lock_inv ?s" by (intro lock_inv_sequence [OF inv]) (simp add: b(3))
  have seat: "seat_written (lk_db s) {Available} Held sid r"
    using lock_invD(3) [OF inv x(1)] x(3) by (simp add: txn_ok_reserve [OF x(2)])
  show ?thesis
  proof (rule lock_inv_put [OF inv'])
    show "txn_ok (lk_db ?s) ?x"
      unfolding txn_ok_reserve [of ?x sid uid h, simplified, OF x(2)]
      using x seat b drawn_id_new [OF lock_invD(1) [OF inv]]
      by (simp add: seat_written_def booking_inserted_def)
    show "seat_id r2 \<noteq> seat_id r1" if "u \<noteq> t" "lk_txs ?s u = Some y" "tx_seat ?x = Some r1"
        "tx_seat y = Some r2" for u y r1 r2
      using that exclusive_seat [OF lock_invD(2) [OF inv] _ x(1) that(1)] x(3) by simp
    show "bk_id b2 \<noteq> bk_id b1" if "lk_txs ?s u = Some y" "tx_booking ?x = Some b1"
        "tx_booking y = Some b2" for u y b1 b2
      using that txn_booking_below [OF inv, of u y b2] b(2) by simp
  qed
qed

lemma lock_inv_take_booking:
  assumes inv: "lock_inv s" and x: "lk_txs s t = Some x" "tx_call x = MoveCall k bid" "tx_booking x = None"
    and free: "booking_free s bid"
    and row: "booking_statement k (tx_now x) bid (lk_db s) = Inr (Some b, d)"
  shows "lock_inv (put_txn t (x\<lparr>tx_booking := Some b\<rparr>) s)"
proof (rule lock_inv_put [OF inv])
  have w: "booking_written (lk_db s) k (tx_now x) bid b"
    using row booking_statement_written [OF lock_invD(1) [OF inv]] by simp
  have none: "tx_seat x = None"
    using lock_invD(3) [OF inv x(1)] x(3) by (auto simp: txn_ok_move [OF x(2)])
  with w show "txn_ok (lk_db s) (x\<lparr>tx_booking := Some b\<rparr>)"
    using x(2) by (simp add: txn_ok_move)
  show "seat_id r2 \<noteq> seat_id r1" if "tx_seat (x\<lparr>tx_booking := Some b\<rparr>) = Some r1" for r1 r2 :: seat_row
    using that none by simp
  show "bk_id b2 \<noteq> bk_id b1" if "lk_txs s u = Some y" "tx_booking (x\<lparr>tx_booking := Some b\<rparr>) = Some b1"
      "tx_booking y = Some b2" for u y b1 b2
    using that booking_freeD [OF free that(1)] booking_written_id [OF w] by simp
qed

lemma lock_inv_move_seat:
  assumes inv: "lock_inv s" and x: "lk_txs s t = Some x" "tx_call x = MoveCall k bid"
      "tx_booking x = Some b" "tx_seat x = None"
    and free: "seat_free s (bk_seatId b)"
    and row: "seat_statement k (bk_seatId b) (lk_db s) = Inr (Some r, d)"
  shows "lock_inv (put_txn t (x\<lparr>tx_seat := Some r\<rparr>) s)"
proof (rule lock_inv_put [OF inv])
  have w: "seat_written (lk_db s) (seat_source k) (seat_status_for (move_target k)) (bk_seatId b) r"
    using row seat_transition.tr_written [OF seat_statement_transition lock_invD(4) [OF inv]] by simp
  with lock_invD(3) [OF inv x(1)] show "txn_ok (lk_db s) (x\<lparr>tx_seat := Some r\<rparr>)"
    using x(2,3) by (simp add: txn_ok_move)
  show "seat_id r2 \<noteq> seat_id r1" if "lk_txs s u = Some y" "tx_seat (x\<lparr>tx_seat := Some r\<rparr>) = Some r1"
      "tx_seat y = Some r2" for u y r1 r2
    using that seat_freeD [OF free that(1)] seat_written_id [OF w] by simp
  show "bk_id b2 \<noteq> bk_id b1" if "u \<noteq> t" "lk_txs s u = Some y"
      "tx_booking (x\<lparr>tx_seat := Some r\<rparr>) = Some b1" "tx_booking y = Some b2" for u y b1 b2
    using that exclusive_booking [OF lock_invD(2) [OF inv] _ x(1) that(1)] by simp
qed

lemma lock_inv_step:
  assumes "lock_step s l s'" and inv: "lock_inv s"
  shows "lock_inv s'"
  using assms(1)
proof cases
  case (begin_tx t c now)
  then show ?thesis
    using lock_inv_put [OF inv new_txn_ok, of t c now] by (simp add: new_txn_def)
next
  case (seat_not_there t x k bid b d r)
  with lock_invD(3) [OF inv, of t x] have "booking_written (lk_db s) k (tx_now x) bid b"
    by (auto simp: txn_ok_move)
  with locked_booking_seat_hits [OF lock_invD(1) [OF inv]] seat_not_there show ?thesis by blast
qed (use inv in \<open>auto intro: lock_inv_rollback lock_inv_commit lock_inv_take_seat lock_inv_insert
    lock_inv_take_booking lock_inv_move_seat lock_inv_sequence\<close>)

interpretation locks: invariant_system lock_init "\<lambda>s s'. \<exists>l. lock_step s l s'" lock_inv
proof unfold_locales
  show "lock_inv s" if "lock_init s" for s
    using that by (simp add: lock_init_def lock_inv_def exclusive_def)
qed (blast intro: lock_inv_step)

end
