(* ===== verification/Serializability.thy ===== *)
theory Serializability
  imports Transaction_Locks
begin

text \<open>
  What the interleaved statements of the booking transactions add up to: every transaction that
  ends has the answer and the effect of the use case's transaction run alone at that moment,
  nobody who holds a row lock waits for one, and every transaction can end.
\<close>

subsection \<open>A transaction ends as if it had run alone\<close>

lemma insert_booking_error_move_seat:
  "insert_booking sid uid st h now (move_seat st' i d) = Inl e \<longleftrightarrow> insert_booking sid uid st h now d = Inl e"
  by (simp add: insert_booking_def Let_def)

lemma reserve_alone_fails:
  assumes "distinct_seats d" and "seat_written d {Available} Held sid r"
    and "insert_booking sid uid Pending (Some h) now d = Inl e"
  shows "transaction (atomic_tx (ReserveCall sid uid h) now) d = (Inl e, d)"
proof -
  have "reserveSeatRow sid d = Inr (Some r, move_seat Held sid d)"
    using assms(1,2) by (simp add: reserve.tr_written)
  moreover have "insert_booking sid uid Pending (Some h) now (move_seat Held sid d) = Inl e"
    using assms(3) by (simp only: insert_booking_error_move_seat)
  ultimately show ?thesis
    by (simp add: reserve_tx_def tx_bind_def transaction_def)
qed

lemma reserve_alone_succeeds:
  assumes "distinct_seats d" and "seat_written d {Available} Held sid r"
    and "booking_inserted d sid uid h now b"
  shows "transaction (atomic_tx (ReserveCall sid uid h) now) (at_seq (bk_id b) d) =
    (Inr (Some b), at_seq (bk_id b + 1) ((move_seat Held sid d)\<lparr>bookings := bookings d @ [b]\<rparr>))"
proof -
  let ?d = "at_seq (bk_id b) d"
  have "reserveSeatRow sid ?d = Inr (Some r, move_seat Held sid ?d)"
    using assms(1,2) by (simp add: reserve.tr_written seat_written_def)
  moreover have "booking_inserted (move_seat Held sid ?d) sid uid h now b"
  proof -
    have "seat_id ` set (seats (move_seat Held sid ?d)) = seat_id ` set (seats ?d)"
      by (metis seat_ids_move_seat set_map)
    with assms(3) show ?thesis by (simp add: booking_inserted_def)
  qed
  then have "insert_booking sid uid Pending (Some h) now (move_seat Held sid ?d) =
      Inr (b, (move_seat Held sid ?d)\<lparr>bookings := bookings d @ [b], bookings_seq := bk_id b + 1\<rparr>)"
    by (simp add: insert_booking_inserted)
  moreover have "(move_seat Held sid ?d)\<lparr>bookings := bookings d @ [b], bookings_seq := bk_id b + 1\<rparr>
      = at_seq (bk_id b + 1) ((move_seat Held sid d)\<lparr>bookings := bookings d @ [b]\<rparr>)"
    by (simp add: at_seq_def move_seat_def)
  ultimately show ?thesis
    by (simp add: reserve_tx_def tx_bind_def transaction_def)
qed

text \<open>The seat statement of a move fails on the committed rows only for want of a version number.\<close>

lemma locked_seat_overflow:
  assumes "consistent d" and "booking_written d k now bid b" and "seat_statement k (bk_seatId b) d = Inl e"
  shows "transaction (atomic_tx (MoveCall k bid) now) d = (Inl e, d)"
proof -
  obtain b0 s where b0: "b0 \<in> set (bookings d)" "bk_id b0 = bid" "bk_status b0 \<in> move_source k"
      "int4_ok bid" "b = move_update k now b0"
    and s: "s \<in> set (seats d)" "seat_id s = bk_seatId b" "seat_at d (bk_seatId b) = Some s"
      "int4_ok (bk_seatId b)" "seat_status s = seat_status_for (bk_status b0)"
    by (rule locked_booking_seat [OF assms(1,2)]) blast
  from move_source_live [OF b0(3)] s(5) have src: "seat_status s \<in> seat_source k" by simp
  have "\<not> int4_ok (seat_version s + 1)"
    using seat_transition.tr_hit [OF seat_statement_transition s(4) consistentD(1) [OF assms(1)] s(1,2) src]
      assms(3) by auto
  moreover have "e = out_of_range"
    using seat_transition.tr_error [OF seat_statement_transition assms(3)] consistentD(1) [OF assms(1)] by simp
  ultimately show ?thesis
    using booking_transition.tx_overflow [OF atomic_move_transition b0(4) assms(1) b0(1-3), of s now] s(3)
    by (simp add: b0(5) transaction_def)
qed

lemma move_alone_succeeds:
  assumes "consistent d" and "booking_written d k now bid b"
    and "seat_written d (seat_source k) (seat_status_for (move_target k)) (bk_seatId b) r"
  shows "transaction (atomic_tx (MoveCall k bid) now) d = (Inr (Some b),
    move_seat (seat_status_for (move_target k)) (bk_seatId b) (move_booking (move_update k now) bid d))"
proof -
  obtain b0 s where b0: "b0 \<in> set (bookings d)" "bk_id b0 = bid" "bk_status b0 \<in> move_source k"
      "int4_ok bid" "b = move_update k now b0"
    and s: "seat_at d (bk_seatId b) = Some s"
    by (rule locked_booking_seat [OF assms(1,2)]) blast
  from assms(3) s have "int4_ok (seat_version s + 1)" by (simp add: seat_written_def)
  then show ?thesis
    using booking_transition.tx_hit [OF atomic_move_transition b0(4) assms(1) b0(1-3), of s now] s
    by (simp add: b0(5) transaction_def)
qed

lemma move_alone_first_statement:
  "booking_statement k now bid d = Inl e \<Longrightarrow>
     transaction (atomic_tx (MoveCall k bid) now) d = (Inl e, d)"
  "booking_statement k now bid d = Inr (None, d') \<Longrightarrow> consistent d \<Longrightarrow>
     transaction (atomic_tx (MoveCall k bid) now) d = (Inr None, d)"
proof -
  show "booking_statement k now bid d = Inl e \<Longrightarrow>
      transaction (atomic_tx (MoveCall k bid) now) d = (Inl e, d)"
    unfolding transaction_def atomic_move_statements by (simp add: tx_bind_def)
  assume none: "booking_statement k now bid d = Inr (None, d')" and con: "consistent d"
  then have tx: "atomic_tx (MoveCall k bid) now d = Inr (None, d')"
    unfolding atomic_move_statements by (simp add: tx_bind_def)
  from booking_transition.tx_cases [OF atomic_move_transition tx con] have "d' = d"
    by (metis option.distinct(1))
  with tx show "transaction (atomic_tx (MoveCall k bid) now) d = (Inr None, d)"
    by (simp add: transaction_def)
qed

lemma end_txn_db [simp]: "lk_db (end_txn t d s) = d"
  by (simp add: end_txn_def)

lemma commit_serializes:
  assumes inv: "lock_inv s" and x: "lk_txs s t = Some x" "tx_booking x = Some b" "tx_seat x = Some r"
    and d': "d' = write_booking (tx_call x) b (write_seat r (lk_db s))"
  shows "\<exists>n m. n \<le> bookings_seq (lk_db s) \<and>
    transaction (atomic_tx (tx_call x) (tx_now x)) (at_seq n (lk_db s)) = (Inr (Some b), at_seq m d')"
proof (cases "tx_call x")
  case (ReserveCall sid uid h)
  note c = commit_reserve [OF lock_invD(1) [OF inv] lock_invD(3) [OF inv x(1)] ReserveCall x(2,3)]
  from reserve_alone_succeeds [OF lock_invD(4) [OF inv] c(2,3)] c(5) show ?thesis
    unfolding d' c(1) unfolding ReserveCall by (blast intro: less_imp_le)
next
  case (MoveCall k bid)
  note c = commit_move [OF lock_invD(1) [OF inv] lock_invD(3) [OF inv x(1)] MoveCall x(2,3)]
  from move_alone_succeeds [OF lock_invD(1) [OF inv] c(2,3)] show ?thesis
    unfolding d' c(1) unfolding MoveCall by (metis at_seq_simps(8) order_refl)
qed

lemma ended_serializes:
  assumes step: "lock_step s (Ended t res) s'" and inv: "lock_inv s" and x: "lk_txs s t = Some x"
  shows "\<exists>n m. n \<le> bookings_seq (lk_db s) \<and>
    transaction (atomic_tx (tx_call x) (tx_now x)) (at_seq n (lk_db s)) = (res, at_seq m (lk_db s'))"
proof -
  let ?d = "lk_db s"
  note con = lock_invD(1) [OF inv] and dist = lock_invD(4) [OF inv] and ok = lock_invD(3) [OF inv x]
  have here: ?thesis if "transaction (atomic_tx (tx_call x) (tx_now x)) ?d = (res, lk_db s')"
    using that at_seq_simps(8) [of ?d] at_seq_simps(8) [of "lk_db s'"] by (metis order_refl)
  from step show ?thesis
  proof cases
    case (seat_taken y sid uid h d)
    with x show ?thesis
      by (intro here) (simp add: reserve_tx_def tx_bind_def transaction_def)
  next
    case (take_seat_fails y sid uid h e)
    with x show ?thesis
      by (intro here) (simp add: reserve_tx_def tx_bind_def transaction_def)
  next
    case (insert_fails y sid uid h r e)
    with x ok have "seat_written ?d {Available} Held sid r" by (simp add: txn_ok_reserve)
    with insert_fails x show ?thesis
      by (intro here) (simp del: atomic_tx.simps add: reserve_alone_fails [OF dist])
  next
    case (nothing_to_move y k bid d)
    with x con show ?thesis
      by (intro here) (simp del: atomic_tx.simps add: move_alone_first_statement(2))
  next
    case (take_booking_fails y k bid e)
    with x show ?thesis
      by (intro here) (simp del: atomic_tx.simps add: move_alone_first_statement(1))
  next
    case (seat_not_there y k bid b d)
    with x ok have "booking_written ?d k (tx_now x) bid b" by (simp add: txn_ok_move)
    with seat_not_there locked_booking_seat_hits [OF con] show ?thesis by blast
  next
    case (move_the_seat_fails y k bid b e)
    with x ok have "booking_written ?d k (tx_now x) bid b" by (simp add: txn_ok_move)
    from locked_seat_overflow [OF con this] move_the_seat_fails x show ?thesis
      by (intro here) (simp del: atomic_tx.simps)
  next
    case (commit_tx y b r)
    with commit_serializes [OF inv x] x show ?thesis by simp
  qed
qed

subsection \<open>Nobody who holds a lock waits\<close>

text \<open>
  The next statement of \<open>t\<close> matches a committed row that \<open>u\<close> has written: it waits for \<open>u\<close> to end.
\<close>

definition next_row_of :: "lock_state \<Rightarrow> txn \<Rightarrow> txn \<Rightarrow> bool" where
  "next_row_of s x y \<longleftrightarrow> (case tx_call x of
     ReserveCall sid uid h \<Rightarrow> tx_seat x = None \<and>
       (\<exists>r d. reserveSeatRow sid (lk_db s) = Inr (Some r, d)) \<and>
       (\<exists>r. tx_seat y = Some r \<and> seat_id r = sid)
   | MoveCall k bid \<Rightarrow>
       (case tx_booking x of
          None \<Rightarrow> (\<exists>b d. booking_statement k (tx_now x) bid (lk_db s) = Inr (Some b, d)) \<and>
            (\<exists>b. tx_booking y = Some b \<and> bk_id b = bid)
        | Some b \<Rightarrow> tx_seat x = None \<and>
            (\<exists>r d. seat_statement k (bk_seatId b) (lk_db s) = Inr (Some r, d)) \<and>
            (\<exists>r. tx_seat y = Some r \<and> seat_id r = bk_seatId b)))"

definition waits_for :: "lock_state \<Rightarrow> nat \<Rightarrow> nat \<Rightarrow> bool" where
  "waits_for s t u \<longleftrightarrow> t \<noteq> u \<and>
     (\<exists>x y. lk_txs s t = Some x \<and> lk_txs s u = Some y \<and> next_row_of s x y)"

text \<open>
  A move that has locked its booking finds the seat unlocked: a reservation locks only an
  available seat, and another move on this seat would need the same booking.
\<close>

lemma second_lock_free:
  assumes inv: "lock_inv s" and x: "lk_txs s t = Some x" "tx_call x = MoveCall k bid"
      "tx_booking x = Some b" "tx_seat x = None"
  shows "seat_free s (bk_seatId b)"
  unfolding seat_free_def
proof (intro allI impI notI)
  fix u y r
  assume u: "lk_txs s u = Some y \<and> tx_seat y = Some r" and id: "seat_id r = bk_seatId b"
  then have ne: "t \<noteq> u" using x by auto
  from lock_invD(3) [OF inv x(1)] x(3) have "booking_written (lk_db s) k (tx_now x) bid b"
    by (simp add: txn_ok_move [OF x(2)])
  from locked_booking_seat [OF lock_invD(1) [OF inv] this] obtain b0 z
    where b0: "live_bookings (lk_db s) (bk_seatId b) = [b0]" "bk_id b0 = bid"
      "seat_at (lk_db s) (bk_seatId b) = Some z" "seat_status z = seat_status_for (bk_status b0)"
      "bk_status b0 \<in> move_source k" and bid: "bk_id b = bid"
    by (metis move_facts(3))
  from u lock_invD(3) [OF inv] have ok: "txn_ok (lk_db s) y" by blast
  show False
  proof (cases "tx_call y")
    case (ReserveCall sid uid h)
    with ok u have w: "seat_written (lk_db s) {Available} Held sid r" by (simp add: txn_ok_reserve)
    with seat_written_id [OF w] id b0(3,4) have "seat_status_for (bk_status b0) = Available"
      by (auto simp: seat_written_def)
    with b0(5) show False by (cases k) auto
  next
    case (MoveCall k' bid')
    with ok u obtain b' where b': "tx_booking y = Some b'" "booking_written (lk_db s) k' (tx_now y) bid' b'"
        "seat_written (lk_db s) (seat_source k') (seat_status_for (move_target k')) (bk_seatId b') r"
      by (auto simp: txn_ok_move)
    from locked_booking_seat [OF lock_invD(1) [OF inv] b'(2)] obtain b1
      where "live_bookings (lk_db s) (bk_seatId b') = [b1]" "bk_id b1 = bid'" "bk_id b' = bid'"
      by (metis move_facts(3))
    with b0(1,2) bid seat_written_id [OF b'(3)] id have "bk_id b = bk_id b'" by simp
    with exclusive_booking [OF lock_invD(2) [OF inv] x(1) _ ne x(3) b'(1)] u show False by blast
  qed
qed

lemma waiting_holds_nothing:
  assumes inv: "lock_inv s" and w: "waits_for s t u" and x: "lk_txs s t = Some x"
  shows "tx_seat x = None \<and> tx_booking x = None"
proof -
  from w x obtain y where y: "lk_txs s u = Some y" "next_row_of s x y" by (auto simp: waits_for_def)
  note ok = lock_invD(3) [OF inv x]
  show ?thesis
  proof (cases "tx_call x")
    case (ReserveCall sid uid h)
    with y ok show ?thesis by (auto simp: next_row_of_def txn_ok_reserve)
  next
    case (MoveCall k bid)
    show ?thesis
    proof (cases "tx_booking x")
      case None
      with ok MoveCall show ?thesis by (auto simp: txn_ok_move)
    next
      case (Some b)
      with y(2) MoveCall obtain r where "tx_seat x = None" "tx_seat y = Some r" "seat_id r = bk_seatId b"
        by (auto simp: next_row_of_def)
      with seat_freeD [OF second_lock_free [OF inv x MoveCall Some] y(1)] show ?thesis by blast
    qed
  qed
qed

text \<open>Who is waited for holds a row, so it does not wait itself; and only one can be waited for.\<close>

lemma next_row_same:
  assumes "next_row_of s x y" and "next_row_of s x z"
  shows "(\<exists>r r'. tx_seat y = Some r \<and> tx_seat z = Some r' \<and> seat_id r = seat_id r') \<or>
    (\<exists>b b'. tx_booking y = Some b \<and> tx_booking z = Some b' \<and> bk_id b = bk_id b')"
  using assms by (cases "tx_call x"; cases "tx_booking x") (auto simp: next_row_of_def)

lemma waited_for_holds:
  assumes "waits_for s t u" and "lk_txs s u = Some y"
  shows "tx_seat y \<noteq> None \<or> tx_booking y \<noteq> None"
proof -
  from assms obtain x where "next_row_of s x y" by (auto simp: waits_for_def)
  from next_row_same [OF this this] show ?thesis by auto
qed

lemma waits_for_unique:
  assumes "lock_inv s" and "waits_for s t u" and "waits_for s t v"
  shows "u = v"
proof (rule ccontr)
  assume ne: "u \<noteq> v"
  from assms(2,3) obtain x y z where *: "lk_txs s t = Some x" "lk_txs s u = Some y" "lk_txs s v = Some z"
      "next_row_of s x y" "next_row_of s x z"
    by (auto simp: waits_for_def)
  from exclusive_seat [OF lock_invD(2) [OF assms(1)] *(2,3) ne]
    exclusive_booking [OF lock_invD(2) [OF assms(1)] *(2,3) ne] next_row_same [OF *(4,5)]
  show False by blast
qed

subsection \<open>Every transaction can end\<close>

text \<open>A run in which no transaction is lost.\<close>

definition lock_runs :: "lock_state \<Rightarrow> lock_state \<Rightarrow> bool" where
  "lock_runs = (\<lambda>s s'. \<exists>l. lock_step s l s' \<and> (\<forall>t. l \<noteq> Lost t))\<^sup>*\<^sup>*"

lemma lock_runs_refl [simp]: "lock_runs s s"
  by (simp add: lock_runs_def)

lemma lock_runs_quiet: "lock_step s Quiet s' \<Longrightarrow> lock_runs s s'"
  unfolding lock_runs_def by (rule r_into_rtranclp) auto

lemma lock_runs_ended: "lock_step s (Ended t res) s' \<Longrightarrow> lock_runs s s'"
  unfolding lock_runs_def by (rule r_into_rtranclp) auto

lemma lock_runs_trans [trans]: "lock_runs s s' \<Longrightarrow> lock_runs s' s'' \<Longrightarrow> lock_runs s s''"
  unfolding lock_runs_def by (rule rtranclp_trans)

definition can_end :: "lock_state \<Rightarrow> nat \<Rightarrow> bool" where
  "can_end s t \<longleftrightarrow> (\<exists>s' res s''. lock_runs s s' \<and> lock_step s' (Ended t res) s'' \<and>
     lk_txs s'' = (lk_txs s)(t := None))"

lemma can_end_now:
  "lock_step s (Ended t res) (end_txn t d s) \<Longrightarrow> can_end s t"
  unfolding can_end_def by (intro exI conjI) (rule lock_runs_refl, assumption, simp add: end_txn_def)

lemma can_end_later:
  assumes "lock_step s Quiet (put_txn t x (s\<lparr>lk_db := d\<rparr>))" and "can_end (put_txn t x (s\<lparr>lk_db := d\<rparr>)) t"
  shows "can_end s t"
proof -
  from assms(2) obtain s' res s'' where "lock_runs (put_txn t x (s\<lparr>lk_db := d\<rparr>)) s'"
      "lock_step s' (Ended t res) s''" "lk_txs s'' = (lk_txs s)(t := None)"
    by (auto simp: can_end_def put_txn_def)
  with lock_runs_trans [OF lock_runs_quiet [OF assms(1)]] show ?thesis
    unfolding can_end_def by blast
qed

lemmas can_end_later_same = can_end_later [of s t x "lk_db s" for s t x, simplified]

lemma put_txn_at [simp]: "lk_txs (put_txn t x s) t = Some x"
  by (simp add: put_txn_def)

lemma both_rows_end:
  "lk_txs s t = Some x \<Longrightarrow> tx_booking x = Some b \<Longrightarrow> tx_seat x = Some r \<Longrightarrow> can_end s t"
  by (rule can_end_now) (rule lock_step.commit_tx)

lemma holder_ends:
  assumes inv: "lock_inv s" and x: "lk_txs s t = Some x" and holds: "tx_seat x \<noteq> None \<or> tx_booking x \<noteq> None"
  shows "can_end s t"
proof (cases "tx_call x")
  case (ReserveCall sid uid h)
  with lock_invD(3) [OF inv x] holds obtain r where r: "tx_seat x = Some r" by (auto simp: txn_ok_reserve)
  show ?thesis
  proof (cases "tx_booking x")
    case None
    show ?thesis
    proof (cases "insert_booking sid uid Pending (Some h) (tx_now x) (lk_db s)")
      case (Inl e)
      from lock_step.insert_fails [OF x ReserveCall r None Inl] show ?thesis by (rule can_end_now)
    next
      case (Inr p)
      obtain b d where p: "p = (b, d)" by (cases p)
      from lock_step.insert_row [OF x ReserveCall r None Inr [unfolded p]] show ?thesis
        by (rule can_end_later) (rule both_rows_end [OF put_txn_at, of _ b r], simp_all add: r)
    qed
  qed (rule both_rows_end [OF x _ r])
next
  case (MoveCall k bid)
  with lock_invD(3) [OF inv x] holds obtain b where b: "tx_booking x = Some b"
    by (auto simp: txn_ok_move)
  with lock_invD(3) [OF inv x] MoveCall have w: "booking_written (lk_db s) k (tx_now x) bid b"
    by (simp add: txn_ok_move)
  show ?thesis
  proof (cases "tx_seat x")
    case None
    note free = second_lock_free [OF inv x MoveCall b None]
    show ?thesis
    proof (cases "seat_statement k (bk_seatId b) (lk_db s)")
      case (Inl e)
      from lock_step.move_the_seat_fails [OF x MoveCall b None Inl] show ?thesis by (rule can_end_now)
    next
      case (Inr p)
      with locked_booking_seat_hits [OF lock_invD(1) [OF inv] w] obtain r d where p: "p = (Some r, d)"
        by (cases p; cases "fst p") auto
      from lock_step.move_the_seat [OF x MoveCall b None free Inr [unfolded p]] show ?thesis
        by (rule can_end_later_same) (rule both_rows_end [OF put_txn_at, of _ b r], simp_all add: b)
    qed
  qed (rule both_rows_end [OF x b])
qed

lemma lock_runs_inv: "lock_runs s s' \<Longrightarrow> lock_inv s \<Longrightarrow> lock_inv s'"
  unfolding lock_runs_def by (induction rule: rtranclp_induct) (auto intro: lock_inv_step)

lemma first_row_ends:
  assumes "lock_step s Quiet (put_txn t x s)" and "lock_inv (put_txn t x s)"
    and "tx_seat x \<noteq> None \<or> tx_booking x \<noteq> None"
  shows "can_end s t"
  using can_end_later_same [OF assms(1)] holder_ends [OF assms(2) put_txn_at assms(3)] by simp

lemma first_reserve_ends:
  assumes inv: "lock_inv s" and x: "lk_txs s t = Some x" "tx_call x = ReserveCall sid uid h" "tx_seat x = None"
    and alone: "\<And>u y. lk_txs s u = Some y \<Longrightarrow> \<not> next_row_of s x y"
  shows "can_end s t"
proof (cases "reserveSeatRow sid (lk_db s)")
  case (Inl e)
  from lock_step.take_seat_fails [OF x Inl] show ?thesis by (rule can_end_now)
next
  case (Inr p)
  obtain found d where p: "p = (found, d)" by (cases p)
  show ?thesis
  proof (cases found)
    case None
    with lock_step.seat_taken [OF x] Inr p show ?thesis by (blast intro: can_end_now)
  next
    case (Some r)
    note row = Inr [unfolded p Some]
    have "seat_free s sid"
      using alone row x(2,3) by (auto simp: seat_free_def next_row_of_def)
    from lock_step.take_seat [OF x this row] lock_inv_take_seat [OF inv x this row] show ?thesis
      by (rule first_row_ends) simp
  qed
qed

lemma first_move_ends:
  assumes inv: "lock_inv s" and x: "lk_txs s t = Some x" "tx_call x = MoveCall k bid" "tx_booking x = None"
    and alone: "\<And>u y. lk_txs s u = Some y \<Longrightarrow> \<not> next_row_of s x y"
  shows "can_end s t"
proof (cases "booking_statement k (tx_now x) bid (lk_db s)")
  case (Inl e)
  from lock_step.take_booking_fails [OF x Inl] show ?thesis by (rule can_end_now)
next
  case (Inr p)
  obtain found d where p: "p = (found, d)" by (cases p)
  show ?thesis
  proof (cases found)
    case None
    with lock_step.nothing_to_move [OF x] Inr p show ?thesis by (blast intro: can_end_now)
  next
    case (Some b)
    note row = Inr [unfolded p Some]
    have "booking_free s bid"
      using alone row x(2,3) by (auto simp: booking_free_def next_row_of_def)
    from lock_step.take_booking [OF x this row] lock_inv_take_booking [OF inv x this row] show ?thesis
      by (rule first_row_ends) simp
  qed
qed

lemma not_waiting_ends:
  assumes inv: "lock_inv s" and x: "lk_txs s t = Some x" and "\<And>u. \<not> waits_for s t u"
  shows "can_end s t"
proof (cases "tx_seat x \<noteq> None \<or> tx_booking x \<noteq> None")
  case True
  with inv x show ?thesis by (rule holder_ends)
next
  case False
  then have none: "tx_seat x = None" "tx_booking x = None" by auto
  have alone: "\<not> next_row_of s x y" if "lk_txs s u = Some y" for u y
    using that assms(3) [of u] x none by (auto simp: waits_for_def next_row_of_def split: call.splits)
  show ?thesis
  proof (cases "tx_call x")
    case (ReserveCall sid uid h)
    from inv x this none(1) alone show ?thesis by (rule first_reserve_ends)
  next
    case (MoveCall k bid)
    from inv x this none(2) alone show ?thesis by (rule first_move_ends)
  qed
qed

lemma in_progress_ends:
  assumes inv: "lock_inv s" and x: "lk_txs s t = Some x"
  shows "\<exists>s' res s''. lock_runs s s' \<and> lock_step s' (Ended t res) s''"
proof (cases "\<exists>u. waits_for s t u")
  case True
  then obtain u y where w: "waits_for s t u" and y: "lk_txs s u = Some y"
    by (auto simp: waits_for_def)
  from holder_ends [OF inv y waited_for_holds [OF w y]] obtain s1 res s2
    where run: "lock_runs s s1" "lock_step s1 (Ended u res) s2" and txs: "lk_txs s2 = (lk_txs s)(u := None)"
    by (auto simp: can_end_def)
  have run2: "lock_runs s s2" using lock_runs_trans [OF run(1) lock_runs_ended [OF run(2)]] .
  have x2: "lk_txs s2 t = Some x" using w x txs by (auto simp: waits_for_def)
  have free: "\<not> next_row_of s2 x z" if z: "lk_txs s2 v = Some z" for v z
  proof
    assume n: "next_row_of s2 x z"
    from z txs have zv: "lk_txs s v = Some z" "u \<noteq> v" by (auto split: if_splits)
    from w x y have n': "next_row_of s x y" by (auto simp: waits_for_def)
    from n n' have "(\<exists>r r'. tx_seat y = Some r \<and> tx_seat z = Some r' \<and> seat_id r = seat_id r') \<or>
        (\<exists>b b'. tx_booking y = Some b \<and> tx_booking z = Some b' \<and> bk_id b = bk_id b')"
      by (cases "tx_call x"; cases "tx_booking x") (auto simp: next_row_of_def)
    with exclusive_seat [OF lock_invD(2) [OF inv] y zv] exclusive_booking [OF lock_invD(2) [OF inv] y zv]
    show False by blast
  qed
  have "can_end s2 t"
    using lock_runs_inv [OF run2 inv] x2 by (rule not_waiting_ends) (use x2 free in \<open>auto simp: waits_for_def\<close>)
  then show ?thesis
    unfolding can_end_def using lock_runs_trans [OF run2] by blast
next
  case False
  with not_waiting_ends [OF inv x] show ?thesis unfolding can_end_def by blast
qed

subsection \<open>A reachable state for the witnesses\<close>

text \<open>Two buyers are reserving seat 1: transaction 0 has updated the seat, transaction 1 has begun.\<close>

definition demo_tx :: "int \<Rightarrow> txn" where
  "demo_tx uid = new_txn (ReserveCall 1 uid 300000) 0"

definition demo_locked :: lock_state where
  "demo_locked = put_txn 0 (demo_tx 1\<lparr>tx_seat := Some (demo_seat 1 Held 1)\<rparr>)
     (put_txn 1 (demo_tx 2) (put_txn 0 (demo_tx 1) \<lparr>lk_db = demo_db, lk_txs = \<lambda>_. None\<rparr>))"

lemma demo_locked_simps [simp]:
  "lk_db demo_locked = demo_db" "lk_txs demo_locked 1 = Some (demo_tx 2)"
  "lk_txs demo_locked 0 = Some (demo_tx 1\<lparr>tx_seat := Some (demo_seat 1 Held 1)\<rparr>)"
  by (simp_all add: demo_locked_def put_txn_def)

lemma demo_reserve_row:
  "reserveSeatRow 1 demo_db = Inr (Some (demo_seat 1 Held 1), move_seat Held 1 demo_db)"
  by (simp add: reserve.tr_written consistentD(1) [OF demo_consistent(1)] seat_written_def demo_seat_at
      demo_int4) (simp add: demo_seat_def bump_seat_def demo_int4)

abbreviation demo_lock_start :: lock_state where
  "demo_lock_start \<equiv> \<lparr>lk_db = demo_db, lk_txs = \<lambda>_. None\<rparr>"

lemma demo_lock_init: "lock_init demo_lock_start"
  by (simp add: lock_init_def demo_consistent)

abbreviation quiet_steps :: "lock_state \<Rightarrow> lock_state \<Rightarrow> bool" where
  "quiet_steps \<equiv> (\<lambda>s s'. lock_step s Quiet s')\<^sup>*\<^sup>*"

lemma quiet_steps_reachable: "quiet_steps s s' \<Longrightarrow> lock_reachable s \<Longrightarrow> lock_reachable s'"
  by (induction rule: rtranclp_induct) (blast intro: reach_step)+

lemma demo_locked_quiet: "quiet_steps demo_lock_start demo_locked"
proof -
  let ?s1 = "put_txn 0 (demo_tx 1) demo_lock_start"
  let ?s2 = "put_txn 1 (demo_tx 2) ?s1"
  have "lock_step demo_lock_start Quiet ?s1" unfolding demo_tx_def by (rule lock_step.begin_tx) simp
  moreover have "lock_step ?s1 Quiet ?s2"
    unfolding demo_tx_def [of 2] by (rule lock_step.begin_tx) (simp add: put_txn_def)
  moreover have "lock_step ?s2 Quiet demo_locked"
    unfolding demo_locked_def
    by (rule lock_step.take_seat [where sid = 1 and d = "move_seat Held 1 demo_db"])
      (auto simp: put_txn_def demo_tx_def new_txn_def seat_free_def demo_reserve_row split: if_splits)
  ultimately show ?thesis by (meson r_into_rtranclp rtranclp_trans)
qed

lemma demo_locked_reachable: "lock_reachable demo_locked"
  using quiet_steps_reachable [OF demo_locked_quiet] demo_lock_init by (blast intro: reach_init)

definition demo_inserted :: lock_state where
  "demo_inserted = put_txn 0
     (demo_tx 1\<lparr>tx_seat := Some (demo_seat 1 Held 1), tx_booking := Some demo_booking\<rparr>)
     (demo_locked\<lparr>lk_db := at_seq 2 demo_db\<rparr>)"

lemma demo_inserted_simps [simp]:
  "lk_db demo_inserted = at_seq 2 demo_db"
  "lk_txs demo_inserted 0 =
     Some (demo_tx 1\<lparr>tx_seat := Some (demo_seat 1 Held 1), tx_booking := Some demo_booking\<rparr>)"
  by (simp_all add: demo_inserted_def put_txn_def)

lemma demo_insert_row:
  "insert_booking 1 1 Pending (Some 300000) 0 demo_db =
     Inr (demo_booking, demo_db\<lparr>bookings := [demo_booking], bookings_seq := 2\<rparr>)"
  by (simp add: insert_booking_def demo_defs int4_ok_def int4_max_def Let_def)

lemma demo_inserted_quiet: "quiet_steps demo_lock_start demo_inserted"
proof -
  have "lock_step demo_locked Quiet (put_txn 0
      (demo_tx 1\<lparr>tx_seat := Some (demo_seat 1 Held 1), tx_booking := Some demo_booking\<rparr>)
      (demo_locked\<lparr>lk_db := at_seq (bookings_seq (demo_db\<lparr>bookings := [demo_booking], bookings_seq := 2\<rparr>))
        (lk_db demo_locked)\<rparr>))"
    using lock_step.insert_row [of demo_locked 0 "demo_tx 1\<lparr>tx_seat := Some (demo_seat 1 Held 1)\<rparr>"
        1 1 300000 "demo_seat 1 Held 1" demo_booking "demo_db\<lparr>bookings := [demo_booking], bookings_seq := 2\<rparr>"]
    by (simp add: demo_tx_def new_txn_def demo_insert_row)
  then have "lock_step demo_locked Quiet demo_inserted" by (simp add: demo_inserted_def)
  with demo_locked_quiet show ?thesis by (rule rtranclp.rtrancl_into_rtrancl)
qed

lemma demo_inserted_reachable: "lock_reachable demo_inserted"
  using quiet_steps_reachable [OF demo_inserted_quiet] demo_lock_init by (blast intro: reach_init)

text \<open>Transaction 0 commits; transaction 1 then finds the seat taken.\<close>

definition demo_committed :: lock_state where
  "demo_committed = end_txn 0 (write_booking (ReserveCall 1 1 300000) demo_booking
     (write_seat (demo_seat 1 Held 1) (at_seq 2 demo_db))) demo_inserted"

lemma demo_commit_step: "lock_step demo_inserted (Ended 0 (Inr (Some demo_booking))) demo_committed"
  using lock_step.commit_tx [of demo_inserted 0 "demo_tx 1\<lparr>tx_seat := Some (demo_seat 1 Held 1),
      tx_booking := Some demo_booking\<rparr>" demo_booking "demo_seat 1 Held 1"]
  by (simp add: demo_committed_def demo_tx_def new_txn_def)

subsection \<open>The results\<close>

lemma statements_keep_consistency: "lock_reachable s \<Longrightarrow> consistent (lk_db s)"
  using locks.reachable_inv lock_invD(1) by blast

text \<open>
  Serializability of the transactions, statement by statement under row locks: whenever a
  transaction ends with an answer of the database (a commit, no row to move, a thrown error), its
  answer and the tables it leaves are those of the whole transaction of the use case run alone
  at that moment, up to the value a reservation drew from the booking sequence.
\<close>

theorem transactions_serialize:
  assumes "lock_reachable s" and "lock_step s (Ended t res) s'" and "lk_txs s t = Some x"
  shows "\<exists>n m. n \<le> bookings_seq (lk_db s) \<and>
    transaction (atomic_tx (tx_call x) (tx_now x)) (at_seq n (lk_db s)) = (res, at_seq m (lk_db s'))"
  using ended_serializes [OF assms(2) locks.reachable_inv [OF assms(1)] assms(3)] .

theorem transactions_serialize_witness:
  "\<exists>n m. n \<le> 2 \<and> transaction (atomic_tx (ReserveCall 1 1 300000) 0) (at_seq n demo_db) =
     (Inr (Some demo_booking), at_seq m (lk_db demo_committed))"
  using transactions_serialize [OF demo_inserted_reachable demo_commit_step]
  by (simp del: atomic_tx.simps add: demo_tx_def new_txn_def)

text \<open>
  No deadlock: a transaction that waits for a row lock holds no lock itself and waits for
  exactly one other, and that one does not wait. Two confirms, cancels, expiries or
  reservations therefore never wait for each other in a circle.
\<close>

theorem lock_holders_never_wait:
  assumes "lock_reachable s" and "waits_for s t u"
  shows "(\<exists>x. lk_txs s t = Some x \<and> tx_seat x = None \<and> tx_booking x = None) \<and>
    (\<forall>v. waits_for s t v = (v = u)) \<and> (\<forall>v. \<not> waits_for s u v)"
proof (intro conjI allI)
  note inv = locks.reachable_inv [OF assms(1)]
  from assms(2) obtain x y where xy: "lk_txs s t = Some x" "lk_txs s u = Some y"
    by (auto simp: waits_for_def)
  from waiting_holds_nothing [OF inv assms(2) xy(1)] xy(1)
  show "\<exists>x. lk_txs s t = Some x \<and> tx_seat x = None \<and> tx_booking x = None" by simp
  show "waits_for s t v = (v = u)" for v
    using waits_for_unique [OF inv assms(2), of v] assms(2) by auto
  show "\<not> waits_for s u v" for v
    using waiting_holds_nothing [OF inv _ xy(2), of v] waited_for_holds [OF assms(2) xy(2)] by auto
qed

theorem lock_holders_never_wait_witness:
  "(\<forall>v. waits_for demo_locked 1 v = (v = 0)) \<and> (\<forall>v. \<not> waits_for demo_locked 0 v)"
proof -
  have "waits_for demo_locked 1 0"
    unfolding waits_for_def next_row_of_def
    by (simp del: One_nat_def) (simp add: demo_tx_def new_txn_def demo_reserve_row demo_seat_def)
  from lock_holders_never_wait [OF demo_locked_reachable this] show ?thesis by blast
qed

text \<open>
  C4. Every transaction can end: from every reachable state there is a run, in which no
  connection is lost, that takes a given transaction in progress to its answer.
\<close>

theorem transactions_can_end:
  assumes "lock_reachable s" and "lk_txs s t = Some x"
  shows "\<exists>s' res s''. lock_runs s s' \<and> lock_step s' (Ended t res) s''"
  using in_progress_ends [OF locks.reachable_inv [OF assms(1)] assms(2)] .

theorem transactions_can_end_witness:
  "\<exists>s' res s''. lock_runs demo_locked s' \<and> lock_step s' (Ended 1 res) s''"
  using transactions_can_end [OF demo_locked_reachable demo_locked_simps(2)] .

end
