(* ===== verification/Interleaving.thy ===== *)
theory Interleaving
  imports Serializability Ticket_Ledger
begin

text \<open>
  Whole runs of the interleaved statements of \<open>Transaction_Locks\<close>. What such a run shows is the
  list of answers its transactions got, in the order they ended. Two systems simulate it, through
  the locale \<open>simulation\<close>: the transactions of the use cases run alone one after the other, and the
  ticket ledger, whose safety the runs inherit.
\<close>

subsection \<open>What a run shows\<close>

type_synonym reply = "call \<times> int \<times> booking_row option result"

definition replies_of :: "lock_state \<Rightarrow> observation \<Rightarrow> reply list" where
  "replies_of s l = (case l of
     Ended t res \<Rightarrow> (case lk_txs s t of Some x \<Rightarrow> [(tx_call x, tx_now x, res)] | None \<Rightarrow> [])
   | _ \<Rightarrow> [])"

definition statement_step :: "lock_state \<Rightarrow> reply list \<Rightarrow> lock_state \<Rightarrow> bool" where
  "statement_step s shown s' \<longleftrightarrow> (\<exists>l. lock_step s l s' \<and> shown = replies_of s l)"

inductive_cases lost_stepE: "lock_step s (Lost t) s'"
inductive_cases ended_stepE: "lock_step s (Ended t res) s'"

lemma ended_in_progress: "lock_step s (Ended t res) s' \<Longrightarrow> \<exists>x. lk_txs s t = Some x"
  by (erule ended_stepE) auto

text \<open>Only an answer changes the rows: the other steps at most draw sequence values.\<close>

lemma quiet_db:
  assumes "lock_step s Quiet s'"
  obtains n where "bookings_seq (lk_db s) \<le> n" "lk_db s' = at_seq n (lk_db s)"
  using assms
proof cases
  case (insert_row t x sid uid h r b d)
  from insert_row(6) have "bookings_seq d = bookings_seq (lk_db s) + 1"
    by (simp add: insert_booking_inserted)
  with insert_row(1) show ?thesis by (intro that [of "bookings_seq d"]) (simp_all add: put_txn_def)
qed (use that [of "bookings_seq (lk_db s)"] that in \<open>auto simp: put_txn_def\<close>)

lemma lost_db: "lock_step s (Lost t) s' \<Longrightarrow> lk_db s' = lk_db s"
  by (erule lost_stepE) simp

lemma ended_sequence: "lock_step s (Ended t res) s' \<Longrightarrow> bookings_seq (lk_db s') = bookings_seq (lk_db s)"
  by (erule ended_stepE)
    (auto simp: write_booking_def write_seat_def split: sum.splits call.splits)

text \<open>The cases of a step, by what it shows.\<close>

lemma statement_step_cases [consumes 1, case_names silent answer]:
  assumes "statement_step s shown s'"
  obtains n where "shown = []" "bookings_seq (lk_db s) \<le> n" "lk_db s' = at_seq n (lk_db s)"
  | t x res where "shown = [(tx_call x, tx_now x, res)]" "lk_txs s t = Some x"
      "lock_step s (Ended t res) s'"
proof -
  from assms obtain l where l: "lock_step s l s'" "shown = replies_of s l"
    by (auto simp: statement_step_def)
  show ?thesis
  proof (cases l)
    case Quiet
    with l show ?thesis by (auto simp: replies_of_def elim: quiet_db intro: that(1))
  next
    case (Lost t)
    with l show ?thesis
      using that(1) [of "bookings_seq (lk_db s)"] by (simp add: replies_of_def lost_db)
  next
    case (Ended t res)
    moreover from l(1) Ended ended_in_progress obtain x where "lk_txs s t = Some x" by blast
    ultimately show ?thesis using l that(2) by (simp add: replies_of_def)
  qed
qed

subsection \<open>The serial execution\<close>

text \<open>
  The abstract system: one transaction of a use case after the other, each alone. A reservation
  may have drawn its booking id before transactions that commit earlier: the value it runs with is
  one of those drawn so far.
\<close>

inductive serial_step :: "db \<Rightarrow> reply list \<Rightarrow> db \<Rightarrow> bool" where
  whole: "n \<le> bookings_seq d \<Longrightarrow> bookings_seq d' = bookings_seq d \<Longrightarrow>
     transaction (atomic_tx c now) (at_seq n d) = (res, at_seq m d') \<Longrightarrow>
     serial_step d [(c, now, res)] d'"
| drawn: "bookings_seq d \<le> n \<Longrightarrow> serial_step d [] (at_seq n d)"

lemma statement_serial:
  assumes "lock_inv s" and "statement_step s shown s'"
  shows "serial_step (lk_db s) shown (lk_db s')"
  using assms(2)
proof (cases rule: statement_step_cases)
  case (silent n)
  then show ?thesis by (simp add: drawn)
next
  case (answer t x res)
  from ended_serializes [OF answer(3) assms(1) answer(2)] answer(1) show ?thesis
    by (auto intro: whole ended_sequence [OF answer(3)] simp del: atomic_tx.simps)
qed

interpretation serial: simulation lock_init statement_step lock_inv serial_step lk_db
proof unfold_locales
  show "lock_inv t" if "lock_inv s" "\<exists>shown. statement_step s shown t" for s t
    using that locks.inv_step by (auto simp: statement_step_def)
qed (auto intro: locks.inv_init run_one statement_serial)

subsection \<open>The ledger\<close>

text \<open>The event of the ledger that an answer stands for: one for every transaction that moved a row.\<close>

fun committed :: "reply \<Rightarrow> ticket_event list" where
  "committed (ReserveCall sid uid h, now, Inr (Some b)) = [EvReserve sid uid (bk_id b)]"
| "committed (MoveCall Confirm bid, now, Inr (Some b)) = [EvConfirm (bk_seatId b) bid]"
| "committed (MoveCall Cancel bid, now, Inr (Some b)) = [EvCancel (bk_seatId b) bid]"
| "committed (MoveCall Expire bid, now, Inr (Some b)) = [EvExpire (bk_seatId b) bid]"
| "committed (c, now, res) = []"

definition ticket_events :: "reply list \<Rightarrow> ticket_event list" where
  "ticket_events shown = concat (map committed shown)"

lemma ticket_events_simps [simp]:
  "ticket_events [] = []" "ticket_events [r] = committed r"
  "ticket_events (xs @ ys) = ticket_events xs @ ticket_events ys"
  by (simp_all add: ticket_events_def)

definition ledger_shows :: "ledger \<Rightarrow> reply list \<Rightarrow> ledger \<Rightarrow> bool" where
  "ledger_shows L shown L' \<longleftrightarrow> ledger_run L (ticket_events shown) = Some L'"

lemma committed_nothing: "\<forall>b. res \<noteq> Inr (Some b) \<Longrightarrow> committed (c, now, res) = []"
  by (cases "(c, now, res)" rule: committed.cases) auto

lemma ledger_of_at_seq [simp]: "ledger_of (at_seq n d) = ledger_of d"
  by (simp add: fun_eq_iff ledger_of_def live_bookings_def)

lemma move_ledger:
  assumes "transaction (atomic_tx (MoveCall k bid) now) d = (Inr (Some b), d')" and "consistent d"
  shows "ledger_run (ledger_of d) (committed (MoveCall k bid, now, Inr (Some b))) = Some (ledger_of d')"
proof -
  from assms(1) have tx: "atomic_tx (MoveCall k bid) now d = Inr (Some b, d')"
    by (auto simp: transaction_def split: sum.splits prod.splits)
  obtain c where "bk_status c \<in> move_source k" "ledger_of d (bk_seatId b) = ticket_of c"
      "bk_id c = bid" "bk_id b = bid" "bk_userId b = bk_userId c" "bk_status b = move_target k"
      "ledger_of d' = (ledger_of d)(bk_seatId b := ticket_of b)"
    by (rule booking_transition.tx_ledger [OF atomic_move_transition tx assms(2)])
  then show ?thesis by (cases k) (auto simp: ticket_of_def)
qed

text \<open>A committed transaction is its event; every other answer leaves the ledger alone.\<close>

lemma ended_commits:
  assumes "lock_step s (Ended t res) s'" and "lock_inv s" and "lk_txs s t = Some x"
  obtains "\<forall>b. res \<noteq> Inr (Some b)" "lk_db s' = lk_db s"
  | b r where "res = Inr (Some b)" "tx_booking x = Some b" "tx_seat x = Some r"
      "lk_db s' = write_booking (tx_call x) b (write_seat r (lk_db s))"
  using assms(1)
proof cases
  case (seat_not_there y k bid b d)
  with lock_invD(3) [OF assms(2,3)] assms(3) have "booking_written (lk_db s) k (tx_now x) bid b"
    by (simp add: txn_ok_move)
  with seat_not_there locked_booking_seat_hits [OF lock_invD(1) [OF assms(2)]] show ?thesis by blast
qed (use that assms(3) in auto)

lemma statement_ledger:
  assumes inv: "lock_inv s" and "statement_step s shown s'"
  shows "ledger_shows (ledger_of (lk_db s)) shown (ledger_of (lk_db s'))"
  using assms(2)
proof (cases rule: statement_step_cases)
  case (silent n)
  then show ?thesis by (simp add: ledger_shows_def)
next
  case (answer t x res)
  note con = lock_invD(1) [OF inv] and ok = lock_invD(3) [OF inv answer(2)]
  from answer(3) inv answer(2) show ?thesis
  proof (cases rule: ended_commits)
    case 1
    then show ?thesis by (simp add: ledger_shows_def answer(1) committed_nothing)
  next
    case (2 b r)
    show ?thesis
    proof (cases "tx_call x")
      case (ReserveCall sid uid h)
      note c = commit_reserve [OF con ok ReserveCall 2(2,3)]
      from c(2) obtain y where y: "seat_at (lk_db s) sid = Some y" "seat_status y = Available"
        by (auto simp: seat_written_def)
      from c(3) have b: "bk_seatId b = sid" "bk_userId b = uid" "bk_status b = Pending"
        by (cases b, simp add: booking_inserted_def)+
      have "bookings (lk_db s') = bookings (lk_db s) @ [b]" by (simp add: 2(4) c(1))
      from ledger_of_reserved [OF con y this b(1,3)] b(2) show ?thesis
        by (simp add: ledger_shows_def answer(1) 2(1) ReserveCall)
    next
      case (MoveCall k bid)
      note c = commit_move [OF con ok MoveCall 2(2,3)]
      from move_alone_succeeds [OF con c(2,3)]
      have "transaction (atomic_tx (MoveCall k bid) (tx_now x)) (lk_db s) = (Inr (Some b), lk_db s')"
        by (simp only: 2(4) c(1))
      from move_ledger [OF this con] show ?thesis
        by (simp add: ledger_shows_def answer(1) 2(1) MoveCall)
    qed
  qed
qed

definition released_between :: "reply list \<Rightarrow> bool" where
  "released_between shown \<longleftrightarrow> (\<forall>xs ys zs sid u b u' b'.
     ticket_events shown = xs @ EvReserve sid u b # ys @ EvReserve sid u' b' # zs \<longrightarrow>
     (\<exists>e\<in>set ys. gives_back e \<and> seat_of e = sid))"

lemma ledger_shows_run: "observed_run ledger_shows L shown L' \<Longrightarrow> ledger_shows L shown L'"
  by (induction rule: observed_run.induct) (simp_all add: ledger_shows_def ledger_run_append)

interpretation ledger: refined_safety lock_init statement_step lock_inv ledger_shows
    "\<lambda>s. ledger_of (lk_db s)" released_between
proof unfold_locales
  show "released_between shown" if "observed_run ledger_shows L shown L'" for L shown L'
    using ledger_shows_run [OF that] ledger_no_double_reserve
    by (auto simp: ledger_shows_def released_between_def)
qed (rule run_one, rule statement_ledger)

subsection \<open>The results\<close>

text \<open>
  Two buyers reserve seat 1 at the same time: both transactions have begun when the first one
  updates the seat, inserts its booking and commits, and the second is told the seat is taken.
\<close>

definition demo_replies :: "reply list" where
  "demo_replies = [(ReserveCall 1 1 300000, 0, Inr (Some demo_booking)),
     (ReserveCall 1 2 300000, 0, Inl (SeatUnavailableError 1))]"

definition demo_refused :: lock_state where
  "demo_refused = end_txn 1 demo_held demo_committed"

lemma demo_committed_simps [simp]:
  "lk_db demo_committed = demo_held" "lk_txs demo_committed 1 = Some (demo_tx 2)"
  by (simp_all del: One_nat_def add: demo_committed_def end_txn_def demo_inserted_def put_txn_def demo_defs
      write_booking_def write_seat_def at_seq_def bump_seat_def)

lemma quiet_shows_nothing: "lock_step s Quiet s' \<Longrightarrow> statement_step s [] s'"
  unfolding statement_step_def by (intro exI [of _ Quiet]) (simp add: replies_of_def)

lemma quiet_steps_run: "quiet_steps s s' \<Longrightarrow> observed_run statement_step s [] s'"
  by (induction rule: rtranclp_induct) (auto intro: run_silent quiet_shows_nothing)

lemma demo_run: "observed_run statement_step demo_lock_start demo_replies demo_refused"
proof -
  have "statement_step demo_inserted [(ReserveCall 1 1 300000, 0, Inr (Some demo_booking))] demo_committed"
    unfolding statement_step_def
    by (rule exI, rule conjI, rule demo_commit_step) (simp add: replies_of_def demo_tx_def new_txn_def)
  from run_more [OF quiet_steps_run [OF demo_inserted_quiet] this]
  have first: "observed_run statement_step demo_lock_start
      [(ReserveCall 1 1 300000, 0, Inr (Some demo_booking))] demo_committed" by simp
  have "reserveSeatRow 1 demo_held = Inr (None, demo_held)" by code_simp
  then have "lock_step demo_committed (Ended 1 (Inl (SeatUnavailableError 1))) demo_refused"
    using lock_step.seat_taken [of demo_committed 1 "demo_tx 2" 1 2 300000 demo_held]
    by (simp del: One_nat_def add: demo_refused_def demo_tx_def new_txn_def)
  then have "statement_step demo_committed [(ReserveCall 1 2 300000, 0, Inl (SeatUnavailableError 1))] demo_refused"
    unfolding statement_step_def
    by (intro exI conjI) (assumption, simp del: One_nat_def add: replies_of_def demo_tx_def new_txn_def)
  from run_more [OF first this] show ?thesis by (simp add: demo_replies_def)
qed

text \<open>
  C3. Serializability of whole runs, down to the statements: however the statements of any number
  of reservations, confirms, cancels and expiries interleave under row locks, with connections
  lost at any point, the answers given are those of the use cases' transactions run alone, one
  after the other in the order they ended, which leave the same tables; and the committed ones
  are a run of the ticket ledger that ends in the ledger of these tables.
\<close>

theorem interleaved_runs_serialize:
  assumes "lock_init s" and "observed_run statement_step s replies s'"
  shows "observed_run serial_step (lk_db s) replies (lk_db s') \<and>
    ledger_run (ledger_of (lk_db s)) (ticket_events replies) = Some (ledger_of (lk_db s'))"
  using serial.runs_from_init [OF assms] ledger_shows_run [OF ledger.runs_from_init [OF assms]]
  by (simp add: ledger_shows_def)

theorem interleaved_runs_serialize_witness:
  "observed_run serial_step demo_db demo_replies demo_held \<and>
   ledger_run (ledger_of demo_db) [EvReserve 1 1 1] = Some (ledger_of demo_held)"
  using interleaved_runs_serialize [OF demo_lock_init demo_run]
  by (simp add: demo_replies_def demo_refused_def ticket_events_def demo_booking_def)

text \<open>
  Of all the answers given, two that book the same seat have between them one that gave it back.
\<close>

theorem interleaved_reservations_exclusive:
  assumes "lock_init s" and "observed_run statement_step s replies s'"
    and "ticket_events replies = xs @ EvReserve sid u b # ys @ EvReserve sid u' b' # zs"
  shows "\<exists>e\<in>set ys. gives_back e \<and> seat_of e = sid"
  using ledger.run_safe [OF assms(1,2)] assms(3) unfolding released_between_def by blast

end
