(* ===== verification/Hold_Expiry.thy ===== *)
theory Hold_Expiry
  imports Booking_Usecases
begin

text \<open>
  The hold-expiry worker (\<open>infrastructure/queue/hold-expiry.worker.ts\<close>): the processor of a job,
  the handler of the \<open>failed\<close> event, and the start and stop of the single worker of a process.
  BullMQ itself (when it fires a job, how it retries) is not part of the repository: what the
  worker relies on is stated as the predicate \<open>bullmq_run\<close> on the outcomes of the attempts.
\<close>

subsection \<open>The processor and the failed handler\<close>

definition count_outcome :: "expiry_outcome \<Rightarrow> ('q, 'k) world \<Rightarrow> ('q, 'k) world" where
  "count_outcome oc w = w\<lparr>w_expiryJobs := (w_expiryJobs w)(oc := Suc (w_expiryJobs w oc))\<rparr>"

definition process_hold_job :: "hold_job \<Rightarrow> ('q, 'k) world \<Rightarrow> unit result \<times> ('q, 'k) world" where
  "process_hold_job job w =
     (case transaction (expireHold (job_bookingId job)) (w_db w) of
        (Inl e, d) \<Rightarrow> (Inl e, w\<lparr>w_db := d\<rparr>)
      | (Inr (Some result), d) \<Rightarrow> (Inr (), count_outcome Reverted (w\<lparr>w_db := d\<rparr>))
      | (Inr None, d) \<Rightarrow> (Inr (), count_outcome Noop (w\<lparr>w_db := d\<rparr>)))"

text \<open>
  The \<open>failed\<close> event carries the job, or \<open>undefined\<close> (\<open>None\<close>); \<open>opts.attempts\<close> may be absent.
\<close>

record failed_job =
  fj_attemptsMade :: int
  fj_attempts :: "int option"

definition on_failed :: "failed_job option \<Rightarrow> ('q, 'k) world \<Rightarrow> ('q, 'k) world" where
  "on_failed job w =
     (let attemptsMade = (case job of None \<Rightarrow> 0 | Some j \<Rightarrow> fj_attemptsMade j);
          maxAttempts = (case job of None \<Rightarrow> 1
                         | Some j \<Rightarrow> (case fj_attempts j of None \<Rightarrow> 1 | Some n \<Rightarrow> n))
      in if attemptsMade \<ge> maxAttempts then count_outcome Failed w else w)"

subsection \<open>The attempts of one job\<close>

text \<open>
  One attempt: the processor runs, or its connection breaks before the transaction commits
  (\<open>fault\<close>). A failed attempt reaches the handler with the number of attempts made so far,
  this one included. \<open>worker_run\<close> is a sequence of attempts, and returns which succeeded.
\<close>

definition worker_attempt ::
  "hold_job \<Rightarrow> int \<Rightarrow> js_error option \<Rightarrow> ('q, 'k) world \<Rightarrow> bool \<times> ('q, 'k) world" where
  "worker_attempt job made fault w =
     (case (case fault of Some e \<Rightarrow> (Inl e, w) | None \<Rightarrow> process_hold_job job w) of
        (Inr _, w') \<Rightarrow> (True, w')
      | (Inl e, w') \<Rightarrow>
          (False, on_failed (Some \<lparr>fj_attemptsMade = made + 1, fj_attempts = Some (job_attempts job)\<rparr>) w'))"

fun worker_run ::
  "hold_job \<Rightarrow> int \<Rightarrow> js_error option list \<Rightarrow> ('q, 'k) world \<Rightarrow> bool list \<times> ('q, 'k) world" where
  "worker_run job made [] w = ([], w)"
| "worker_run job made (f # fs) w =
     (let (ok, w1) = worker_attempt job made f w;
          (oks, w2) = worker_run job (made + 1) fs w1
      in (ok # oks, w2))"

text \<open>
  What BullMQ promises: a job is attempted until an attempt succeeds or \<open>attempts\<close> of them have
  failed.
\<close>

definition bullmq_run :: "int \<Rightarrow> bool list \<Rightarrow> bool" where
  "bullmq_run attempts oks \<longleftrightarrow> oks \<noteq> [] \<and> (\<forall>ok\<in>set (butlast oks). \<not> ok) \<and>
     int (length oks) \<le> attempts \<and> (last oks \<or> int (length oks) = attempts)"

subsection \<open>The module's worker\<close>

text \<open>
  \<open>let worker: Worker | null\<close>. \<open>create\<close> is the constructor. Stopping closes the worker, then the
  queue; the result lists what was closed, and the first rejection ends the function.
\<close>

datatype 'w closed = ClosedWorker 'w | ClosedQueue

definition startHoldExpiryWorker :: "'w \<Rightarrow> 'w option \<Rightarrow> 'w \<times> 'w option" where
  "startHoldExpiryWorker create worker =
     (case worker of Some w \<Rightarrow> (w, worker) | None \<Rightarrow> (create, Some create))"

definition stopHoldExpiryWorker ::
  "('w \<Rightarrow> js_error option) \<Rightarrow> js_error option \<Rightarrow> 'w option \<Rightarrow> js_error option \<times> 'w closed list \<times> 'w option" where
  "stopHoldExpiryWorker close_worker close_queue worker =
     (case worker of
        None \<Rightarrow> (close_queue, [ClosedQueue], None)
      | Some w \<Rightarrow>
          (case close_worker w of
             Some e \<Rightarrow> (Some e, [ClosedWorker w], None)
           | None \<Rightarrow> (close_queue, [ClosedWorker w, ClosedQueue], None)))"

subsection \<open>Lemmas\<close>

lemma count_outcome_simps [simp]:
  "w_db (count_outcome oc w) = w_db w"
  "w_expiryJobs (count_outcome oc w) x = (if x = oc then Suc (w_expiryJobs w x) else w_expiryJobs w x)"
  by (simp_all add: count_outcome_def)

text \<open>The three ways a processor call can end.\<close>

lemma process_hold_job_cases:
  obtains (thrown) e where "process_hold_job job w = (Inl e, w)"
      "expireHold (job_bookingId job) (w_db w) = Inl e"
  | (reverted) x d where "process_hold_job job w = (Inr (), count_outcome Reverted (w\<lparr>w_db := d\<rparr>))"
      "expireHold (job_bookingId job) (w_db w) = Inr (Some x, d)"
  | (noop) d where "process_hold_job job w = (Inr (), count_outcome Noop (w\<lparr>w_db := d\<rparr>))"
      "expireHold (job_bookingId job) (w_db w) = Inr (None, d)"
proof (cases "expireHold (job_bookingId job) (w_db w)")
  case (Inl e)
  then show ?thesis by (intro thrown) (simp_all add: process_hold_job_def transaction_def)
next
  case (Inr r)
  then show ?thesis
    by (cases r; cases "fst r")
      (auto simp: process_hold_job_def transaction_def intro: reverted noop)
qed

text \<open>The number of processed jobs that a process has counted, whatever their outcome.\<close>

definition handled :: "('q, 'k) world \<Rightarrow> nat" where
  "handled w = w_expiryJobs w Reverted + w_expiryJobs w Noop"

lemma worker_attempt_counts:
  assumes "worker_attempt job made fault w = (ok, w')"
  shows "handled w' = handled w + (if ok then 1 else 0)"
    and "w_expiryJobs w' Failed = w_expiryJobs w Failed + (if \<not> ok \<and> job_attempts job \<le> made + 1 then 1 else 0)"
    and "\<not> ok \<Longrightarrow> w_db w' = w_db w"
proof -
  have "handled w' = handled w + (if ok then 1 else 0) \<and>
      w_expiryJobs w' Failed = w_expiryJobs w Failed + (if \<not> ok \<and> job_attempts job \<le> made + 1 then 1 else 0) \<and>
      (\<not> ok \<longrightarrow> w_db w' = w_db w)"
  proof (cases fault)
    case None
    from process_hold_job_cases [of job w] show ?thesis
      by cases (use assms None in \<open>auto simp: worker_attempt_def on_failed_def handled_def\<close>)
  qed (use assms in \<open>auto simp: worker_attempt_def on_failed_def handled_def\<close>)
  then show "handled w' = handled w + (if ok then 1 else 0)"
    and "w_expiryJobs w' Failed = w_expiryJobs w Failed + (if \<not> ok \<and> job_attempts job \<le> made + 1 then 1 else 0)"
    and "\<not> ok \<Longrightarrow> w_db w' = w_db w"
    by simp_all
qed

lemma worker_run_counts:
  assumes "worker_run job made fs w = (oks, w')" and "oks \<noteq> []" and "\<forall>ok\<in>set (butlast oks). \<not> ok"
    and "made + int (length oks) \<le> job_attempts job"
  shows "handled w' = handled w + (if last oks then 1 else 0)
    \<and> w_expiryJobs w' Failed = w_expiryJobs w Failed
        + (if \<not> last oks \<and> made + int (length oks) = job_attempts job then 1 else 0)
    \<and> (\<not> last oks \<longrightarrow> w_db w' = w_db w)"
  using assms
proof (induction fs arbitrary: made w oks w')
  case (Cons f fs)
  obtain ok w1 where a: "worker_attempt job made f w = (ok, w1)" by (rule prod.exhaust)
  obtain oks1 w2 where r: "worker_run job (made + 1) fs w1 = (oks1, w2)" by (rule prod.exhaust)
  from Cons.prems(1) a r have oks: "oks = ok # oks1" "w' = w2" by (simp_all add: Let_def)
  note one = worker_attempt_counts [OF a]
  show ?case
  proof (cases "oks1 = []")
    case True
    with r have "w2 = w1" by (cases fs) (auto simp: Let_def split: prod.splits)
    with True oks one Cons.prems(4) show ?thesis by auto
  next
    case False
    with oks Cons.prems(3) have nok: "\<not> ok" and bl: "\<forall>ok\<in>set (butlast oks1). \<not> ok"
      by (auto split: if_splits)
    have len: "made + 1 + int (length oks1) \<le> job_attempts job"
      using Cons.prems(4) by (simp add: oks)
    from False have "0 < int (length oks1)" by simp
    with len have "\<not> job_attempts job \<le> made + 1" by linarith
    with one(2) one(1) one(3) [OF nok] nok
    have "handled w1 = handled w" "w_expiryJobs w1 Failed = w_expiryJobs w Failed" "w_db w1 = w_db w"
      by simp_all
    with Cons.IH [OF r False bl len] False show ?thesis by (simp add: oks add.assoc)
  qed
qed simp

subsection \<open>Properties\<close>

text \<open>
  One job, one count: however many of its attempts break, a hold-expiry job changes the
  outcome counters by exactly one in total. It counts as reverted or no-op when its last attempt
  succeeded, and as failed, once and not once per attempt, when all its attempts failed; then
  the database is as it was.
\<close>

theorem hold_job_counted_once:
  assumes "worker_run job 0 faults w = (oks, w')" and "bullmq_run (job_attempts job) oks"
  shows "(if last oks
      then handled w' = handled w + 1 \<and> w_expiryJobs w' Failed = w_expiryJobs w Failed
      else handled w' = handled w \<and> w_expiryJobs w' Failed = w_expiryJobs w Failed + 1 \<and>
           w_db w' = w_db w)"
  using worker_run_counts [OF assms(1)] assms(2) by (auto simp: bullmq_run_def)

definition demo_job :: hold_job where
  "demo_job = hold_expiry_job 1 300000 0"

theorem hold_job_counted_once_witness:
  "w_expiryJobs (snd (worker_run demo_job 0 (replicate 3 (Some (PlainError ''timeout''))) (demo_world demo_held))) Failed = 1"
proof -
  have "worker_run demo_job 0 (replicate 3 (Some (PlainError ''timeout''))) (demo_world demo_held)
      = ([False, False, False], snd (worker_run demo_job 0 (replicate 3 (Some (PlainError ''timeout''))) (demo_world demo_held)))"
    by (simp add: numeral_3_eq_3 worker_attempt_def Let_def)
  from hold_job_counted_once [OF this] show ?thesis
    by (simp add: bullmq_run_def demo_job_def hold_expiry_job_def demo_world_def)
qed

text \<open>
  C25. An abandoned hold is given back: the job that reserving a seat put on the queue is due at
  the booking's expiry, and processing it while nobody confirmed or cancelled makes the seat
  available again, leaves the booking expired, counts one reverted hold, and a second delivery
  of the same job is a no-op.
\<close>

theorem abandoned_hold_given_back:
  assumes "consistent (w_db w)" and "int4_ok seatId" and "can_insert (w_db w) seatId userId"
    and "versions_room (reserved_db (w_db w) (pending_booking (w_db w) seatId userId (t_hold + hold_ms) t_db))"
    and "seat_at (w_db w) seatId = Some s" and "seat_status s = Available"
    and "reserveSeat svc hold_ms seatId userId t_hold t_db t_sched t_event w = (Inr b, w1)"
    and "t_sched \<le> t_hold + hold_ms"
  shows "let job = hold_expiry_job (bk_id b) (t_hold + hold_ms) t_sched;
      (r, w2) = process_hold_job job w1;
      (r', w3) = process_hold_job job w2
    in w_queue w1 = snd (queue_add svc job (w_queue w)) \<and>
       Some (t_sched + job_delay job) = bk_holdExpiresAt b \<and>
       r = Inr () \<and> w_expiryJobs w2 Reverted = w_expiryJobs w1 Reverted + 1 \<and>
       seat_at (w_db w2) seatId = Some (s\<lparr>seat_version := seat_version s + 2\<rparr>) \<and>
       b\<lparr>bk_status := Expired\<rparr> \<in> set (bookings (w_db w2)) \<and>
       r' = Inr () \<and> w_db w3 = w_db w2"
proof -
  let ?b = "pending_booking (w_db w) seatId userId (t_hold + hold_ms) t_db"
  let ?d1 = "reserved_db (w_db w) ?b"
  let ?job = "hold_expiry_job (bk_id b) (t_hold + hold_ms) t_sched"
  have tx: "reserve_tx seatId userId (t_hold + hold_ms) t_db (w_db w) = Inr (?b, ?d1)"
    using assms(1,3,5,6) by (rule_tac reserve_tx_hit)
  with assms(2,5,7) have b: "b = ?b" and w1: "w1 = after_reserve svc ?b seatId userId (t_hold + hold_ms)
      t_sched t_event (w\<lparr>w_db := ?d1\<rparr>)"
    by (auto simp: reserveSeat_def reserve_check_eq transaction_def Let_def)
  have con: "consistent ?d1" using tx assms(1) by (rule reserve_tx_consistent)
  have at: "seat_at ?d1 (bk_seatId ?b) = Some (bump_seat Held s)"
    using assms(5) by (simp add: seat_at_move_seat)
  let ?d2 = "move_seat Available (bk_seatId ?b) (move_booking (set_status Expired) (bk_id ?b) ?d1)"
  have id: "int4_ok (bk_id ?b)" using seq_int4 [OF assms(1,3)] by simp
  have hit: "expireHold (bk_id ?b) ?d1 = Inr (Some \<lparr>er_booking = set_status Expired ?b,
      er_seat = Some (bump_seat Available (bump_seat Held s))\<rparr>, ?d2)"
    by (rule expireHold_hit [OF con assms(4) id _ refl _ at]) simp_all
  have miss: "expireHold (bk_id ?b) ?d2 = Inr (None, ?d2)"
    using expire_booking.tx_leaves [OF expireHold_tx [OF hit] con, of "{Pending}"] id
    by (intro expireHold_miss) auto
  have queue: "w_queue w1 = snd (queue_add svc ?job (w_queue w))"
    by (auto simp: w1 b after_reserve_def publishBookingEvent_def scheduleHoldExpiry_def
        split: prod.splits option.splits)
  have run1: "process_hold_job ?job w1 = (Inr (), count_outcome Reverted (w1\<lparr>w_db := ?d2\<rparr>))"
    using hit by (simp add: process_hold_job_def transaction_def hold_expiry_job_def b w1)
  have run2: "process_hold_job ?job (count_outcome Reverted (w1\<lparr>w_db := ?d2\<rparr>)) =
      (Inr (), count_outcome Noop ((count_outcome Reverted (w1\<lparr>w_db := ?d2\<rparr>))\<lparr>w_db := ?d2\<rparr>))"
    using miss by (simp add: process_hold_job_def transaction_def hold_expiry_job_def b)
  have seat: "seat_at ?d2 seatId = Some (s\<lparr>seat_version := seat_version s + 2\<rparr>)"
    using assms(5,6) by (cases s) (simp add: seat_at_move_seat bump_seat_def)
  have booking: "?b\<lparr>bk_status := Expired\<rparr> \<in> set (bookings ?d2)"
    by (auto simp: bookings_move_booking set_status_def image_iff)
  show ?thesis
    using queue run1 run2 seat booking hold_expiry_job_delay(2) [OF assms(8)] by (simp add: Let_def b)
qed

theorem abandoned_hold_given_back_witness:
  "let (r, w2) = process_hold_job demo_job (snd (reserveSeat quiet_services 300000 1 1 0 0 0 0 (demo_world demo_db)))
   in r = Inr () \<and> seat_at (w_db w2) 1 = Some (demo_seat 1 Available 2)"
proof -
  have "fst (reserveSeat quiet_services 300000 1 1 0 0 0 0 (demo_world demo_db)) = Inr demo_booking"
    by code_simp
  then have b: "reserveSeat quiet_services 300000 1 1 0 0 0 0 (demo_world demo_db) =
      (Inr demo_booking, snd (reserveSeat quiet_services 300000 1 1 0 0 0 0 (demo_world demo_db)))"
    by (simp add: prod_eq_iff)
  have room: "versions_room (reserved_db demo_db demo_booking)" by code_simp
  show ?thesis
    using abandoned_hold_given_back [OF _ _ _ _ _ _ b, of "demo_seat 1 Available 0"] room
    by (simp add: demo_facts demo_job_def demo_booking_def Let_def split: prod.splits)
qed

text \<open>
  A process has at most one worker: starting twice returns the first one, and stopping
  closes that worker before the queue and forgets it, so a later start makes a new one.
\<close>

theorem single_worker:
  "(let (w, worker) = startHoldExpiryWorker c1 None;
        (w', worker') = startHoldExpiryWorker c2 worker;
        (r, log, worker'') = stopHoldExpiryWorker (\<lambda>_. None) None worker'
    in w = c1 \<and> w' = c1 \<and> r = None \<and> log = [ClosedWorker c1, ClosedQueue] \<and>
       startHoldExpiryWorker c3 worker'' = (c3, Some c3))"
  by (simp add: startHoldExpiryWorker_def stopHoldExpiryWorker_def)

end
