(* ===== verification/Json.thy ===== *)
theory Json
  imports Errors Complex_Main
begin

text \<open>
  JSON values as the code meets them at run time, untyped: every property read, comparison and
  conversion the code makes is written out for all of them. \<open>JSON.parse\<close>, the text of a number,
  the number of a text and the ISO timestamp are the fields of the parameter \<open>js_lib\<close>.
\<close>

subsection \<open>Values and conversions\<close>

text \<open>
  A number is finite, or (an overflowing literal) an infinity. An object lists its own
  properties, the first occurrence of a name being the one that is read.
\<close>

datatype json =
    JNull
  | JBool bool
  | JNum "rat option"
  | JStr string
  | JArr "json list"
  | JObj "(string \<times> json) list"

record js_lib =
  JSON_parse :: "string \<Rightarrow> json option"                 \<comment> \<open>\<open>None\<close>: SyntaxError\<close>
  number_text :: "rat option \<Rightarrow> string"                   \<comment> \<open>\<open>String(n)\<close>\<close>
  text_number :: "string \<Rightarrow> rat option"                   \<comment> \<open>\<open>Number(s)\<close>, \<open>None\<close>: not finite\<close>
  iso_timestamp :: "json option \<Rightarrow> string option"         \<comment> \<open>\<open>None\<close>: RangeError or TypeError\<close>

definition SyntaxError :: js_error where
  "SyntaxError = PlainError ''SyntaxError''"

definition TypeError :: js_error where
  "TypeError = PlainError ''TypeError''"

definition RangeError :: js_error where
  "RangeError = PlainError ''RangeError''"

text \<open>
  \<open>v.name\<close> for the names the code reads, none of which is inherited: an own property of an
  object, \<open>undefined\<close> (\<open>None\<close>) on the other values, a TypeError on null.
\<close>

definition get_property :: "string \<Rightarrow> json \<Rightarrow> json option result" where
  "get_property name v =
     (case v of JNull \<Rightarrow> Inl TypeError | JObj ps \<Rightarrow> Inr (map_of ps name) | _ \<Rightarrow> Inr None)"

definition truthy :: "json option \<Rightarrow> bool" where
  "truthy v = (case v of
      None \<Rightarrow> False
    | Some JNull \<Rightarrow> False
    | Some (JBool b) \<Rightarrow> b
    | Some (JNum n) \<Rightarrow> n \<noteq> Some 0
    | Some (JStr s) \<Rightarrow> s \<noteq> ''''
    | Some _ \<Rightarrow> True)"

text \<open>
  The conversion of a value to a property key. An array is its elements joined with commas, null
  being empty there; an object is the usual text, unless an own \<open>toString\<close> hides the inherited
  one, which leaves no primitive to convert to.
\<close>

fun join_commas :: "string list \<Rightarrow> string" where
  "join_commas [] = ''''"
| "join_commas [x] = x"
| "join_commas (x # xs) = x @ '','' @ join_commas xs"

fun to_key :: "js_lib \<Rightarrow> json \<Rightarrow> string option" where
  "to_key lib JNull = Some ''null''"
| "to_key lib (JBool b) = Some (if b then ''true'' else ''false'')"
| "to_key lib (JNum n) = Some (number_text lib n)"
| "to_key lib (JStr s) = Some s"
| "to_key lib (JArr vs) =
     (let ks = map (\<lambda>v. if v = JNull then Some '''' else to_key lib v) vs
      in if None \<in> set ks then None else Some (join_commas (map the ks)))"
| "to_key lib (JObj ps) =
     (if map_of ps ''toString'' = None then Some ''[object Object]'' else None)"

subsection \<open>Lemmas\<close>

lemma get_property_simps [simp]:
  "get_property name (JObj ps) = Inr (map_of ps name)"
  "get_property name JNull = Inl TypeError"
  "get_property name (JStr s) = Inr None" "get_property name (JNum n) = Inr None"
  "get_property name (JBool b) = Inr None" "get_property name (JArr vs) = Inr None"
  by (simp_all add: get_property_def)

lemma truthy_simps [simp]:
  "\<not> truthy None" "\<not> truthy (Some JNull)" "truthy (Some (JObj ps))" "truthy (Some (JArr vs))"
  "truthy (Some (JBool b)) = b" "truthy (Some (JStr s)) \<longleftrightarrow> s \<noteq> ''''"
  "truthy (Some (JNum n)) \<longleftrightarrow> n \<noteq> Some 0"
  by (simp_all add: truthy_def)

lemma truthy_Some: "truthy v \<Longrightarrow> \<exists>w. v = Some w \<and> w \<noteq> JNull"
  by (auto simp: truthy_def split: option.splits json.splits)

lemma get_property_ok: "v \<noteq> JNull \<Longrightarrow> \<exists>w. get_property name v = Inr w"
  by (cases v) simp_all

end
