(* ===== verification/Zod.thy ===== *)
theory Zod
  imports Json
begin

text \<open>
  The zod schemas the code is built from (\<open>config/env.ts\<close>, the controllers), as functions from the
  input to the issues found or to the parsed value. All issues of an object's fields are
  collected; a check that finds the wrong type ends the checks of its field. The texts of the
  issues are zod's own; here they only name what is wrong. \<open>Number\<close> of a text is the field
  \<open>text_number\<close> of \<open>js_lib\<close>; the regular expressions behind \<open>z.url\<close> and \<open>z.email\<close> are parameters.
\<close>

definition issues_of :: "zod_issues + 'a \<Rightarrow> zod_issues" where
  "issues_of r = (case r of Inl i \<Rightarrow> i | Inr v \<Rightarrow> [])"

lemma issues_none [simp]: "issues_of (Inr v) = []" "issues_of (Inl i) = i"
  by (simp_all add: issues_of_def)

subsection \<open>Texts\<close>

definition any_text :: "string \<Rightarrow> zod_issues + string" where
  "any_text s = Inr s"

definition text_enum :: "string list \<Rightarrow> string \<Rightarrow> zod_issues + string" where
  "text_enum options s = (if s \<in> set options then Inr s else Inl [''invalid option''])"

text \<open>A text of a format that is checked by a regular expression.\<close>

definition url_text :: "(string \<Rightarrow> bool) \<Rightarrow> string \<Rightarrow> zod_issues + string" where
  "url_text valid s = (if valid s then Inr s else Inl [''invalid format''])"

definition min_text :: "nat \<Rightarrow> string \<Rightarrow> string \<Rightarrow> zod_issues + string" where
  "min_text n message s = (if length s < n then Inl [message] else Inr s)"

text \<open>\<open>z.string()\<close> on a value of a parsed body.\<close>

definition text_of :: "json option \<Rightarrow> zod_issues + string" where
  "text_of v = (case v of Some (JStr s) \<Rightarrow> Inr s | _ \<Rightarrow> Inl [''expected string''])"

subsection \<open>Numbers\<close>

text \<open>
  \<open>Number(v)\<close>, \<open>None\<close> when it is not finite; a value that cannot be converted stays what it is
  and is no number either.
\<close>

definition to_number :: "js_lib \<Rightarrow> json option \<Rightarrow> rat option" where
  "to_number lib v =
     (case v of
        None \<Rightarrow> None
      | Some JNull \<Rightarrow> Some 0
      | Some (JBool b) \<Rightarrow> Some (if b then 1 else 0)
      | Some (JNum n) \<Rightarrow> n
      | Some (JStr s) \<Rightarrow> text_number lib s
      | Some w \<Rightarrow> Option.bind (to_key lib w) (text_number lib))"

definition finite_number :: "rat option \<Rightarrow> zod_issues + rat" where
  "finite_number q = (case q of None \<Rightarrow> Inl [''expected number''] | Some n \<Rightarrow> Inr n)"

definition max_safe :: int where
  "max_safe = 9007199254740991"

text \<open>\<open>z.coerce.number().int().positive()\<close>, with \<open>.max(m)\<close> when a bound is given.\<close>

definition int_in :: "int option \<Rightarrow> rat option \<Rightarrow> zod_issues + int" where
  "int_in bound number =
     (case number of
        None \<Rightarrow> Inl [''expected number'']
      | Some q \<Rightarrow>
          if of_int \<lfloor>q\<rfloor> \<noteq> q then Inl [''expected int'']
          else (let n = \<lfloor>q\<rfloor>;
                    issues = (if \<bar>n\<bar> \<le> max_safe then [] else [''unsafe int'']) @
                      (if 0 < n then [] else [''too small'']) @
                      (case bound of None \<Rightarrow> [] | Some m \<Rightarrow> if n \<le> m then [] else [''too big''])
                in if issues = [] then Inr n else Inl issues))"

lemma int_in_Some:
  "int_in bound (Some q) = Inr n \<longleftrightarrow>
     q = of_int n \<and> 1 \<le> n \<and> n \<le> max_safe \<and> (\<forall>m. bound = Some m \<longrightarrow> n \<le> m)"
proof (cases "of_int \<lfloor>q\<rfloor> = q")
  case True
  then obtain k where k: "q = of_int k" by metis
  show ?thesis unfolding k by (cases bound) (auto simp: int_in_def Let_def split: if_splits)
qed (auto simp: int_in_def)

lemma int_in_ok:
  "int_in bound v = Inr n \<longleftrightarrow>
     v = Some (of_int n) \<and> 1 \<le> n \<and> n \<le> max_safe \<and> (\<forall>m. bound = Some m \<longrightarrow> n \<le> m)"
  by (cases v) (simp_all add: int_in_Some, simp add: int_in_def)

lemma int_in_no_empty: "int_in bound v \<noteq> Inl []"
  by (auto simp: int_in_def Let_def split: option.splits if_splits)

lemma int_in_issues: "issues_of (int_in bound v) = [] \<longleftrightarrow> (\<exists>n. int_in bound v = Inr n)"
  using int_in_no_empty [of bound v] by (cases "int_in bound v") auto

subsection \<open>Fields and objects\<close>

definition field_default :: "'a \<Rightarrow> (string \<Rightarrow> zod_issues + 'a) \<Rightarrow> string option \<Rightarrow> zod_issues + 'a" where
  "field_default dflt schema v = (case v of None \<Rightarrow> Inr dflt | Some s \<Rightarrow> schema s)"

definition field_required :: "(string \<Rightarrow> zod_issues + 'a) \<Rightarrow> string option \<Rightarrow> zod_issues + 'a" where
  "field_required schema v = (case v of None \<Rightarrow> Inl [''expected string''] | Some s \<Rightarrow> schema s)"

definition field_optional :: "('v \<Rightarrow> zod_issues + 'a) \<Rightarrow> 'v option \<Rightarrow> zod_issues + 'a option" where
  "field_optional schema v =
     (case v of None \<Rightarrow> Inr None | Some w \<Rightarrow> (case schema w of Inl i \<Rightarrow> Inl i | Inr x \<Rightarrow> Inr (Some x)))"

text \<open>A further check on the value of a field, and an object of two fields.\<close>

definition and_then :: "zod_issues + 'a \<Rightarrow> ('a \<Rightarrow> zod_issues + 'b) \<Rightarrow> zod_issues + 'b" where
  "and_then r f = (case r of Inl i \<Rightarrow> Inl i | Inr v \<Rightarrow> f v)"

definition two_fields :: "zod_issues + 'a \<Rightarrow> zod_issues + 'b \<Rightarrow> zod_issues + 'a \<times> 'b" where
  "two_fields r1 r2 =
     (case r1 of
        Inl i \<Rightarrow> Inl (i @ issues_of r2)
      | Inr x \<Rightarrow> (case r2 of Inl i \<Rightarrow> Inl i | Inr y \<Rightarrow> Inr (x, y)))"

definition object_of :: "json option \<Rightarrow> zod_issues + (string \<times> json) list" where
  "object_of v = (case v of Some (JObj ps) \<Rightarrow> Inr ps | _ \<Rightarrow> Inl [''expected object''])"

lemma object_of_ok: "object_of v = Inr ps \<longleftrightarrow> v = Some (JObj ps)"
  by (auto simp: object_of_def split: option.splits json.splits)

lemma text_of_ok: "text_of v = Inr s \<longleftrightarrow> v = Some (JStr s)"
  by (auto simp: text_of_def split: option.splits json.splits)

lemma format_ok: "url_text valid s = Inr t \<longleftrightarrow> t = s \<and> valid s" "min_text n m s = Inr t \<longleftrightarrow> t = s \<and> n \<le> length s"
  by (auto simp: url_text_def min_text_def)

lemma and_then_ok: "and_then r f = Inr y \<longleftrightarrow> (\<exists>x. r = Inr x \<and> f x = Inr y)"
  by (cases r) (simp_all add: and_then_def)

lemma two_fields_ok: "two_fields r1 r2 = Inr (x, y) \<longleftrightarrow> r1 = Inr x \<and> r2 = Inr y"
  by (cases r1; cases r2) (auto simp: two_fields_def)

lemma field_optional_ok:
  "field_optional schema v = Inr None \<longleftrightarrow> v = None"
  "field_optional schema v = Inr (Some x) \<longleftrightarrow> (\<exists>w. v = Some w \<and> schema w = Inr x)"
  by (auto simp: field_optional_def split: option.splits sum.splits)

lemmas zod_ok = int_in_ok object_of_ok text_of_ok format_ok and_then_ok two_fields_ok field_optional_ok

subsection \<open>A library that reads decimal texts\<close>

definition page_lib :: js_lib where
  "page_lib = \<lparr>JSON_parse = (\<lambda>s. None), number_text = (\<lambda>n. ''''), text_number = (\<lambda>s. Some (of_int (read_int s))),
     iso_timestamp = (\<lambda>v. None)\<rparr>"

end
