(* ===== verification/Validation.thy ===== *)
theory Validation
  imports Zod Database
begin

text \<open>
  The zod schemas of the controllers (\<open>modules/*/interface/*.controller.ts\<close>): the parsed body, the
  path parameter or the query string of a request, to the issues or to the values the handler
  goes on with. The conversion of texts to numbers, the email pattern and \<open>prettifyError\<close> are the
  parameter \<open>schemas\<close>.
\<close>

record schemas =
  sc_lib :: js_lib
  valid_email :: "string \<Rightarrow> bool"
  prettifyError :: "zod_issues \<Rightarrow> string"

definition reserveSeatSchema :: "schemas \<Rightarrow> json option \<Rightarrow> zod_issues + int" where
  "reserveSeatSchema sc body =
     and_then (object_of body) (\<lambda>ps. int_in None (to_number (sc_lib sc) (map_of ps ''seatId'')))"

definition bookingIdParamSchema :: "schemas \<Rightarrow> string \<Rightarrow> zod_issues + int" where
  "bookingIdParamSchema sc bookingId = int_in None (to_number (sc_lib sc) (Some (JStr bookingId)))"

definition eventIdParamSchema :: "schemas \<Rightarrow> string \<Rightarrow> zod_issues + int" where
  "eventIdParamSchema sc eventId = int_in None (to_number (sc_lib sc) (Some (JStr eventId)))"

text \<open>A name of the query string: absent, a text, or the array of the texts it is given.\<close>

definition query_value :: "(string \<times> string) list \<Rightarrow> string \<Rightarrow> json option" where
  "query_value q name =
     (case map snd (filter (\<lambda>p. fst p = name) q) of
        [] \<Rightarrow> None
      | [s] \<Rightarrow> Some (JStr s)
      | ss \<Rightarrow> Some (JArr (map JStr ss)))"

definition status_enum :: "json \<Rightarrow> zod_issues + seat_status" where
  "status_enum v =
     (case v of
        JStr s \<Rightarrow>
          (case map_of [(''available'', Available), (''held'', Held), (''booked'', Booked)] s of
             None \<Rightarrow> Inl [''invalid option''] | Some st \<Rightarrow> Inr st)
      | _ \<Rightarrow> Inl [''invalid option''])"

definition seatsQuerySchema ::
  "schemas \<Rightarrow> (string \<times> string) list \<Rightarrow> zod_issues + (seat_status option \<times> nat option)" where
  "seatsQuerySchema sc q =
     two_fields (field_optional status_enum (query_value q ''status''))
       (field_optional (\<lambda>v. and_then (int_in (Some 1000) (to_number (sc_lib sc) (Some v))) (\<lambda>n. Inr (nat n)))
          (query_value q ''limit''))"

definition credentialsSchema :: "schemas \<Rightarrow> json option \<Rightarrow> zod_issues + (string \<times> string)" where
  "credentialsSchema sc body =
     and_then (object_of body) (\<lambda>ps.
       two_fields (and_then (text_of (map_of ps ''email'')) (url_text (valid_email sc)))
         (and_then (text_of (map_of ps ''password'')) (min_text 8 ''too small'')))"

subsection \<open>What the schemas accept\<close>

definition safe_id :: "int \<Rightarrow> bool" where
  "safe_id n \<longleftrightarrow> 1 \<le> n \<and> n \<le> max_safe"

lemma reserveSeatSchema_ok:
  "reserveSeatSchema sc body = Inr n \<longleftrightarrow>
     (\<exists>ps. body = Some (JObj ps) \<and> to_number (sc_lib sc) (map_of ps ''seatId'') = Some (of_int n)) \<and> safe_id n"
  by (auto simp: reserveSeatSchema_def zod_ok safe_id_def)

lemma idParamSchema_ok:
  "bookingIdParamSchema sc p = Inr n \<longleftrightarrow> text_number (sc_lib sc) p = Some (of_int n) \<and> safe_id n"
  "eventIdParamSchema sc p = Inr n \<longleftrightarrow> text_number (sc_lib sc) p = Some (of_int n) \<and> safe_id n"
  by (auto simp: bookingIdParamSchema_def eventIdParamSchema_def zod_ok safe_id_def to_number_def)

lemma status_enum_ok: "status_enum v = Inr st \<longleftrightarrow> v = JStr (seat_status_text st)"
  by (cases st) (auto simp: status_enum_def split: json.splits option.splits if_splits)

lemma seatsQuerySchema_ok:
  "seatsQuerySchema sc q = Inr (st, limit) \<longleftrightarrow>
     query_value q ''status'' = map_option (\<lambda>s. JStr (seat_status_text s)) st \<and>
     (case limit of
        None \<Rightarrow> query_value q ''limit'' = None
      | Some n \<Rightarrow> (\<exists>v. query_value q ''limit'' = Some v \<and> to_number (sc_lib sc) (Some v) = Some (of_nat n)) \<and>
          1 \<le> n \<and> n \<le> 1000)"
proof -
  have "(\<exists>k. int_in (Some 1000) w = Inr k \<and> nat k = n) \<longleftrightarrow> w = Some (of_nat n) \<and> 1 \<le> n \<and> n \<le> 1000" for w n
  proof
    assume "\<exists>k. int_in (Some 1000) w = Inr k \<and> nat k = n"
    then obtain k where "w = Some (of_int k)" "1 \<le> k" "k \<le> 1000" "nat k = n" by (auto simp: zod_ok)
    then show "w = Some (of_nat n) \<and> 1 \<le> n \<and> n \<le> 1000" by auto
  next
    assume "w = Some (of_nat n) \<and> 1 \<le> n \<and> n \<le> 1000"
    then show "\<exists>k. int_in (Some 1000) w = Inr k \<and> nat k = n"
      by (intro exI [of _ "int n"]) (auto simp: zod_ok max_safe_def)
  qed
  then show ?thesis
    by (cases st; cases limit) (auto simp: seatsQuerySchema_def zod_ok status_enum_ok)
qed

lemma credentialsSchema_ok:
  "credentialsSchema sc body = Inr (email, password) \<longleftrightarrow>
     (\<exists>ps. body = Some (JObj ps) \<and> map_of ps ''email'' = Some (JStr email) \<and>
        map_of ps ''password'' = Some (JStr password)) \<and> valid_email sc email \<and> 8 \<le> length password"
  by (auto simp: credentialsSchema_def zod_ok)

text \<open>A library whose \<open>Number\<close> reads the decimal text of an id.\<close>

definition number_reads_ids :: "js_lib \<Rightarrow> bool" where
  "number_reads_ids lib \<longleftrightarrow> (\<forall>i. 0 < i \<and> i \<le> int4_max \<longrightarrow> text_number lib (show_int i) = Some (of_int i))"

lemma page_lib_reads: "number_reads_ids page_lib"
  by (simp add: number_reads_ids_def page_lib_def)

lemma id_param_read:
  "number_reads_ids (sc_lib sc) \<Longrightarrow> 1 \<le> n \<Longrightarrow> n \<le> int4_max \<Longrightarrow>
   bookingIdParamSchema sc (show_int n) = Inr n \<and> eventIdParamSchema sc (show_int n) = Inr n"
  by (simp add: idParamSchema_ok safe_id_def number_reads_ids_def int4_max_def max_safe_def)

lemma seat_body_read:
  "1 \<le> n \<Longrightarrow> n \<le> int4_max \<Longrightarrow>
   reserveSeatSchema sc (Some (JObj [(''seatId'', JNum (Some (of_int n)))])) = Inr n"
  by (simp add: reserveSeatSchema_ok safe_id_def to_number_def int4_max_def max_safe_def)

end
