(* ===== verification/Realtime.thy ===== *)
theory Realtime
  imports Validation Complex_Main
begin

text \<open>
  The live seat channel: the registry of rooms (\<open>infrastructure/realtime/seat-broadcaster.ts\<close>)
  and the WebSocket handler that enters and leaves them
  (\<open>modules/catalog/interface/live.controller.ts\<close>). A JavaScript \<open>Set\<close> is a list without
  repetition in insertion order, a \<open>Map\<close> is a partial function; the keys of the map are finite
  numbers. Sockets belong to the \<open>ws\<close> package: the record \<open>sockets\<close> is the parameter that stands
  for their \<open>readyState\<close> and \<open>send\<close>.
\<close>

subsection \<open>The registry of rooms\<close>

type_synonym 'k rooms = "rat \<rightharpoonup> 'k list"

definition set_add :: "'k \<Rightarrow> 'k list \<Rightarrow> 'k list" where
  "set_add s xs = (if s \<in> set xs then xs else xs @ [s])"

definition set_delete :: "'k \<Rightarrow> 'k list \<Rightarrow> 'k list" where
  "set_delete s xs = filter (\<lambda>x. x \<noteq> s) xs"

definition subscribe :: "rat \<Rightarrow> 'k \<Rightarrow> 'k rooms \<Rightarrow> 'k rooms" where
  "subscribe eventId socket rooms =
     (let rooms' = (if rooms eventId = None then rooms(eventId \<mapsto> []) else rooms)
      in rooms'(eventId \<mapsto> set_add socket (the (rooms' eventId))))"

definition unsubscribe :: "rat \<Rightarrow> 'k \<Rightarrow> 'k rooms \<Rightarrow> 'k rooms" where
  "unsubscribe eventId socket rooms =
     (case rooms eventId of
        None \<Rightarrow> rooms
      | Some room \<Rightarrow>
          (let room' = set_delete socket room
           in if room' = [] then rooms(eventId := None) else rooms(eventId \<mapsto> room')))"

definition room_members :: "'k rooms \<Rightarrow> rat \<Rightarrow> 'k list" where
  "room_members rooms eventId = (case rooms eventId of None \<Rightarrow> [] | Some room \<Rightarrow> room)"

text \<open>\<open>roomSizeForTest\<close>: \<open>rooms.get(eventId)?.size ?? 0\<close>.\<close>

definition roomSizeForTest :: "'k rooms \<Rightarrow> rat \<Rightarrow> nat" where
  "roomSizeForTest rooms eventId = (case rooms eventId of None \<Rightarrow> 0 | Some room \<Rightarrow> length room)"

subsection \<open>Broadcasting\<close>

text \<open>
  The message as the structure \<open>JSON.stringify\<close> is applied to. \<open>seatId\<close> is any number; \<open>None\<close>
  is one that is not finite.
\<close>

record seat_update =
  su_seatId :: "rat option"
  su_eventId :: rat
  su_status :: string

record ('k, 'n) sockets =
  ws_readyState :: "'k \<Rightarrow> 'n \<Rightarrow> int"
  ws_send :: "'k \<Rightarrow> seat_update \<Rightarrow> 'n \<Rightarrow> js_error option \<times> 'n"

fun send_all ::
  "('k, 'n) sockets \<Rightarrow> seat_update \<Rightarrow> 'k list \<Rightarrow> 'n \<Rightarrow> js_error option \<times> 'n" where
  "send_all sk msg [] n = (None, n)"
| "send_all sk msg (s # ss) n =
     (if ws_readyState sk s n = 1
      then (case ws_send sk s msg n of
              (Some e, n') \<Rightarrow> (Some e, n')
            | (None, n') \<Rightarrow> send_all sk msg ss n')
      else send_all sk msg ss n)"

definition broadcastSeatUpdate ::
  "('k, 'n) sockets \<Rightarrow> 'k rooms \<Rightarrow> seat_update \<Rightarrow> 'n \<Rightarrow> js_error option \<times> 'n" where
  "broadcastSeatUpdate sk rooms msg n =
     (case rooms (su_eventId msg) of
        None \<Rightarrow> (None, n)
      | Some room \<Rightarrow> if length room = 0 then (None, n) else send_all sk msg room n)"

subsection \<open>The contract of the registry\<close>

text \<open>
  What the WebSocket handler and the CDC consumer rely on: a family of sets, one per event, in
  which each operation changes one membership. The client fact is about histories: a socket is
  in a room exactly when its latest operation on that room was to enter it.
\<close>

datatype 'k room_op = Enter rat 'k | Leave rat 'k

fun room_key :: "'k room_op \<Rightarrow> rat \<times> 'k" where
  "room_key (Enter e s) = (e, s)"
| "room_key (Leave e s) = (e, s)"

fun enters :: "'k room_op \<Rightarrow> bool" where
  "enters (Enter e s) = True"
| "enters (Leave e s) = False"

lemma split_snoc:
  "(\<exists>us v vs. xs @ [x] = us @ v # vs \<and> P v \<and> Q vs) \<longleftrightarrow>
     (P x \<and> Q []) \<or> (\<exists>us v vs. xs = us @ v # vs \<and> P v \<and> Q (vs @ [x]))" (is "?L \<longleftrightarrow> ?R")
proof
  assume ?L
  then obtain us v vs where *: "xs @ [x] = us @ v # vs" "P v" "Q vs" by blast
  then show ?R by (cases vs rule: rev_cases) auto
next
  assume ?R
  then show ?L by (metis append.assoc append_Cons)
qed

locale membership_registry =
  fixes nobody :: 'r
    and enter :: "rat \<Rightarrow> 'k \<Rightarrow> 'r \<Rightarrow> 'r"
    and leave :: "rat \<Rightarrow> 'k \<Rightarrow> 'r \<Rightarrow> 'r"
    and members :: "'r \<Rightarrow> rat \<Rightarrow> 'k list"
  assumes members_nobody: "members nobody e = []"
    and members_enter: "set (members (enter e s r) e') = (if e' = e then insert s (set (members r e')) else set (members r e'))"
    and members_leave: "set (members (leave e s r) e') = (if e' = e then set (members r e') - {s} else set (members r e'))"
    and distinct_enter: "distinct (members r e') \<Longrightarrow> distinct (members (enter e s r) e')"
    and distinct_leave: "distinct (members r e') \<Longrightarrow> distinct (members (leave e s r) e')"
begin

definition apply_op :: "'k room_op \<Rightarrow> 'r \<Rightarrow> 'r" where
  "apply_op op r = (case op of Enter e s \<Rightarrow> enter e s r | Leave e s \<Rightarrow> leave e s r)"

lemma apply_op_members:
  "s \<in> set (members (apply_op op r) e) \<longleftrightarrow>
     (if room_key op = (e, s) then enters op else s \<in> set (members r e))"
  by (cases op) (auto simp: apply_op_def members_enter members_leave)

lemma history_distinct: "distinct (members (fold apply_op ops nobody) e)"
proof (induction ops rule: rev_induct)
  case (snoc op ops)
  then show ?case
    by (cases op) (simp_all add: apply_op_def distinct_enter distinct_leave)
qed (simp add: members_nobody)

lemma history_members:
  "s \<in> set (members (fold apply_op ops nobody) e) \<longleftrightarrow>
     (\<exists>xs op ys. ops = xs @ op # ys \<and> (room_key op = (e, s) \<and> enters op) \<and>
        (e, s) \<notin> room_key ` set ys)"
proof (induction ops rule: rev_induct)
  case (snoc op ops)
  then show ?case
    unfolding split_snoc [where P = "\<lambda>op. room_key op = (e, s) \<and> enters op"]
    by (auto simp: apply_op_members)
qed (simp add: members_nobody)

end

subsection \<open>The rooms meet the contract\<close>

lemma room_members_subscribe:
  "room_members (subscribe e s rooms) e' =
     (if e' = e then set_add s (room_members rooms e) else room_members rooms e')"
  by (simp add: room_members_def subscribe_def Let_def split: option.splits)

lemma room_members_unsubscribe:
  "room_members (unsubscribe e s rooms) e' =
     (if e' = e then set_delete s (room_members rooms e) else room_members rooms e')"
  by (auto simp: room_members_def unsubscribe_def Let_def set_delete_def split: option.splits)

lemma set_add_simps [simp]: "set (set_add s xs) = insert s (set xs)" "distinct (set_add s xs) = distinct xs"
  by (auto simp: set_add_def)

lemma set_delete_simps [simp]:
  "set (set_delete s xs) = set xs - {s}" "distinct xs \<Longrightarrow> distinct (set_delete s xs)"
  by (auto simp: set_delete_def)

interpretation live_rooms: membership_registry Map.empty subscribe unsubscribe room_members
  by unfold_locales (auto simp: room_members_subscribe room_members_unsubscribe, simp add: room_members_def)

text \<open>No room is ever kept empty.\<close>

definition no_empty_room :: "'k rooms \<Rightarrow> bool" where
  "no_empty_room rooms \<longleftrightarrow> (\<forall>e. rooms e \<noteq> Some [])"

lemma no_empty_room_subscribe: "no_empty_room rooms \<Longrightarrow> no_empty_room (subscribe e s rooms)"
  by (auto simp: no_empty_room_def subscribe_def Let_def set_add_def split: if_splits)

lemma no_empty_room_unsubscribe: "no_empty_room rooms \<Longrightarrow> no_empty_room (unsubscribe e s rooms)"
  by (auto simp: no_empty_room_def unsubscribe_def Let_def split: option.splits)

lemma no_empty_room_members: "no_empty_room rooms \<Longrightarrow> rooms e = None \<longleftrightarrow> room_members rooms e = []"
  by (auto simp: no_empty_room_def room_members_def split: option.splits)

lemma roomSizeForTest_members: "roomSizeForTest rooms e = length (room_members rooms e)"
  by (simp add: roomSizeForTest_def room_members_def split: option.splits)

subsection \<open>The WebSocket handler\<close>

text \<open>
  The route parameter goes through \<open>eventIdParamSchema.safeParse\<close>. The handler closes the socket
  or registers a close listener for the event it subscribed to.
\<close>

datatype handled_socket = Rejected int string | Watching int

definition liveSeatsHandler ::
  "schemas \<Rightarrow> string \<Rightarrow> 'k \<Rightarrow> 'k rooms \<Rightarrow> handled_socket \<times> 'k rooms" where
  "liveSeatsHandler sc param socket rooms =
     (case eventIdParamSchema sc param of
        Inl issues \<Rightarrow> (Rejected 1008 ''invalid eventId'', rooms)
      | Inr eventId \<Rightarrow> (Watching eventId, subscribe (of_int eventId) socket rooms))"

definition on_close :: "handled_socket \<Rightarrow> 'k \<Rightarrow> 'k rooms \<Rightarrow> 'k rooms" where
  "on_close h socket rooms =
     (case h of Rejected code reason \<Rightarrow> rooms
      | Watching eventId \<Rightarrow> unsubscribe (of_int eventId) socket rooms)"

text \<open>
  Connections come and go: each socket reaches the handler once and emits \<open>close\<close> at most once.
\<close>

record 'k live =
  lv_rooms :: "'k rooms"
  lv_handled :: "'k \<rightharpoonup> handled_socket"
  lv_closed :: "'k set"

inductive live_step :: "'k live \<Rightarrow> 'k live \<Rightarrow> bool" where
  connect: "lv_handled v s = None \<Longrightarrow> liveSeatsHandler sc param s (lv_rooms v) = (h, rooms) \<Longrightarrow>
     live_step v (v\<lparr>lv_rooms := rooms, lv_handled := (lv_handled v)(s \<mapsto> h)\<rparr>)"
| close: "lv_handled v s = Some h \<Longrightarrow> s \<notin> lv_closed v \<Longrightarrow>
     live_step v (v\<lparr>lv_rooms := on_close h s (lv_rooms v), lv_closed := insert s (lv_closed v)\<rparr>)"

definition live_init :: "'k live \<Rightarrow> bool" where
  "live_init v \<longleftrightarrow> v = \<lparr>lv_rooms = Map.empty, lv_handled = Map.empty, lv_closed = {}\<rparr>"

definition watching :: "'k live \<Rightarrow> rat \<Rightarrow> 'k \<Rightarrow> bool" where
  "watching v e s \<longleftrightarrow> s \<notin> lv_closed v \<and>
     (case lv_handled v s of Some (Watching i) \<Rightarrow> of_int i = e | _ \<Rightarrow> False)"

definition live_inv :: "'k live \<Rightarrow> bool" where
  "live_inv v \<longleftrightarrow> no_empty_room (lv_rooms v) \<and> lv_closed v \<subseteq> dom (lv_handled v) \<and>
     (\<forall>e. distinct (room_members (lv_rooms v) e)) \<and>
     (\<forall>e s. s \<in> set (room_members (lv_rooms v) e) \<longleftrightarrow> watching v e s)"

lemma live_inv_init: "live_init v \<Longrightarrow> live_inv v"
  by (auto simp: live_init_def live_inv_def no_empty_room_def room_members_def watching_def)

lemma live_inv_step:
  assumes "live_inv v" and "live_step v v'"
  shows "live_inv v'"
  using assms(2,1)
proof (induction rule: live_step.induct)
  case (connect v s sc param h rooms)
  then have fresh: "s \<notin> lv_closed v" "\<And>e. \<not> watching v e s" by (auto simp: live_inv_def watching_def)
  then have w: "watching (v\<lparr>lv_rooms := rooms, lv_handled := (lv_handled v)(s \<mapsto> h)\<rparr>) e s' \<longleftrightarrow>
      (if s' = s then (case h of Watching i \<Rightarrow> of_int i = e | _ \<Rightarrow> False) else watching v e s')" for e s'
    by (simp add: watching_def)
  show ?case
  proof (cases "eventIdParamSchema sc param")
    case (Inl issues)
    with connect fresh show ?thesis by (auto simp: liveSeatsHandler_def live_inv_def w)
  next
    case (Inr i)
    with connect have h: "h = Watching i" "rooms = subscribe (of_int i) s (lv_rooms v)"
      by (simp_all add: liveSeatsHandler_def)
    from connect have inv: "no_empty_room (lv_rooms v)" "lv_closed v \<subseteq> dom (lv_handled v)"
      "distinct (room_members (lv_rooms v) e)" "s' \<in> set (room_members (lv_rooms v) e) \<longleftrightarrow> watching v e s'" for e s'
      by (simp_all add: live_inv_def)
    show ?thesis
      unfolding live_inv_def w using subset_insertI2 [OF inv(2), of s] fresh
      by (auto simp: h no_empty_room_subscribe live_rooms.members_enter live_rooms.distinct_enter inv
          split: if_splits)
  qed
next
  case (close v s h)
  then have w: "watching (v\<lparr>lv_rooms := on_close h s (lv_rooms v), lv_closed := insert s (lv_closed v)\<rparr>) e s' \<longleftrightarrow>
      s' \<noteq> s \<and> watching v e s'" for e s'
    by (auto simp: watching_def)
  from close have inv: "no_empty_room (lv_rooms v)" "lv_closed v \<subseteq> dom (lv_handled v)"
    "distinct (room_members (lv_rooms v) e)" "s' \<in> set (room_members (lv_rooms v) e) \<longleftrightarrow> watching v e s'" for e s'
    by (simp_all add: live_inv_def)
  have only: "watching v e s \<Longrightarrow> \<exists>i. h = Watching i \<and> of_int i = e" for e
    using close by (auto simp: watching_def split: handled_socket.splits)
  show ?case
  proof (cases h)
    case (Rejected code reason)
    then have "\<not> watching v e s" for e using only by blast
    with inv close(1) Rejected show ?thesis unfolding live_inv_def w by (auto simp: on_close_def)
  next
    case (Watching i)
    with inv only close(1) show ?thesis
      unfolding live_inv_def w
      by (auto simp: on_close_def no_empty_room_unsubscribe live_rooms.members_leave
          live_rooms.distinct_leave split: if_splits)
  qed
qed

interpretation live_channel: invariant_system live_init live_step live_inv
  by unfold_locales (auto intro: live_inv_init live_inv_step)

subsection \<open>Properties\<close>

text \<open>
  The registry is the set of sockets that entered a room and have not left it since: after
  any history of subscriptions and unsubscriptions a socket is in the room of an event exactly
  when its latest operation on that room was a subscription, and no room holds a socket twice.
\<close>

theorem rooms_follow_history:
  "let rooms = fold (\<lambda>op r. case op of Enter e s \<Rightarrow> subscribe e s r | Leave e s \<Rightarrow> unsubscribe e s r) ops Map.empty
   in distinct (room_members rooms e) \<and>
     (s \<in> set (room_members rooms e) \<longleftrightarrow>
       (\<exists>xs op ys. ops = xs @ op # ys \<and> (room_key op = (e, s) \<and> enters op) \<and> (e, s) \<notin> room_key ` set ys))"
proof -
  have *: "live_rooms.apply_op = (\<lambda>op r. case op of Enter e s \<Rightarrow> subscribe e s r | Leave e s \<Rightarrow> unsubscribe e s r)"
    by (simp add: fun_eq_iff live_rooms.apply_op_def)
  from live_rooms.history_distinct [of ops e] live_rooms.history_members [of s ops e]
  show ?thesis unfolding Let_def * by blast
qed

text \<open>
  What the properties assume of the sockets: \<open>records sk ready\<close> says that \<open>send\<close> delivers the
  message and never throws, and that \<open>readyState\<close> does not change during a broadcast.
\<close>

definition records :: "('k, ('k \<times> seat_update) list) sockets \<Rightarrow> ('k \<Rightarrow> int) \<Rightarrow> bool" where
  "records sk ready \<longleftrightarrow> (\<forall>s m n. ws_send sk s m n = (None, n @ [(s, m)])) \<and>
     (\<forall>s n. ws_readyState sk s n = ready s)"

lemma send_all_records:
  "records sk ready \<Longrightarrow>
    send_all sk msg room n = (None, n @ map (\<lambda>s. (s, msg)) (filter (\<lambda>s. ready s = 1) room))"
  by (induction room arbitrary: n) (simp_all add: records_def)

lemma broadcast_records:
  "records sk ready \<Longrightarrow> broadcastSeatUpdate sk rooms msg n =
     (None, n @ map (\<lambda>s. (s, msg)) (filter (\<lambda>s. ready s = 1) (room_members rooms (su_eventId msg))))"
  by (simp add: broadcastSeatUpdate_def room_members_def send_all_records split: option.splits)

lemma count_list_distinct: "distinct xs \<Longrightarrow> count_list xs x = (if x \<in> set xs then 1 else 0)"
  by (induction xs) auto

text \<open>
  Exact delivery: in every reachable state of the live channel a broadcast about an event
  sends the message once to each open socket that watches this event and to no other socket.
\<close>

theorem broadcast_exact_delivery:
  assumes "reachable_from live_init live_step v" and "records sk ready"
  shows "\<exists>sent. broadcastSeatUpdate sk (lv_rooms v) msg n = (None, n @ map (\<lambda>s. (s, msg)) sent) \<and>
    (\<forall>s. count_list sent s = (if watching v (su_eventId msg) s \<and> ready s = 1 then 1 else 0))"
proof -
  let ?sent = "filter (\<lambda>s. ready s = 1) (room_members (lv_rooms v) (su_eventId msg))"
  from live_channel.reachable_inv [OF assms(1)]
  have "distinct ?sent" "s \<in> set ?sent \<longleftrightarrow> watching v (su_eventId msg) s \<and> ready s = 1" for s
    by (auto simp: live_inv_def)
  with broadcast_records [OF assms(2)] show ?thesis
    by (intro exI [of _ ?sent]) (simp add: count_list_distinct)
qed

text \<open>Two sockets on event 1, the second closed again, and a third that asked for no event.\<close>

definition demo_live :: "nat live" where
  "demo_live = \<lparr>lv_rooms = [1 \<mapsto> [0]],
     lv_handled = [0 \<mapsto> Watching 1, 1 \<mapsto> Watching 1, 2 \<mapsto> Rejected 1008 ''invalid eventId''],
     lv_closed = {1}\<rparr>"

definition recording_sockets :: "(nat, (nat \<times> seat_update) list) sockets" where
  "recording_sockets = \<lparr>ws_readyState = (\<lambda>s n. 1), ws_send = (\<lambda>s m n. (None, n @ [(s, m)]))\<rparr>"

lemma live_ids_read:
  "eventIdParamSchema \<lparr>sc_lib = page_lib, valid_email = f, prettifyError = g\<rparr> (show_int 1) = Inr 1"
  "\<exists>issues. eventIdParamSchema \<lparr>sc_lib = page_lib, valid_email = f, prettifyError = g\<rparr> (show_int 0) = Inl issues"
  by (simp_all add: idParamSchema_ok page_lib_def safe_id_def max_safe_def eventIdParamSchema_def to_number_def int_in_def)

lemma demo_live_reachable: "reachable_from live_init live_step demo_live"
proof -
  let ?sc = "\<lparr>sc_lib = page_lib, valid_email = (\<lambda>s. True), prettifyError = concat\<rparr>"
  define v0 :: "nat live" where "v0 = \<lparr>lv_rooms = Map.empty, lv_handled = Map.empty, lv_closed = {}\<rparr>"
  define v1 where "v1 = v0\<lparr>lv_rooms := [1 \<mapsto> [0]], lv_handled := [0 \<mapsto> Watching 1]\<rparr>"
  define v2 where "v2 = v1\<lparr>lv_rooms := [1 \<mapsto> [0, 1]], lv_handled := [0 \<mapsto> Watching 1, 1 \<mapsto> Watching 1]\<rparr>"
  define v3 where "v3 = v2\<lparr>lv_handled := [0 \<mapsto> Watching 1, 1 \<mapsto> Watching 1,
      2 \<mapsto> Rejected 1008 ''invalid eventId'']\<rparr>"
  have "reachable_from live_init live_step v0" by (rule reach_init) (simp add: live_init_def v0_def)
  moreover have "live_step v0 v1"
    using live_step.connect [of v0 0 ?sc "show_int 1" "Watching 1" "[1 \<mapsto> [0]]"]
    by (simp add: v0_def v1_def liveSeatsHandler_def live_ids_read subscribe_def set_add_def)
  moreover have "live_step v1 v2"
    using live_step.connect [of v1 1 ?sc "show_int 1" "Watching 1" "[1 \<mapsto> [0, 1]]"]
    by (simp add: v0_def v1_def v2_def liveSeatsHandler_def live_ids_read subscribe_def set_add_def)
  moreover have "live_step v2 v3"
    using live_step.connect [of v2 2 ?sc "show_int 0" "Rejected 1008 ''invalid eventId''" "[1 \<mapsto> [0, 1]]"]
    using live_ids_read(2) [of "\<lambda>s. True" concat] by (auto simp: v0_def v1_def v2_def v3_def liveSeatsHandler_def)
  moreover have "live_step v3 demo_live"
    using live_step.close [of v3 1 "Watching 1"]
    by (simp add: v0_def v1_def v2_def v3_def on_close_def unsubscribe_def set_delete_def demo_live_def)
  ultimately show ?thesis by (meson reach_step)
qed

lemma records_recording: "records recording_sockets (\<lambda>_. 1)"
  by (simp add: records_def recording_sockets_def)

theorem broadcast_exact_delivery_witness:
  "\<exists>sent. broadcastSeatUpdate recording_sockets (lv_rooms demo_live)
      \<lparr>su_seatId = Some 7, su_eventId = 1, su_status = ''held''\<rparr> [] =
        (None, map (\<lambda>s. (s, \<lparr>su_seatId = Some 7, su_eventId = 1, su_status = ''held''\<rparr>)) sent) \<and>
    count_list sent 0 = 1 \<and> count_list sent 1 = 0"
proof -
  have "watching demo_live 1 0" "\<not> watching demo_live 1 1"
    by (simp_all add: watching_def demo_live_def)
  with broadcast_exact_delivery [OF demo_live_reachable records_recording,
      of "\<lparr>su_seatId = Some 7, su_eventId = 1, su_status = ''held''\<rparr>" "[]"]
  show ?thesis by fastforce
qed

text \<open>
  C32. Closed sockets leave nothing behind: once every socket that reached the handler has closed,
  the registry is the empty map, and in every reachable state a room exists exactly when some
  open socket watches its event.
\<close>

theorem rooms_released:
  assumes "reachable_from live_init live_step v"
  shows "(lv_rooms v e \<noteq> None \<longleftrightarrow> (\<exists>s. watching v e s)) \<and>
    (dom (lv_handled v) \<subseteq> lv_closed v \<longrightarrow> lv_rooms v = Map.empty)"
proof -
  from live_channel.reachable_inv [OF assms] have inv: "no_empty_room (lv_rooms v)"
    "s \<in> set (room_members (lv_rooms v) e') \<longleftrightarrow> watching v e' s" for s e'
    by (simp_all add: live_inv_def)
  have *: "lv_rooms v e' \<noteq> None \<longleftrightarrow> (\<exists>s. watching v e' s)" for e'
    by (simp add: no_empty_room_members [OF inv(1)] flip: inv(2)) (metis list.set_intros(1) neq_Nil_conv empty_iff list.set(1))
  moreover have "\<not> watching v e' s" if "dom (lv_handled v) \<subseteq> lv_closed v" for e' s
    using that by (auto simp: watching_def split: option.splits)
  ultimately show ?thesis by (auto simp: fun_eq_iff)
qed

theorem rooms_released_witness:
  "lv_rooms demo_live 1 \<noteq> None \<longleftrightarrow> (\<exists>s. watching demo_live 1 s)"
  using rooms_released [OF demo_live_reachable] by blast

end
