(* ===== verification/Cdc.thy ===== *)
theory Cdc
  imports Realtime Database Json
begin

text \<open>
  Change data capture: the mapping of a Debezium message
  (\<open>infrastructure/kafka/debezium-mapper.ts\<close>) and the handler that turns it into a cache
  invalidation and a live update (\<open>infrastructure/kafka/cdc-consumer.ts\<close>), on untyped JSON
  values. Redis is the parameter \<open>redis_del\<close>.
\<close>

subsection \<open>mapDebeziumMessage\<close>

text \<open>
  The type of an event as the table \<open>OP_TO_EVENT_TYPE\<close> gives it. The table is an object literal,
  so a key that names a property of \<open>Object.prototype\<close> finds that property.
\<close>

datatype cdc_type = INSERT | UPDATE | DELETE | Inherited string

definition object_prototype :: "string list" where
  "object_prototype = [''constructor'', ''toString'', ''toLocaleString'', ''valueOf'', ''hasOwnProperty'',
     ''isPrototypeOf'', ''propertyIsEnumerable'', ''__defineGetter__'', ''__defineSetter__'',
     ''__lookupGetter__'', ''__lookupSetter__'', ''__proto__'']"

definition OP_TO_EVENT_TYPE :: "string \<Rightarrow> cdc_type option" where
  "OP_TO_EVENT_TYPE op =
     (if op = ''c'' then Some INSERT
      else if op = ''r'' then Some INSERT
      else if op = ''u'' then Some UPDATE
      else if op = ''d'' then Some DELETE
      else if op \<in> set object_prototype then Some (Inherited op)
      else None)"

record cdc_event =
  ce_type :: cdc_type
  ce_data :: json
  ce_timestamp :: string

definition op_key :: "js_lib \<Rightarrow> json option \<Rightarrow> string option" where
  "op_key lib op = (case op of None \<Rightarrow> Some ''undefined'' | Some v \<Rightarrow> to_key lib v)"

definition mapDebeziumMessage :: "js_lib \<Rightarrow> string \<Rightarrow> cdc_event option result" where
  "mapDebeziumMessage lib rawValue =
     (case JSON_parse lib rawValue of
        None \<Rightarrow> Inl SyntaxError
      | Some payload \<Rightarrow>
          (case get_property ''op'' payload of
             Inl e \<Rightarrow> Inl e
           | Inr op \<Rightarrow>
               (case op_key lib op of
                  None \<Rightarrow> Inl TypeError
                | Some k \<Rightarrow>
                    (case OP_TO_EVENT_TYPE k of
                       None \<Rightarrow> Inr None
                     | Some type \<Rightarrow>
                         (case get_property (if type = DELETE then ''before'' else ''after'') payload of
                            Inl e \<Rightarrow> Inl e
                          | Inr data \<Rightarrow>
                              if \<not> truthy data then Inr None
                              else (case get_property ''ts_ms'' payload of
                                      Inl e \<Rightarrow> Inl e
                                    | Inr ts \<Rightarrow>
                                        (case iso_timestamp lib ts of
                                           None \<Rightarrow> Inl RangeError
                                         | Some t \<Rightarrow> Inr (Some \<lparr>ce_type = type, ce_data = the data,
                                             ce_timestamp = t\<rparr>))))))))"

subsection \<open>handleCdcMessage\<close>

text \<open>The value of a Kafka message: a buffer (truthy even when empty), a text, or nothing.\<close>

datatype raw_value = NoValue | RawText string | RawBuffer string

fun raw_text :: "raw_value \<Rightarrow> string" where
  "raw_text NoValue = ''''"
| "raw_text (RawText s) = s"
| "raw_text (RawBuffer s) = s"

fun raw_falsy :: "raw_value \<Rightarrow> bool" where
  "raw_falsy NoValue = True"
| "raw_falsy (RawText s) = (s = '''')"
| "raw_falsy (RawBuffer s) = False"

datatype event_id = NumberId "rat option" | TextId string

definition event_id_of :: "json option \<Rightarrow> event_id option" where
  "event_id_of v = (case v of Some (JNum n) \<Rightarrow> Some (NumberId n) | Some (JStr s) \<Rightarrow> Some (TextId s) | _ \<Rightarrow> None)"

definition seatAvailabilityCacheKey :: "js_lib \<Rightarrow> event_id \<Rightarrow> string" where
  "seatAvailabilityCacheKey lib i = ''seats:availability:event:'' @
     (case i of NumberId n \<Rightarrow> number_text lib n | TextId s \<Rightarrow> s)"

definition numeric_event_id :: "js_lib \<Rightarrow> event_id \<Rightarrow> rat option" where
  "numeric_event_id lib i = (case i of NumberId n \<Rightarrow> n | TextId s \<Rightarrow> text_number lib s)"

text \<open>The live update an event gives rise to, if it gives rise to one.\<close>

definition live_update :: "js_lib \<Rightarrow> event_id \<Rightarrow> json option \<Rightarrow> json option \<Rightarrow> seat_update option" where
  "live_update lib eventId seatId status =
     (case (seatId, numeric_event_id lib eventId, status) of
        (Some (JNum n), Some e, Some (JStr st)) \<Rightarrow>
          if st \<in> {''available'', ''held'', ''booked''}
          then Some \<lparr>su_seatId = n, su_eventId = e, su_status = st\<rparr>
          else None
      | _ \<Rightarrow> None)"

text \<open>
  The body of the try block: an error it throws ends it and is logged by the catch, with the
  effects made so far kept. \<open>rooms\<close> is the registry of the process.
\<close>

definition cdc_body ::
  "js_lib \<Rightarrow> (string \<Rightarrow> 'r \<Rightarrow> js_error option \<times> 'r) \<Rightarrow> ('k, 'n) sockets \<Rightarrow> 'k rooms \<Rightarrow> string \<Rightarrow>
   'r \<times> 'n \<Rightarrow> js_error option \<times> ('r \<times> 'n)" where
  "cdc_body lib redis_del sk rooms rawValue st =
     (case mapDebeziumMessage lib rawValue of
        Inl e \<Rightarrow> (Some e, st)
      | Inr None \<Rightarrow> (None, st)
      | Inr (Some event) \<Rightarrow>
          (case get_property ''event_id'' (ce_data event) of
             Inl e \<Rightarrow> (Some e, st)
           | Inr v \<Rightarrow>
               (case event_id_of v of
                  None \<Rightarrow> (None, st)
                | Some eventId \<Rightarrow>
                    (case redis_del (seatAvailabilityCacheKey lib eventId) (fst st) of
                       (Some e, r) \<Rightarrow> (Some e, (r, snd st))
                     | (None, r) \<Rightarrow>
                         if ce_type event = DELETE then (None, (r, snd st))
                         else (case (get_property ''id'' (ce_data event),
                                     get_property ''status'' (ce_data event)) of
                                 (Inr seatId, Inr status) \<Rightarrow>
                                   (case live_update lib eventId seatId status of
                                      None \<Rightarrow> (None, (r, snd st))
                                    | Some msg \<Rightarrow>
                                        (case broadcastSeatUpdate sk rooms msg (snd st) of
                                           (e, n) \<Rightarrow> (e, (r, n))))
                               | _ \<Rightarrow> (Some TypeError, (r, snd st)))))))"

definition handleCdcMessage ::
  "js_lib \<Rightarrow> (string \<Rightarrow> 'r \<Rightarrow> js_error option \<times> 'r) \<Rightarrow> ('k, 'n) sockets \<Rightarrow> 'k rooms \<Rightarrow> raw_value \<Rightarrow>
   'r \<times> 'n \<Rightarrow> 'r \<times> 'n" where
  "handleCdcMessage lib redis_del sk rooms raw st =
     (if raw_falsy raw then st
      else case cdc_body lib redis_del sk rooms (raw_text raw) st of (thrown, st') \<Rightarrow> st')"

subsection \<open>Lemmas\<close>

lemma mapDebeziumMessage_object:
  assumes "JSON_parse lib raw = Some (JObj ps)" and "map_of ps ''op'' = Some (JStr k)"
  shows "mapDebeziumMessage lib raw =
    (case OP_TO_EVENT_TYPE k of
       None \<Rightarrow> Inr None
     | Some type \<Rightarrow>
         (let data = map_of ps (if type = DELETE then ''before'' else ''after'')
          in if \<not> truthy data then Inr None
             else (case iso_timestamp lib (map_of ps ''ts_ms'') of
                     None \<Rightarrow> Inl RangeError
                   | Some t \<Rightarrow> Inr (Some \<lparr>ce_type = type, ce_data = the data, ce_timestamp = t\<rparr>))))"
  using assms by (simp add: mapDebeziumMessage_def op_key_def Let_def split: option.splits)

text \<open>Data that reaches the consumer is a value of which properties can be read.\<close>

lemma mapDebeziumMessage_data:
  "mapDebeziumMessage lib raw = Inr (Some ev) \<Longrightarrow> ce_data ev \<noteq> JNull"
  by (auto simp: mapDebeziumMessage_def dest!: truthy_Some split: option.splits sum.splits if_splits)

lemma live_update_status:
  "live_update lib i seatId status = Some msg \<Longrightarrow>
     su_status msg \<in> {''available'', ''held'', ''booked''} \<and> numeric_event_id lib i = Some (su_eventId msg)"
  by (auto simp: live_update_def split: option.splits json.splits if_splits)

subsection \<open>Properties\<close>

text \<open>
  Which messages are dropped as unknown: an envelope whose \<open>op\<close> is a text is mapped to
  nothing exactly when its image (before for a delete, after otherwise) is missing or falsy, or
  its op is neither one of c, r, u, d nor the name of a property of \<open>Object.prototype\<close>: with such
  a name the lookup finds the inherited member and the message is treated as an event.
\<close>

theorem debezium_unknown_op:
  assumes "JSON_parse lib raw = Some (JObj ps)" and "map_of ps ''op'' = Some (JStr op)"
  shows "mapDebeziumMessage lib raw = Inr None \<longleftrightarrow>
    op \<notin> {''c'', ''r'', ''u'', ''d''} \<union> set object_prototype \<or>
    \<not> truthy (map_of ps (if op = ''d'' then ''before'' else ''after''))"
proof (cases "OP_TO_EVENT_TYPE op")
  case None
  then show ?thesis
    by (simp add: mapDebeziumMessage_object [OF assms] OP_TO_EVENT_TYPE_def split: if_splits)
next
  case (Some type)
  then have "op \<in> {''c'', ''r'', ''u'', ''d''} \<union> set object_prototype" "type = DELETE \<longleftrightarrow> op = ''d''"
    by (auto simp: OP_TO_EVENT_TYPE_def split: if_splits)
  then show ?thesis
    unfolding mapDebeziumMessage_object [OF assms] Some
    by (auto simp: Let_def split: option.splits)
qed

definition demo_lib :: js_lib where
  "demo_lib = \<lparr>JSON_parse = (\<lambda>s. if s = ''upd'' then Some (JObj
       [(''after'', JObj [(''id'', JNum (Some 7)), (''event_id'', JNum (Some 1)), (''status'', JStr ''held'')]),
        (''op'', JStr ''u''), (''ts_ms'', JNum (Some 5))])
      else if s = ''odd'' then Some (JObj [(''after'', JObj []), (''op'', JStr ''valueOf'')])
      else None),
     number_text = (\<lambda>n. case n of None \<Rightarrow> ''Infinity'' | Some q \<Rightarrow> show_int \<lfloor>q\<rfloor>),
     text_number = (\<lambda>s. Some 0), iso_timestamp = (\<lambda>v. Some ''1970-01-01T00:00:00.005Z'')\<rparr>"

theorem debezium_unknown_op_witness:
  "mapDebeziumMessage demo_lib ''odd'' \<noteq> Inr None"
  using debezium_unknown_op [of demo_lib "''odd''" "[(''after'', JObj []), (''op'', JStr ''valueOf'')]" "''valueOf''"]
  by (simp add: demo_lib_def object_prototype_def)

text \<open>
  What a CDC message can do, whatever its value: nothing; or one deletion of one key of the
  availability cache; or that deletion, resolved, followed by one broadcast of a seat status
  (available, held or booked) to the room of the same event. A deletion that Redis rejects, a
  delete event, and every malformed message end before the broadcast.
\<close>

theorem cdc_effects:
  "let st' = handleCdcMessage lib redis_del sk rooms raw st
   in st' = st \<or>
     (\<exists>eventId. case redis_del (seatAvailabilityCacheKey lib eventId) (fst st) of (x, r) \<Rightarrow>
        st' = (r, snd st) \<or>
        (x = None \<and> (\<exists>msg. su_status msg \<in> {''available'', ''held'', ''booked''} \<and>
           numeric_event_id lib eventId = Some (su_eventId msg) \<and>
           st' = (r, snd (broadcastSeatUpdate sk rooms msg (snd st))))))"
proof (cases "\<exists>ev eventId. \<not> raw_falsy raw \<and> mapDebeziumMessage lib (raw_text raw) = Inr (Some ev) \<and>
    (\<exists>v. get_property ''event_id'' (ce_data ev) = Inr v \<and> event_id_of v = Some eventId)")
  case False
  then have "handleCdcMessage lib redis_del sk rooms raw st = st"
    by (auto simp: handleCdcMessage_def cdc_body_def split: sum.splits option.splits prod.splits)
  then show ?thesis by (simp add: Let_def)
next
  case True
  then obtain ev eventId v where ev: "\<not> raw_falsy raw" "mapDebeziumMessage lib (raw_text raw) = Inr (Some ev)"
    "get_property ''event_id'' (ce_data ev) = Inr v" "event_id_of v = Some eventId" by blast
  obtain i where i: "get_property ''id'' (ce_data ev) = Inr i"
    using get_property_ok mapDebeziumMessage_data [OF ev(2)] by blast
  obtain s where s: "get_property ''status'' (ce_data ev) = Inr s"
    using get_property_ok mapDebeziumMessage_data [OF ev(2)] by blast
  obtain x r where del: "redis_del (seatAvailabilityCacheKey lib eventId) (fst st) = (x, r)"
    by (rule prod.exhaust)
  have "handleCdcMessage lib redis_del sk rooms raw st =
      (if x \<noteq> None \<or> ce_type ev = DELETE then (r, snd st)
       else case live_update lib eventId i s of
         None \<Rightarrow> (r, snd st)
       | Some msg \<Rightarrow> (r, snd (broadcastSeatUpdate sk rooms msg (snd st))))"
    using ev i s del
    by (auto simp: handleCdcMessage_def cdc_body_def split: option.splits prod.splits)
  then have "case redis_del (seatAvailabilityCacheKey lib eventId) (fst st) of (x, r) \<Rightarrow>
        handleCdcMessage lib redis_del sk rooms raw st = (r, snd st) \<or>
        (x = None \<and> (\<exists>msg. su_status msg \<in> {''available'', ''held'', ''booked''} \<and>
           numeric_event_id lib eventId = Some (su_eventId msg) \<and>
           handleCdcMessage lib redis_del sk rooms raw st =
             (r, snd (broadcastSeatUpdate sk rooms msg (snd st)))))"
    using del live_update_status [of lib eventId i s] by (auto split: option.splits)
  then show ?thesis unfolding Let_def by (intro disjI2 exI [of _ eventId])
qed

text \<open>The image of a seat row as Debezium writes it (\<open>schemas.enable=false\<close>).\<close>

definition seat_image :: "seat_row \<Rightarrow> json \<Rightarrow> bool" where
  "seat_image s v \<longleftrightarrow> (case v of
     JObj ps \<Rightarrow>
       map_of ps ''id'' = Some (JNum (Some (of_int (seat_id s)))) \<and>
       map_of ps ''event_id'' = Some (JNum (Some (of_int (seat_eventId s)))) \<and>
       map_of ps ''status'' = Some (JStr (seat_status_text (seat_status s)))
   | _ \<Rightarrow> False)"

lemma live_update_seat:
  "seat_image s (JObj ps) \<Longrightarrow>
     live_update lib (NumberId (Some (of_int (seat_eventId s)))) (map_of ps ''id'') (map_of ps ''status'') =
       Some \<lparr>su_seatId = Some (of_int (seat_id s)), su_eventId = of_int (seat_eventId s),
             su_status = seat_status_text (seat_status s)\<rparr>"
  by (cases "seat_status s") (auto simp: seat_image_def live_update_def numeric_event_id_def)

text \<open>
  C31. From the table to the browser: a change-capture message carrying the new image of a seat
  row deletes the availability key of the seat's event and, once Redis has done so, gives the
  seat's id and status exactly once to every open socket that watches this event, and to no
  other.
\<close>

theorem seat_change_reaches_watchers:
  assumes "reachable_from live_init live_step v" and "records sk ready"
    and "\<not> raw_falsy raw" and "JSON_parse lib (raw_text raw) = Some (JObj ps)"
    and "map_of ps ''op'' = Some (JStr op)" and "op \<in> {''c'', ''r'', ''u''}"
    and "map_of ps ''after'' = Some row" and "seat_image s row"
    and "iso_timestamp lib (map_of ps ''ts_ms'') \<noteq> None"
    and "redis_del (''seats:availability:event:'' @ number_text lib (Some (of_int (seat_eventId s)))) r = (None, r')"
  shows "\<exists>sent. handleCdcMessage lib redis_del sk (lv_rooms v) raw (r, n) =
      (r', n @ map (\<lambda>k. (k, \<lparr>su_seatId = Some (of_int (seat_id s)), su_eventId = of_int (seat_eventId s),
                             su_status = seat_status_text (seat_status s)\<rparr>)) sent) \<and>
    (\<forall>k. count_list sent k = (if watching v (of_int (seat_eventId s)) k \<and> ready k = 1 then 1 else 0))"
proof -
  let ?msg = "\<lparr>su_seatId = Some (of_int (seat_id s)), su_eventId = of_int (seat_eventId s),
                su_status = seat_status_text (seat_status s)\<rparr>"
  let ?sent = "filter (\<lambda>k. ready k = 1) (room_members (lv_rooms v) (of_int (seat_eventId s)))"
  from assms(8) obtain rs where rs: "row = JObj rs" by (auto simp: seat_image_def split: json.splits)
  obtain type where ty: "OP_TO_EVENT_TYPE op = Some type" "type \<noteq> DELETE"
    using assms(6) by (auto simp: OP_TO_EVENT_TYPE_def)
  obtain t where t: "iso_timestamp lib (map_of ps ''ts_ms'') = Some t" using assms(9) by blast
  have ev: "mapDebeziumMessage lib (raw_text raw) =
      Inr (Some \<lparr>ce_type = type, ce_data = JObj rs, ce_timestamp = t\<rparr>)"
    using mapDebeziumMessage_object [OF assms(4,5)] ty assms(7) rs t by simp
  have id: "map_of rs ''event_id'' = Some (JNum (Some (of_int (seat_eventId s))))"
    using assms(8) rs by (simp add: seat_image_def)
  have "handleCdcMessage lib redis_del sk (lv_rooms v) raw (r, n) =
      (r', snd (broadcastSeatUpdate sk (lv_rooms v) ?msg n))"
    using assms(3,10) ev id ty(2) live_update_seat [of s rs lib] assms(8) rs
    by (simp add: handleCdcMessage_def cdc_body_def event_id_of_def seatAvailabilityCacheKey_def
        split: prod.splits)
  also have "\<dots> = (r', n @ map (\<lambda>k. (k, ?msg)) ?sent)"
    by (simp add: broadcast_records [OF assms(2)])
  finally have eq: "handleCdcMessage lib redis_del sk (lv_rooms v) raw (r, n) = \<dots>" .
  from live_channel.reachable_inv [OF assms(1)]
  have "distinct ?sent" "k \<in> set ?sent \<longleftrightarrow> watching v (of_int (seat_eventId s)) k \<and> ready k = 1" for k
    by (auto simp: live_inv_def)
  with eq show ?thesis by (intro exI [of _ ?sent]) (simp add: count_list_distinct)
qed

definition demo_seat_row :: seat_row where
  "demo_seat_row = \<lparr>seat_id = 7, seat_eventId = 1, seat_section = ''A'', seat_rowLabel = ''R1'',
     seat_seatNumber = 1, seat_status = Held, seat_version = 1, seat_createdAt = 0\<rparr>"

theorem seat_change_reaches_watchers_witness:
  "\<exists>sent. handleCdcMessage demo_lib (\<lambda>k ks. (None, ks @ [k])) recording_sockets (lv_rooms demo_live)
      (RawText ''upd'') ([], []) =
      ([''seats:availability:event:1''],
       map (\<lambda>k. (k, \<lparr>su_seatId = Some 7, su_eventId = 1, su_status = ''held''\<rparr>)) sent) \<and>
    count_list sent 0 = 1 \<and> count_list sent 1 = 0"
proof -
  have "watching demo_live 1 0" "\<not> watching demo_live 1 1"
    by (simp_all add: watching_def demo_live_def)
  moreover have "show_int 1 = ''1''" by code_simp
  ultimately show ?thesis
    using seat_change_reaches_watchers [OF demo_live_reachable records_recording,
      where raw = "RawText ''upd''" and lib = demo_lib and s = demo_seat_row and op = "''u''"
      and r = "[]" and n = "[]" and redis_del = "\<lambda>k ks. (None, ks @ [k])"]
    by (fastforce simp: demo_lib_def seat_image_def demo_seat_row_def)
qed

end
