(* ===== verification/Catalog.thy ===== *)
theory Catalog
  imports Booking_Usecases "HOL-Library.Product_Lexorder"
begin

text \<open>
  The browse path (\<open>modules/catalog/infrastructure/catalog.repository.ts\<close> and
  \<open>modules/catalog/application/*.ts\<close>): the events with their venues, and the seats of an event
  with an optional status filter and limit. Text columns are ordered by the collation of the
  database, the parameter \<open>coll\<close>: a sort key for each text. SQL leaves the order of rows with
  equal keys open; the model takes the stable order.
\<close>

subsection \<open>Events\<close>

record event_listing =
  le_id :: int
  le_name :: string
  le_startsAt :: int
  le_status :: event_status
  le_venueId :: int
  le_venueName :: string
  le_venueCity :: string

definition event_listing_of :: "event_row \<times> venue_row \<Rightarrow> event_listing" where
  "event_listing_of = (\<lambda>(e, v). \<lparr>le_id = event_id e, le_name = event_name e, le_startsAt = event_startsAt e,
     le_status = event_status e, le_venueId = venue_id v, le_venueName = venue_name v,
     le_venueCity = venue_city v\<rparr>)"

definition events_with_venues :: "db \<Rightarrow> (event_row \<times> venue_row) list" where
  "events_with_venues d = [(e, v). e \<leftarrow> events d, v \<leftarrow> venues d, event_venueId e = venue_id v]"

definition listEvents :: "db \<Rightarrow> event_listing list" where
  "listEvents d = map event_listing_of (sort_key (\<lambda>(e, v). event_startsAt e) (events_with_venues d))"

definition findEventById :: "int \<Rightarrow> db \<Rightarrow> event_row option result" where
  "findEventById eventId d =
     (if \<not> int4_ok eventId then Inl out_of_range
      else Inr (first_row (filter (\<lambda>e. event_id e = eventId) (events d))))"

subsection \<open>Seats of an event\<close>

definition seat_sort_key :: "(string \<Rightarrow> 'c) \<Rightarrow> seat_row \<Rightarrow> 'c \<times> 'c \<times> int" where
  "seat_sort_key coll s = (coll (seat_section s), coll (seat_rowLabel s), seat_seatNumber s)"

text \<open>\<open>limit ? query.limit(limit) : query\<close>: zero counts as no limit.\<close>

definition seats_query ::
  "(string \<Rightarrow> 'c::linorder) \<Rightarrow> int \<Rightarrow> seat_status option \<Rightarrow> nat option \<Rightarrow> db \<Rightarrow> seat_row list" where
  "seats_query coll eventId status limit d =
     (let rows = sort_key (seat_sort_key coll)
            (filter (\<lambda>s. seat_eventId s = eventId \<and>
               (case status of None \<Rightarrow> True | Some st \<Rightarrow> seat_status s = st)) (seats d))
      in case limit of None \<Rightarrow> rows | Some n \<Rightarrow> if n = 0 then rows else take n rows)"

definition listSeatsForEvent ::
  "(string \<Rightarrow> 'c::linorder) \<Rightarrow> int \<Rightarrow> seat_status option \<Rightarrow> nat option \<Rightarrow> db \<Rightarrow> seat_row list result" where
  "listSeatsForEvent coll eventId status limit d =
     (case findEventById eventId d of
        Inl e \<Rightarrow> Inl e
      | Inr None \<Rightarrow> Inl (EventNotFoundError eventId)
      | Inr (Some event) \<Rightarrow> Inr (seats_query coll eventId status limit d))"

subsection \<open>Lemmas\<close>

lemma listSeatsForEvent_eq:
  "int4_ok eventId \<Longrightarrow> listSeatsForEvent coll eventId status limit d =
     (if \<exists>e\<in>set (events d). event_id e = eventId then Inr (seats_query coll eventId status limit d)
      else Inl (EventNotFoundError eventId))"
  by (auto simp: listSeatsForEvent_def findEventById_def filter_empty_conv split: option.splits
      dest!: first_row_SomeD)

lemma set_seats_query:
  "set (seats_query coll eventId status None d) =
     {s \<in> set (seats d). seat_eventId s = eventId \<and> (case status of None \<Rightarrow> True | Some st \<Rightarrow> seat_status s = st)}"
  by (auto simp: seats_query_def Let_def)

text \<open>The venues an event joins with, when the primary and foreign keys hold.\<close>

definition venue_keys_ok :: "db \<Rightarrow> bool" where
  "venue_keys_ok d \<longleftrightarrow> distinct (map venue_id (venues d)) \<and>
     (\<forall>e\<in>set (events d). event_venueId e \<in> set (map venue_id (venues d)))"

lemma join_one:
  assumes "distinct (map venue_id vs)" and "event_venueId e \<in> set (map venue_id vs)"
  shows "map fst [(e, v). v \<leftarrow> vs, event_venueId e = venue_id v] = [e]"
proof -
  from assms(2) obtain v where v: "v \<in> set vs" "event_venueId e = venue_id v" by auto
  have "[(e, v). v \<leftarrow> vs, event_venueId e = venue_id v] = map (Pair e) (filter (\<lambda>x. venue_id x = venue_id v) vs)"
    using v(2) by (induction vs) auto
  with filter_key_unique [OF assms(1) v(1)] show ?thesis by simp
qed

lemma join_events:
  "venue_keys_ok d \<Longrightarrow> map fst (events_with_venues d) = events d"
proof -
  assume ok: "venue_keys_ok d"
  have "map fst (concat (map (\<lambda>e. [(e, v). v \<leftarrow> venues d, event_venueId e = venue_id v]) es)) = es"
    if "set es \<subseteq> set (events d)" for es
    using that
  proof (induction es)
    case (Cons e es)
    with ok have "map fst [(e, v). v \<leftarrow> venues d, event_venueId e = venue_id v] = [e]"
      by (intro join_one) (auto simp: venue_keys_ok_def)
    with Cons show ?case by simp
  qed simp
  from this [of "events d"] show ?thesis by (simp add: events_with_venues_def)
qed

lemma mset_map_sort: "mset (map f (sort_key k xs)) = mset (map f xs)"
  by simp

subsection \<open>Properties\<close>

text \<open>
  \<open>listEvents\<close> shows every event exactly once, by start time, each with the name and city of
  its own venue.
\<close>

theorem listEvents_complete:
  assumes "venue_keys_ok d"
  shows "mset (map le_id (listEvents d)) = mset (map event_id (events d)) \<and>
    sorted (map le_startsAt (listEvents d)) \<and>
    (\<forall>l\<in>set (listEvents d). \<exists>e\<in>set (events d). \<exists>v\<in>set (venues d).
       event_venueId e = venue_id v \<and> l = event_listing_of (e, v))"
proof (intro conjI ballI)
  have "le_id \<circ> event_listing_of = event_id \<circ> fst" by (auto simp: event_listing_of_def fun_eq_iff)
  moreover have "mset (map (event_id \<circ> fst) (events_with_venues d)) = mset (map event_id (events d))"
    using join_events [OF assms] by (metis map_map)
  ultimately show "mset (map le_id (listEvents d)) = mset (map event_id (events d))"
    unfolding listEvents_def map_map by (simp add: mset_map_sort)
  have "le_startsAt \<circ> event_listing_of = (\<lambda>(e, v). event_startsAt e)"
    by (auto simp: event_listing_of_def fun_eq_iff)
  then show "sorted (map le_startsAt (listEvents d))"
    unfolding listEvents_def map_map by (simp del: map_map)
  fix l assume "l \<in> set (listEvents d)"
  then show "\<exists>e\<in>set (events d). \<exists>v\<in>set (venues d). event_venueId e = venue_id v \<and> l = event_listing_of (e, v)"
    by (auto simp: listEvents_def events_with_venues_def split: if_splits)
qed

theorem listEvents_complete_witness:
  "mset (map le_id (listEvents demo_db)) = {#1#}"
  using listEvents_complete [of demo_db]
  by (simp add: venue_keys_ok_def demo_db_def demo_event_def demo_venue_def)

text \<open>
  \<open>listSeatsForEvent\<close> on an existing event returns exactly the event's seats that have the
  requested status (all of them without a filter), each once, in the order of section, row and
  number; with a limit, the first ones of that list. An unknown event is the not-found error.
\<close>

theorem listSeatsForEvent_outcome:
  assumes "int4_ok eventId"
  shows "if \<exists>e\<in>set (events d). event_id e = eventId
    then \<exists>rows. listSeatsForEvent coll eventId status None d = Inr rows \<and>
      mset rows = filter_mset (\<lambda>s. seat_eventId s = eventId \<and>
        (case status of None \<Rightarrow> True | Some st \<Rightarrow> seat_status s = st)) (mset (seats d)) \<and>
      sorted (map (seat_sort_key coll) rows) \<and>
      (\<forall>n. listSeatsForEvent coll eventId status (Some (Suc n)) d = Inr (take (Suc n) rows))
    else listSeatsForEvent coll eventId status limit d = Inl (EventNotFoundError eventId)"
  using assms by (simp add: listSeatsForEvent_eq) (simp add: seats_query_def Let_def)

theorem listSeatsForEvent_outcome_witness:
  "\<exists>rows. listSeatsForEvent length 1 (Some Held) None demo_held = Inr rows \<and> mset rows = {#demo_seat 1 Held 1#}"
  using listSeatsForEvent_outcome [of 1 demo_held length "Some Held" None]
  by (auto simp: demo_facts demo_held_def demo_event_def demo_seat_def)

text \<open>
  C34. What the seat map offers is what can be had: on a consistent database a seat of the event
  is in the list of available seats exactly when it has no live booking, and exactly when the
  reserve transaction of a user with an account would succeed on it now.
\<close>

theorem available_seats_are_reservable:
  assumes "consistent d" and "s \<in> set (seats d)" and "seat_eventId s = eventId"
    and "can_insert d (seat_id s) uid"
  shows "(s \<in> set (seats_query coll eventId (Some Available) None d) \<longleftrightarrow> live_bookings d (seat_id s) = []) \<and>
    (s \<in> set (seats_query coll eventId (Some Available) None d) \<longleftrightarrow>
       (\<exists>b d'. reserve_tx (seat_id s) uid h now d = Inr (b, d')))"
proof -
  have at: "seat_at d (seat_id s) = Some s"
    using assms(2) consistentD(1) [OF assms(1)] seat_at_row by metis
  have l: "s \<in> set (seats_query coll eventId (Some Available) None d) \<longleftrightarrow> seat_status s = Available"
    using assms(2,3) by (simp add: set_seats_query)
  have "live_bookings d (seat_id s) = [] \<longleftrightarrow> seat_status s = Available"
    using consistentD(5) [OF assms(1,2)] by (cases "seat_status s") (auto simp: seat_matches_def)
  moreover have "(\<exists>b d'. reserve_tx (seat_id s) uid h now d = Inr (b, d')) \<longleftrightarrow> seat_status s = Available"
    using reserve_tx_hit [OF assms(1) at _ assms(4)] reserve_tx_cases [OF _ assms(1), of "seat_id s" uid h now] at
    by (metis option.inject)
  ultimately show ?thesis using l by simp
qed

theorem available_seats_are_reservable_witness:
  "demo_seat 2 Available 0 \<in> set (seats_query length 1 (Some Available) None demo_held) \<longleftrightarrow>
     (\<exists>b d'. reserve_tx 2 2 300000 0 demo_held = Inr (b, d'))"
proof -
  have "demo_seat 2 Available 0 \<in> set (seats demo_held)" "seat_eventId (demo_seat 2 Available 0) = 1"
    "seat_id (demo_seat 2 Available 0) = 2"
    by (simp_all add: demo_defs)
  moreover have "can_insert demo_held 2 2"
    by (simp add: can_insert_def seat_at_def demo_defs int4_ok_def int4_max_def)
  ultimately show ?thesis
    using available_seats_are_reservable [OF demo_consistent(2), of "demo_seat 2 Available 0" 1 2 length 300000 0]
    by metis
qed

end
