(* ===== verification/Password.thy ===== *)
theory Password
  imports Errors "HOL-Library.Word"
begin

text \<open>
  Password storage (\<open>shared/crypto/password.ts\<close>): \<open>saltHex:hashHex\<close>. The hexadecimal codec of
  Node's \<open>Buffer\<close> and \<open>split\<close> are written out, since verification depends on how they treat text
  that is not what \<open>hashPassword\<close> wrote. \<open>scrypt\<close> is a parameter: password, salt and key length
  to a key or an error.
\<close>

type_synonym bytes = "8 word list"

type_synonym kdf = "string \<Rightarrow> bytes \<Rightarrow> nat \<Rightarrow> bytes result"

subsection \<open>Hexadecimal\<close>

definition hex_digit :: "nat \<Rightarrow> char" where
  "hex_digit n = ''0123456789abcdef'' ! n"

fun unhex :: "char \<Rightarrow> nat option" where
  "unhex c =
     (let n = of_char c :: nat
      in if 48 \<le> n \<and> n \<le> 57 then Some (n - 48)
         else if 97 \<le> n \<and> n \<le> 102 then Some (n - 87)
         else if 65 \<le> n \<and> n \<le> 70 then Some (n - 55)
         else None)"

fun hex_encode :: "bytes \<Rightarrow> string" where
  "hex_encode [] = ''''"
| "hex_encode (b # bs) = hex_digit (unat b div 16) # hex_digit (unat b mod 16) # hex_encode bs"

text \<open>\<open>Buffer.from(s, 'hex')\<close> stops at the first pair that is not two hexadecimal digits.\<close>

fun hex_decode :: "string \<Rightarrow> bytes" where
  "hex_decode (a # b # s) =
     (case (unhex a, unhex b) of
        (Some x, Some y) \<Rightarrow> word_of_nat (16 * x + y) # hex_decode s
      | _ \<Rightarrow> [])"
| "hex_decode _ = []"

subsection \<open>hashPassword and verifyPassword\<close>

definition KEY_LENGTH :: nat where
  "KEY_LENGTH = 64"

definition SALT_LENGTH :: nat where
  "SALT_LENGTH = 16"

text \<open>\<open>salt\<close> is what \<open>randomBytes(SALT_LENGTH)\<close> returned.\<close>

definition hashPassword :: "kdf \<Rightarrow> bytes \<Rightarrow> string \<Rightarrow> string result" where
  "hashPassword scrypt salt password =
     (case scrypt password salt KEY_LENGTH of
        Inl e \<Rightarrow> Inl e
      | Inr derivedKey \<Rightarrow> Inr (hex_encode salt @ '':'' @ hex_encode derivedKey))"

text \<open>
  \<open>const [saltHex, hashHex] = stored.split(":")\<close> and the test that neither is missing or empty.
\<close>

definition parse_stored :: "string \<Rightarrow> (bytes \<times> bytes) option" where
  "parse_stored stored =
     (case split_on CHR '':'' stored of
        saltHex # hashHex # _ \<Rightarrow>
          if saltHex = '''' \<or> hashHex = '''' then None
          else Some (hex_decode saltHex, hex_decode hashHex)
      | _ \<Rightarrow> None)"

definition verifyPassword :: "kdf \<Rightarrow> string \<Rightarrow> string \<Rightarrow> bool result" where
  "verifyPassword scrypt password stored =
     (case parse_stored stored of
        None \<Rightarrow> Inr False
      | Some (salt, storedHash) \<Rightarrow>
          (case scrypt password salt (length storedHash) of
             Inl e \<Rightarrow> Inl e
           | Inr derivedKey \<Rightarrow>
               if length derivedKey \<noteq> length storedHash then Inr False
               else Inr (derivedKey = storedHash)))"

subsection \<open>Lemmas\<close>

lemma less_16_cases: "n < (16::nat) \<Longrightarrow> n \<in> {0, 1, 2, 3, 4, 5, 6, 7, 8, 9, 10, 11, 12, 13, 14, 15}"
  unfolding insert_iff empty_iff by presburger

lemma unhex_hex_digit: "n < 16 \<Longrightarrow> unhex (hex_digit n) = Some n"
  by (drule less_16_cases) (auto simp: hex_digit_def)

lemma hex_digit_not_colon: "n < 16 \<Longrightarrow> hex_digit n \<noteq> CHR '':''"
  by (drule less_16_cases) (auto simp: hex_digit_def)

lemma unat_byte: "unat (b :: 8 word) < 256"
  using unsigned_less [of b] by simp

lemma hex_decode_encode [simp]: "hex_decode (hex_encode bs) = bs"
proof (induction bs)
  case (Cons b bs)
  have "unat b < 256" by (rule unat_byte)
  then have "unhex (hex_digit (unat b div 16)) = Some (unat b div 16)"
    "unhex (hex_digit (unat b mod 16)) = Some (unat b mod 16)"
    by (intro unhex_hex_digit; simp)+
  then show ?case using Cons by (simp del: unhex.simps)
qed simp

lemma hex_encode_no_colon: "CHR '':'' \<notin> set (hex_encode bs)"
proof (induction bs)
  case (Cons b bs)
  have "unat b < 256" by (rule unat_byte)
  then have "hex_digit (unat b div 16) \<noteq> CHR '':''" "hex_digit (unat b mod 16) \<noteq> CHR '':''"
    by (intro hex_digit_not_colon; simp)+
  with Cons show ?case by auto
qed simp

lemma length_hex_encode [simp]: "length (hex_encode bs) = 2 * length bs"
  by (induction bs) auto

lemma hex_encode_Nil [simp]: "hex_encode bs = [] \<longleftrightarrow> bs = []"
  by (cases bs) auto

lemma parse_stored_join:
  assumes "CHR '':'' \<notin> set a" and "CHR '':'' \<notin> set b" and "a \<noteq> []" and "b \<noteq> []"
  shows "parse_stored (a @ CHR '':'' # b) = Some (hex_decode a, hex_decode b)"
  using assms by (simp add: parse_stored_def split_on_append split_on_free)

lemma parse_stored_hash:
  "salt \<noteq> [] \<Longrightarrow> key \<noteq> [] \<Longrightarrow>
     parse_stored (hex_encode salt @ CHR '':'' # hex_encode key) = Some (salt, key)"
  by (subst parse_stored_join) (simp_all add: hex_encode_no_colon)

text \<open>The documented length of a derived key.\<close>

definition kdf_lengths :: "kdf \<Rightarrow> bool" where
  "kdf_lengths scrypt \<longleftrightarrow> (\<forall>pw salt n key. scrypt pw salt n = Inr key \<longrightarrow> length key = n)"

lemma verify_hashed:
  assumes "kdf_lengths scrypt" and "salt \<noteq> []" and "hashPassword scrypt salt pw = Inr stored"
    and "scrypt pw' salt KEY_LENGTH = Inr key'"
  shows "verifyPassword scrypt pw' stored = Inr (scrypt pw salt KEY_LENGTH = Inr key')"
proof -
  obtain key where key: "scrypt pw salt KEY_LENGTH = Inr key"
    "stored = hex_encode salt @ CHR '':'' # hex_encode key"
    using assms(3) by (auto simp: hashPassword_def split: sum.splits)
  from assms(1) key(1) assms(4) have len: "length key = KEY_LENGTH" "length key' = KEY_LENGTH"
    by (auto simp: kdf_lengths_def)
  then have "key \<noteq> []" by (auto simp: KEY_LENGTH_def)
  with assms(2) key(2) have "parse_stored stored = Some (salt, key)" by (simp add: parse_stored_hash)
  with key(1) assms(4) len show ?thesis by (auto simp: verifyPassword_def)
qed

definition demo_kdf :: kdf where
  "demo_kdf pw salt n = Inr (replicate n (word_of_nat (length pw)))"

lemma demo_kdf_lengths: "kdf_lengths demo_kdf"
  by (simp add: kdf_lengths_def demo_kdf_def)

subsection \<open>Properties\<close>

text \<open>
  A stored password verifies exactly with the passwords that derive the same key: what
  \<open>hashPassword\<close> wrote is accepted for the password it was made from, and for another password
  exactly when \<open>scrypt\<close> gives it the same 64-byte key under the same salt.
\<close>

theorem password_roundtrip:
  assumes "kdf_lengths scrypt" and "salt \<noteq> []"
    and "hashPassword scrypt salt pw = Inr stored"
    and "scrypt pw' salt KEY_LENGTH = Inr key'"
  shows "verifyPassword scrypt pw' stored = Inr (scrypt pw salt KEY_LENGTH = Inr key') \<and>
    verifyPassword scrypt pw stored = Inr True"
  using verify_hashed [OF assms(1-3) assms(4)] verify_hashed [OF assms(1-3)] assms(3)
  by (auto simp: hashPassword_def split: sum.splits)

theorem password_roundtrip_witness:
  "\<exists>stored. hashPassword demo_kdf [1] ''secret'' = Inr stored \<and>
     verifyPassword demo_kdf ''secret'' stored = Inr True \<and> verifyPassword demo_kdf ''guess'' stored = Inr False"
proof -
  have h: "hashPassword demo_kdf [1] ''secret'' = Inr (hex_encode [1] @ '':'' @ hex_encode (replicate 64 6))"
    by (simp add: hashPassword_def demo_kdf_def KEY_LENGTH_def)
  have k: "demo_kdf ''guess'' [1] KEY_LENGTH = Inr (replicate 64 5)" "demo_kdf ''secret'' [1] KEY_LENGTH = Inr (replicate 64 6)"
    by (simp_all add: demo_kdf_def KEY_LENGTH_def)
  have "replicate 64 (5::8 word) \<noteq> replicate 64 6" by (simp add: replicate_eq_replicate)
  with password_roundtrip [OF demo_kdf_lengths _ h k(1)] h k(2) show ?thesis by auto
qed

text \<open>
  C36. A stored value whose second part does not start with two hexadecimal digits decodes to an
  empty key, so the comparison is between two empty keys: every password for which \<open>scrypt\<close>
  returns a key is accepted, not rejected as the comment above the length test says.
\<close>

theorem malformed_hash_accepts_all:
  assumes "kdf_lengths scrypt" and "CHR '':'' \<notin> set a" and "CHR '':'' \<notin> set b" and "a \<noteq> []"
    and "b \<noteq> []" and "hex_decode b = []" and "scrypt pw (hex_decode a) 0 = Inr key"
  shows "verifyPassword scrypt pw (a @ '':'' @ b) = Inr True"
proof -
  from assms(1,7) have "key = []" by (auto simp: kdf_lengths_def)
  with assms parse_stored_join [OF assms(2-5)] show ?thesis by (simp add: verifyPassword_def)
qed

theorem malformed_hash_accepts_all_witness:
  "verifyPassword demo_kdf ''anything'' ''00:corrupt'' = Inr True"
  using malformed_hash_accepts_all [OF demo_kdf_lengths, of "''00''" "''corrupt''" "''anything''" "[]"]
  by (simp add: demo_kdf_def)

end
