(* ===== verification/Auth.thy ===== *)
theory Auth
  imports Password Database "HOL-Library.Sublist"
begin

text \<open>
  Accounts and tokens: the user repository (\<open>modules/auth/infrastructure/user.repository.ts\<close>),
  registering and logging in (\<open>modules/auth/application/*.ts\<close>), tokens (\<open>shared/auth/jwt.ts\<close>) and
  the \<open>requireAuth\<close> guard (\<open>shared/middleware/requireAuth.ts\<close>). The library \<open>jsonwebtoken\<close>, the
  key derivation and the shape of a driver error are the fields of the parameter \<open>auth_env\<close>.
\<close>

subsection \<open>The parameters\<close>

text \<open>
  What \<open>jwt.verify\<close> returns or throws. Of a decoded object only the type of its \<open>userId\<close> is
  looked at; a numeric one is taken as an integer, as every token of this service carries.
\<close>

datatype user_claim = NumberClaim int | OtherClaim

datatype jwt_decoded = JwtText string | JwtObject user_claim

datatype jwt_failure = TokenExpiredError | JsonWebTokenError

text \<open>
  \<open>au_code\<close> is the \<open>code\<close> property of a thrown value, when it has one: the driver's SQLSTATE if
  the query builder passes driver errors on, nothing if it wraps them.
\<close>

record auth_env =
  au_scrypt :: kdf
  au_sign :: "int \<Rightarrow> string"
  au_verify :: "string \<Rightarrow> jwt_failure + jwt_decoded"
  au_code :: "js_error \<Rightarrow> string option"

subsection \<open>Tokens\<close>

definition signAuthToken :: "auth_env \<Rightarrow> int \<Rightarrow> string" where
  "signAuthToken env userId = au_sign env userId"

definition verifyAuthToken :: "auth_env \<Rightarrow> string \<Rightarrow> jwt_failure + int" where
  "verifyAuthToken env token =
     (case au_verify env token of
        Inl e \<Rightarrow> Inl e
      | Inr (JwtText s) \<Rightarrow> Inl JsonWebTokenError
      | Inr (JwtObject OtherClaim) \<Rightarrow> Inl JsonWebTokenError
      | Inr (JwtObject (NumberClaim userId)) \<Rightarrow> Inr userId)"

definition requireAuth :: "auth_env \<Rightarrow> string option \<Rightarrow> int result" where
  "requireAuth env authorization =
     (case authorization of
        None \<Rightarrow> Inl (UnauthorizedError default_unauthorized)
      | Some header \<Rightarrow>
          if \<not> prefix ''Bearer '' header then Inl (UnauthorizedError default_unauthorized)
          else (case verifyAuthToken env (drop (length ''Bearer '') header) of
                  Inr userId \<Rightarrow> Inr userId
                | Inl TokenExpiredError \<Rightarrow> Inl (UnauthorizedError ''Token expired'')
                | Inl JsonWebTokenError \<Rightarrow> Inl (UnauthorizedError default_unauthorized)))"

subsection \<open>The users table\<close>

definition findUserByEmail :: "string \<Rightarrow> db \<Rightarrow> user_row option" where
  "findUserByEmail email d = first_row (filter (\<lambda>u. user_email u = email) (users d))"

definition createUser :: "string \<Rightarrow> string \<Rightarrow> int \<Rightarrow> user_row query" where
  "createUser email passwordHash now d =
     (if users_seq d > int4_max then Inl sequence_exhausted
      else if \<exists>u\<in>set (users d). user_email u = email then Inl unique_violation
      else let row = \<lparr>user_id = users_seq d, user_email = email, user_passwordHash = passwordHash,
                      user_createdAt = now\<rparr>
           in Inr (row, d\<lparr>users := users d @ [row], users_seq := users_seq d + 1\<rparr>))"

subsection \<open>Registering\<close>

record auth_reply =
  ar_id :: int
  ar_email :: string
  ar_token :: string

text \<open>The stages between the awaits: the check, the hash, the insert with its catch.\<close>

definition register_check :: "string \<Rightarrow> db \<Rightarrow> unit result" where
  "register_check email d =
     (case findUserByEmail email d of
        Some existing \<Rightarrow> Inl EmailAlreadyRegisteredError
      | None \<Rightarrow> Inr ())"

definition register_insert :: "auth_env \<Rightarrow> string \<Rightarrow> string \<Rightarrow> int \<Rightarrow> user_row query" where
  "register_insert env email passwordHash now d =
     (case createUser email passwordHash now d of
        Inl err \<Rightarrow> Inl (if au_code env err = Some ''23505'' then EmailAlreadyRegisteredError else err)
      | Inr r \<Rightarrow> Inr r)"

definition auth_reply_of :: "auth_env \<Rightarrow> user_row \<Rightarrow> auth_reply" where
  "auth_reply_of env user = \<lparr>ar_id = user_id user, ar_email = user_email user,
     ar_token = signAuthToken env (user_id user)\<rparr>"

definition registerUser ::
  "auth_env \<Rightarrow> bytes \<Rightarrow> string \<Rightarrow> string \<Rightarrow> int \<Rightarrow> db \<Rightarrow> auth_reply result \<times> db" where
  "registerUser env salt email password now d =
     (case register_check email d of
        Inl e \<Rightarrow> (Inl e, d)
      | Inr _ \<Rightarrow>
          (case hashPassword (au_scrypt env) salt password of
             Inl e \<Rightarrow> (Inl e, d)
           | Inr passwordHash \<Rightarrow>
               (case register_insert env email passwordHash now d of
                  Inl e \<Rightarrow> (Inl e, d)
                | Inr (user, d') \<Rightarrow> (Inr (auth_reply_of env user), d'))))"

subsection \<open>Logging in\<close>

definition DUMMY_PASSWORD_HASH :: string where
  "DUMMY_PASSWORD_HASH = ''4a2ef54ef807453be20f4eb7c0bfe44e:d3be26438fe0e22012c86fb6880cb0c23e4ad1b896b90031faeea5db537123cf7b50e9795335a4d65008fc2cafb65d8201e56efe297241539d7a9d826248a191''"

text \<open>\<open>user?.passwordHash ?? DUMMY_PASSWORD_HASH\<close>.\<close>

definition login_hash :: "string \<Rightarrow> db \<Rightarrow> string" where
  "login_hash email d =
     (case findUserByEmail email d of None \<Rightarrow> DUMMY_PASSWORD_HASH | Some user \<Rightarrow> user_passwordHash user)"

definition loginUser :: "auth_env \<Rightarrow> string \<Rightarrow> string \<Rightarrow> db \<Rightarrow> auth_reply result" where
  "loginUser env email password d =
     (case verifyPassword (au_scrypt env) password (login_hash email d) of
        Inl e \<Rightarrow> Inl e
      | Inr valid \<Rightarrow>
          (case findUserByEmail email d of
             None \<Rightarrow> Inl InvalidCredentialsError
           | Some user \<Rightarrow>
               if \<not> valid then Inl InvalidCredentialsError
               else Inr (auth_reply_of env user)))"

subsection \<open>Lemmas\<close>

lemma findUserByEmail_None: "findUserByEmail email d = None \<longleftrightarrow> (\<forall>u\<in>set (users d). user_email u \<noteq> email)"
  by (auto simp: findUserByEmail_def filter_empty_conv)

lemma findUserByEmail_SomeD:
  "findUserByEmail email d = Some u \<Longrightarrow> u \<in> set (users d) \<and> user_email u = email"
  by (auto simp: findUserByEmail_def dest!: first_row_SomeD)

lemma findUserByEmail_new:
  "findUserByEmail email d = None \<Longrightarrow> user_email u = email \<Longrightarrow>
     findUserByEmail email (d\<lparr>users := users d @ [u], users_seq := n\<rparr>) = Some u"
  by (simp add: findUserByEmail_def)

lemma registerUser_cases:
  assumes "registerUser env salt email pw now d = (Inr r, d')"
  obtains h user where "findUserByEmail email d = None" "hashPassword (au_scrypt env) salt pw = Inr h"
    "user = \<lparr>user_id = users_seq d, user_email = email, user_passwordHash = h, user_createdAt = now\<rparr>"
    "users_seq d \<le> int4_max" "r = auth_reply_of env user"
    "d' = d\<lparr>users := users d @ [user], users_seq := users_seq d + 1\<rparr>"
  using assms
  by (auto simp: registerUser_def register_check_def register_insert_def createUser_def Let_def
      split: sum.splits option.splits if_splits)

text \<open>The salt and key lengths of the derivation that verifying a stored value asks for.\<close>

definition kdf_work :: "string \<Rightarrow> (nat \<times> nat) option" where
  "kdf_work stored = map_option (\<lambda>(salt, key). (length salt, length key)) (parse_stored stored)"

lemma kdf_work_dummy: "kdf_work DUMMY_PASSWORD_HASH = Some (SALT_LENGTH, KEY_LENGTH)"
  by code_simp

lemma kdf_work_hashPassword:
  assumes "kdf_lengths scrypt" and "length salt = SALT_LENGTH" and "hashPassword scrypt salt pw = Inr h"
  shows "kdf_work h = Some (SALT_LENGTH, KEY_LENGTH)"
proof -
  obtain key where key: "scrypt pw salt KEY_LENGTH = Inr key" "h = hex_encode salt @ CHR '':'' # hex_encode key"
    using assms(3) by (auto simp: hashPassword_def split: sum.splits)
  then have "length key = KEY_LENGTH" using assms(1) by (auto simp: kdf_lengths_def)
  moreover from this have "salt \<noteq> []" "key \<noteq> []" using assms(2) by (auto simp: SALT_LENGTH_def KEY_LENGTH_def)
  ultimately show ?thesis using key(2) assms(2) by (simp add: kdf_work_def parse_stored_hash)
qed

subsection \<open>The accounts invariant\<close>

text \<open>
  Requests at any stage of registering, on any instance: a step of the users table is an insert
  that a request makes after its check, with any other requests in between, with a hash it
  computed from a fresh salt.
\<close>

definition accounts_ok :: "db \<Rightarrow> bool" where
  "accounts_ok d \<longleftrightarrow> distinct (map user_email (users d)) \<and> distinct (map user_id (users d)) \<and>
     (\<forall>u\<in>set (users d). user_id u < users_seq d \<and>
        kdf_work (user_passwordHash u) = Some (SALT_LENGTH, KEY_LENGTH))"

inductive accounts_step :: "auth_env \<Rightarrow> db \<Rightarrow> db \<Rightarrow> bool" for env :: auth_env where
  inserted: "length salt = SALT_LENGTH \<Longrightarrow> hashPassword (au_scrypt env) salt pw = Inr h \<Longrightarrow>
    register_insert env email h now d = Inr (user, d') \<Longrightarrow> accounts_step env d d'"
| burned: "accounts_step env d (d\<lparr>users_seq := users_seq d + 1\<rparr>)"

definition accounts_init :: "auth_env \<Rightarrow> db \<Rightarrow> bool" where
  "accounts_init env d \<longleftrightarrow> users d = [] \<and> kdf_lengths (au_scrypt env)"

definition accounts_inv :: "auth_env \<Rightarrow> db \<Rightarrow> bool" where
  "accounts_inv env d \<longleftrightarrow> kdf_lengths (au_scrypt env) \<and> accounts_ok d"

lemma accounts_inv_init: "accounts_init env d \<Longrightarrow> accounts_inv env d"
  by (simp add: accounts_init_def accounts_inv_def accounts_ok_def)

lemma accounts_inv_step:
  assumes "accounts_inv env d" and "accounts_step env d d'"
  shows "accounts_inv env d'"
  using assms(2,1)
proof (induction rule: accounts_step.induct)
  case (inserted salt pw h email now d user d')
  then have "kdf_work h = Some (SALT_LENGTH, KEY_LENGTH)"
    by (auto simp: accounts_inv_def intro: kdf_work_hashPassword)
  with inserted show ?case
    by (force simp: accounts_inv_def accounts_ok_def register_insert_def createUser_def Let_def
        split: sum.splits if_splits)
next
  case (burned d)
  then show ?case by (force simp: accounts_inv_def accounts_ok_def)
qed

interpretation accounts: invariant_system "accounts_init env" "accounts_step env" "accounts_inv env" for env
  by unfold_locales (rule accounts_inv_init, assumption, rule accounts_inv_step)

subsection \<open>Properties\<close>

text \<open>
  The service's own tokens are accepted until they expire: what is assumed of \<open>jsonwebtoken\<close>.
\<close>

definition tokens_verify :: "auth_env \<Rightarrow> bool" where
  "tokens_verify env \<longleftrightarrow> (\<forall>userId. au_verify env (au_sign env userId) = Inr (JwtObject (NumberClaim userId)))"

definition demo_env :: auth_env where
  "demo_env = \<lparr>au_scrypt = demo_kdf, au_sign = show_int,
     au_verify = (\<lambda>t. if t = show_int 1 then Inr (JwtObject (NumberClaim 1))
       else if t = ''old'' then Inl TokenExpiredError else Inl JsonWebTokenError),
     au_code = (\<lambda>e. case e of DbError c \<Rightarrow> Some c | _ \<Rightarrow> None)\<rparr>"

definition no_users :: db where
  "no_users = \<lparr>venues = [], events = [], seats = [], users = [], bookings = [], users_seq = 1, bookings_seq = 1\<rparr>"



text \<open>
  One account per email, whatever the interleaving of registrations: in every reachable state
  of the users table no email and no id occurs twice, and verifying a login asks for the same key
  derivation (salt and key length) whether the email has an account or not.
\<close>

theorem accounts_reachable:
  assumes "reachable_from (accounts_init env) (accounts_step env) d"
  shows "distinct (map user_email (users d)) \<and> distinct (map user_id (users d)) \<and>
    kdf_work (login_hash email d) = Some (SALT_LENGTH, KEY_LENGTH)"
proof -
  from accounts.reachable_inv [OF assms] have "accounts_ok d" by (simp add: accounts_inv_def)
  then show ?thesis
    by (auto simp: accounts_ok_def login_hash_def kdf_work_dummy split: option.splits
        dest!: findUserByEmail_SomeD)
qed

theorem accounts_reachable_witness:
  "kdf_work (login_hash ''nobody@b.c'' no_users) = Some (SALT_LENGTH, KEY_LENGTH)"
proof -
  have "accounts_init demo_env no_users"
    by (simp add: accounts_init_def no_users_def demo_env_def demo_kdf_lengths)
  with accounts_reachable [OF reach_init, of demo_env no_users "''nobody@b.c''"] show ?thesis by simp
qed

text \<open>
  C33. Two registrations of the same email that both pass the check: the one that inserts second
  leaves the table as the first made it, and its reply is the conflict error when the driver's
  SQLSTATE is visible on the thrown value; when the query builder wraps driver errors the raw
  database error escapes, which the error handler answers with 500.
\<close>

theorem register_race:
  assumes "register_check email d = Inr ()" and "register_insert env email h1 t1 d = Inr (u1, d1)"
    and "users_seq d1 \<le> int4_max"
  shows "let r = register_insert env email h2 t2 d1
    in r = Inl (if au_code env unique_violation = Some ''23505'' then EmailAlreadyRegisteredError
                else unique_violation) \<and>
       er_status (errorHandler prettify (projl r)) =
         (if au_code env unique_violation = Some ''23505'' then 409 else 500)"
proof -
  from assms(1,2) have "\<exists>u\<in>set (users d1). user_email u = email"
    by (auto simp: register_insert_def createUser_def Let_def split: sum.splits if_splits)
  with assms(3) have "createUser email h2 t2 d1 = Inl unique_violation" by (auto simp: createUser_def)
  then show ?thesis
    by (simp add: register_insert_def EmailAlreadyRegisteredError_def unique_violation_def)
qed

theorem register_race_witness:
  "\<exists>d1. register_insert demo_env ''a@b.c'' ''y'' 1 d1 = Inl EmailAlreadyRegisteredError"
proof -
  have ok: "register_check ''a@b.c'' no_users = Inr ()"
    by (simp add: register_check_def findUserByEmail_def no_users_def)
  have code: "au_code demo_env unique_violation = Some ''23505''"
    by (simp add: demo_env_def unique_violation_def)
  have "register_insert demo_env ''a@b.c'' ''x'' 0 no_users =
      Inr (\<lparr>user_id = 1, user_email = ''a@b.c'', user_passwordHash = ''x'', user_createdAt = 0\<rparr>,
           no_users\<lparr>users := [\<lparr>user_id = 1, user_email = ''a@b.c'', user_passwordHash = ''x'', user_createdAt = 0\<rparr>],
             users_seq := 2\<rparr>)"
    by (simp add: register_insert_def createUser_def no_users_def int4_max_def Let_def)
  from register_race [OF ok this, of "''y''" 1 "\<lambda>_. ''''"] code show ?thesis
    unfolding Let_def int4_max_def by auto
qed

text \<open>
  \<open>requireAuth\<close> lets a request through exactly when its header is \<open>Bearer\<close>, one space and a
  token that verifies to an object with a numeric user id, and then with that id; in every other
  case the error handler answers 401, and the message says "Token expired" only for a token that
  has expired.
\<close>

theorem requireAuth_outcome:
  "(requireAuth env header = Inr userId \<longleftrightarrow>
      (\<exists>token. header = Some (''Bearer '' @ token) \<and> au_verify env token = Inr (JwtObject (NumberClaim userId)))) \<and>
   (\<forall>e. requireAuth env header = Inl e \<longrightarrow> er_status (errorHandler prettify e) = 401 \<and>
      (e = UnauthorizedError ''Token expired'' \<longleftrightarrow>
        (\<exists>token. header = Some (''Bearer '' @ token) \<and> au_verify env token = Inl TokenExpiredError)))"
proof (cases "\<exists>token. header = Some (''Bearer '' @ token)")
  case True
  then obtain token where h: "header = Some (''Bearer '' @ token)" by blast
  show ?thesis
    by (cases "au_verify env token")
      (auto simp: h requireAuth_def verifyAuthToken_def UnauthorizedError_def default_unauthorized_def
        split: jwt_decoded.splits user_claim.splits jwt_failure.splits)
next
  case False
  then have "requireAuth env header = Inl (UnauthorizedError default_unauthorized)"
    by (auto simp: requireAuth_def prefix_def split: option.splits)
  with False show ?thesis by (auto simp: UnauthorizedError_def default_unauthorized_def)
qed

theorem requireAuth_outcome_witness:
  "requireAuth demo_env (Some ''Bearer old'') = Inl (UnauthorizedError ''Token expired'')"
proof -
  have old: "au_verify demo_env ''old'' = Inl TokenExpiredError"
    by (simp add: demo_env_def show_int_def show_nat.simps)
  have "requireAuth demo_env (Some ''Bearer old'') \<noteq> Inr u" for u
    using requireAuth_outcome [of demo_env "Some ''Bearer old''" u concat] old by auto
  then obtain e where e: "requireAuth demo_env (Some ''Bearer old'') = Inl e"
    by (cases "requireAuth demo_env (Some ''Bearer old'')") auto
  with requireAuth_outcome [of demo_env "Some ''Bearer old''" 0 concat] old show ?thesis by auto
qed

end
