(* ===== verification/Rate_Limiter.thy ===== *)
theory Rate_Limiter
  imports Errors
begin

text \<open>
  The rate limiter (\<open>shared/middleware/rateLimiter.ts\<close>). Redis is the parameter \<open>redis\<close>: INCR and
  EXPIRE NX, each with any outcome and effect. What the properties assume of it is the predicate
  \<open>redis_laws\<close>: the documented effect of the two commands on the counter and on the time to live
  of a key.
\<close>

subsection \<open>The limiter\<close>

record 'r redis =
  rd_incr :: "string \<Rightarrow> 'r \<Rightarrow> int result \<times> 'r"
  rd_expire_nx :: "string \<Rightarrow> int \<Rightarrow> 'r \<Rightarrow> js_error option \<times> 'r"

record limits =
  WINDOW_SECONDS :: int
  MAX_REQUESTS :: int

definition EXEMPT_ROUTES :: "string list" where
  "EXEMPT_ROUTES = [''/health'', ''/metrics'']"

definition rate_key :: "string option \<Rightarrow> string" where
  "rate_key ip = ''rate_limit:'' @ (case ip of None \<Rightarrow> ''unknown'' | Some i \<Rightarrow> i)"

text \<open>\<open>route\<close> is \<open>request.routeOptions?.url\<close>, \<open>ip\<close> is \<open>request.ip\<close>.\<close>

definition rateLimiter ::
  "'r redis \<Rightarrow> limits \<Rightarrow> string option \<Rightarrow> string option \<Rightarrow> 'r \<Rightarrow> unit result \<times> 'r" where
  "rateLimiter rd lim route ip st =
     (if (case route of None \<Rightarrow> False | Some url \<Rightarrow> url \<noteq> '''' \<and> url \<in> set EXEMPT_ROUTES) then (Inr (), st)
      else (case rd_incr rd (rate_key ip) st of
              (Inl e, st1) \<Rightarrow> (Inl e, st1)
            | (Inr current, st1) \<Rightarrow>
                (case rd_expire_nx rd (rate_key ip) (WINDOW_SECONDS lim) st1 of
                   (Some e, st2) \<Rightarrow> (Inl e, st2)
                 | (None, st2) \<Rightarrow>
                     if current > MAX_REQUESTS lim then (Inl RateLimitError, st2) else (Inr (), st2))))"

text \<open>The requests of several clients to routes that are not exempt, one after the other.\<close>

fun limit_all ::
  "'r redis \<Rightarrow> limits \<Rightarrow> (string option \<times> string option) list \<Rightarrow> 'r \<Rightarrow> unit result list \<times> 'r" where
  "limit_all rd lim [] st = ([], st)"
| "limit_all rd lim ((route, ip) # rs) st =
     (case rateLimiter rd lim route ip st of (r, st1) \<Rightarrow>
        (case limit_all rd lim rs st1 of (xs, st2) \<Rightarrow> (r # xs, st2)))"

subsection \<open>What Redis does\<close>

definition redis_laws :: "'r redis \<Rightarrow> ('r \<Rightarrow> string \<Rightarrow> int) \<Rightarrow> ('r \<Rightarrow> string \<Rightarrow> int option) \<Rightarrow> bool" where
  "redis_laws rd count ttl \<longleftrightarrow>
     (\<forall>k st. \<exists>st'. rd_incr rd k st = (Inr (count st k + 1), st') \<and>
        count st' = (count st)(k := count st k + 1) \<and> ttl st' = ttl st) \<and>
     (\<forall>k w st. \<exists>st'. rd_expire_nx rd k w st = (None, st') \<and> count st' = count st \<and>
        ttl st' = (ttl st)(k := (case ttl st k of None \<Rightarrow> Some w | Some t \<Rightarrow> Some t)))"

definition exempt :: "string option \<Rightarrow> bool" where
  "exempt route \<longleftrightarrow> route \<in> Some ` set EXEMPT_ROUTES"

lemma rateLimiter_exempt: "exempt route \<Longrightarrow> rateLimiter rd lim route ip st = (Inr (), st)"
  by (auto simp: exempt_def rateLimiter_def EXEMPT_ROUTES_def)

lemma rateLimiter_step:
  assumes "redis_laws rd count ttl" and "\<not> exempt route"
  obtains st' where "rateLimiter rd lim route ip st =
      (if count st (rate_key ip) + 1 > MAX_REQUESTS lim then Inl RateLimitError else Inr (), st')"
    "count st' = (count st)(rate_key ip := count st (rate_key ip) + 1)"
    "ttl st' = (ttl st)(rate_key ip :=
       (case ttl st (rate_key ip) of None \<Rightarrow> Some (WINDOW_SECONDS lim) | Some t \<Rightarrow> Some t))"
proof -
  have ne: "\<not> (case route of None \<Rightarrow> False | Some url \<Rightarrow> url \<noteq> '''' \<and> url \<in> set EXEMPT_ROUTES)"
    using assms(2) by (auto simp: exempt_def split: option.splits)
  obtain st1 where 1: "rd_incr rd (rate_key ip) st = (Inr (count st (rate_key ip) + 1), st1)"
    "count st1 = (count st)(rate_key ip := count st (rate_key ip) + 1)" "ttl st1 = ttl st"
    using assms(1) unfolding redis_laws_def by blast
  obtain st2 where 2: "rd_expire_nx rd (rate_key ip) (WINDOW_SECONDS lim) st1 = (None, st2)" "count st2 = count st1"
    "ttl st2 = (ttl st1)(rate_key ip :=
       (case ttl st1 (rate_key ip) of None \<Rightarrow> Some (WINDOW_SECONDS lim) | Some t \<Rightarrow> Some t))"
    using assms(1) unfolding redis_laws_def by blast
  show ?thesis
    by (rule that [of st2]) (use ne 1 2 in \<open>simp_all add: rateLimiter_def\<close>)
qed

lemma rate_key_inj: "rate_key (Some a) = rate_key (Some b) \<longleftrightarrow> a = b"
  by (simp add: rate_key_def)

text \<open>A Redis with counters and times to live, for the witnesses.\<close>

type_synonym plain_redis = "(string \<Rightarrow> int) \<times> (string \<Rightarrow> int option)"

definition plain_redis :: "plain_redis redis" where
  "plain_redis = \<lparr>rd_incr = (\<lambda>k (c, t). (Inr (c k + 1), (c(k := c k + 1), t))),
     rd_expire_nx = (\<lambda>k w (c, t). (None, (c, t(k := (case t k of None \<Rightarrow> Some w | Some x \<Rightarrow> Some x)))))\<rparr>"

lemma plain_redis_laws: "redis_laws plain_redis fst snd"
  by (auto simp: redis_laws_def plain_redis_def)

lemma limit_all_Cons:
  "fst (limit_all rd lim ((route, ip) # rs) st) =
     fst (rateLimiter rd lim route ip st) # fst (limit_all rd lim rs (snd (rateLimiter rd lim route ip st)))"
  by (simp split: prod.splits)

subsection \<open>Properties\<close>

definition earlier :: "(string option \<times> string option) list \<Rightarrow> nat \<Rightarrow> string \<Rightarrow> nat" where
  "earlier rs i k = length (filter (\<lambda>(route, ip). \<not> exempt route \<and> rate_key ip = k) (take i rs))"

text \<open>
  C38. The limit is exact and per client: while no window expires, request number i of any mix of
  requests by any clients is let through exactly when its route is exempt, or the client's
  counter and the number of the client's own earlier requests together are below the maximum.
  The requests of other clients do not count.
\<close>

theorem rate_limit_exact:
  assumes "redis_laws rd count ttl" and "i < length rs"
  shows "fst (limit_all rd lim rs st) ! i =
    (if \<not> exempt (fst (rs ! i)) \<and>
        count st (rate_key (snd (rs ! i))) + int (earlier rs i (rate_key (snd (rs ! i)))) \<ge> MAX_REQUESTS lim
     then Inl RateLimitError else Inr ())"
  using assms(2)
proof (induction rs arbitrary: st i)
  case (Cons r rs)
  obtain route ip where r: "r = (route, ip)" by (rule prod.exhaust)
  show ?case
  proof (cases "exempt route")
    case True
    with Cons r show ?thesis
      by (cases i) (simp_all add: rateLimiter_exempt earlier_def limit_all_Cons del: limit_all.simps)
  next
    case False
    obtain st' where st': "rateLimiter rd lim route ip st =
        (if count st (rate_key ip) + 1 > MAX_REQUESTS lim then Inl RateLimitError else Inr (), st')"
      "count st' = (count st)(rate_key ip := count st (rate_key ip) + 1)"
      using assms(1) False by (rule rateLimiter_step)
    show ?thesis
    proof (cases i)
      case 0
      with r st'(1) False show ?thesis by (simp add: earlier_def limit_all_Cons del: limit_all.simps)
    next
      case (Suc j)
      with Cons.prems have "j < length rs" by simp
      from Cons.IH [OF this, of st'] r st' False Suc show ?thesis
        by (simp add: earlier_def limit_all_Cons add.assoc del: limit_all.simps)
    qed
  qed
qed simp

theorem rate_limit_exact_witness:
  "fst (limit_all plain_redis \<lparr>WINDOW_SECONDS = 60, MAX_REQUESTS = 1\<rparr>
      [(None, Some ''a''), (None, Some ''b''), (None, Some ''a'')] (\<lambda>_. 0, \<lambda>_. None)) ! 2 = Inl RateLimitError"
  using rate_limit_exact [OF plain_redis_laws, of 2 "[(None, Some ''a''), (None, Some ''b''), (None, Some ''a'')]"
      "\<lparr>WINDOW_SECONDS = 60, MAX_REQUESTS = 1\<rparr>" "(\<lambda>_. 0, \<lambda>_. None)"]
  by (simp add: earlier_def exempt_def rate_key_def take_Suc numeral_2_eq_2)

text \<open>
  No client is locked out for good: after a request to a route that is not exempt its
  counter has a time to live, whether the request was let through or refused and even if an
  earlier one had lost it, and a time to live that was already set is not prolonged. The
  counters of other clients and, on an exempt route, all of Redis stay as they were.
\<close>

theorem rate_window_heals:
  assumes "redis_laws rd count ttl" and "rateLimiter rd lim route ip st = (r, st')"
  shows "if exempt route then st' = st
    else ttl st' (rate_key ip) =
           Some (case ttl st (rate_key ip) of None \<Rightarrow> WINDOW_SECONDS lim | Some t \<Rightarrow> t) \<and>
         (\<forall>k. k \<noteq> rate_key ip \<longrightarrow> count st' k = count st k \<and> ttl st' k = ttl st k)"
proof (cases "exempt route")
  case True
  with assms(2) show ?thesis by (simp add: rateLimiter_exempt)
next
  case False
  obtain st2 where "rateLimiter rd lim route ip st =
      (if count st (rate_key ip) + 1 > MAX_REQUESTS lim then Inl RateLimitError else Inr (), st2)"
    "count st2 = (count st)(rate_key ip := count st (rate_key ip) + 1)"
    "ttl st2 = (ttl st)(rate_key ip :=
       (case ttl st (rate_key ip) of None \<Rightarrow> Some (WINDOW_SECONDS lim) | Some t \<Rightarrow> Some t))"
    using assms(1) False by (rule rateLimiter_step)
  with assms(2) False show ?thesis by (auto split: option.splits)
qed

theorem rate_window_heals_witness:
  "snd (snd (rateLimiter plain_redis \<lparr>WINDOW_SECONDS = 60, MAX_REQUESTS = 1\<rparr> (Some ''/bookings/'') (Some ''a'')
      (\<lambda>_. 5, \<lambda>_. None))) (rate_key (Some ''a'')) = Some 60"
  using rate_window_heals [OF plain_redis_laws, of "\<lparr>WINDOW_SECONDS = 60, MAX_REQUESTS = 1\<rparr>" "Some ''/bookings/''" "Some ''a''"
      "(\<lambda>_. 5, \<lambda>_. None)"]
  by (cases "rateLimiter plain_redis \<lparr>WINDOW_SECONDS = 60, MAX_REQUESTS = 1\<rparr> (Some ''/bookings/'') (Some ''a'')
      (\<lambda>_. 5, \<lambda>_. None)") (auto simp: exempt_def EXEMPT_ROUTES_def)

end
