(* ===== verification/Http.thy ===== *)
theory Http
  imports Catalog Auth Rate_Limiter Validation
begin

text \<open>
  The HTTP layer: the routes and controllers of the three modules
  (\<open>modules/*/interface/*.ts\<close>), the hooks around them (\<open>index.ts\<close>, \<open>securityHeaders.ts\<close>) and the
  order in which Fastify runs them: the global \<open>preHandler\<close> (the rate limiter), the route's own
  \<open>preHandler\<close> (\<open>requireAuth\<close> on every booking route), the controller, the error handler when one
  of them throws, and \<open>onSend\<close>. A request is what reaches the \<open>preHandler\<close> hooks: a matched route
  with its parsed body. Their schemas are those of \<open>Validation\<close>.
\<close>

subsection \<open>Requests and replies\<close>

datatype route =
    ReserveRoute | ListBookingsRoute | GetBookingRoute | ConfirmRoute | CancelRoute
  | ListEventsRoute | ListSeatsRoute
  | RegisterRoute | LoginRoute

fun route_url :: "route \<Rightarrow> string" where
  "route_url ReserveRoute = ''/bookings/reserve''"
| "route_url ListBookingsRoute = ''/bookings/''"
| "route_url GetBookingRoute = ''/bookings/:bookingId''"
| "route_url ConfirmRoute = ''/bookings/:bookingId/confirm''"
| "route_url CancelRoute = ''/bookings/:bookingId/cancel''"
| "route_url ListEventsRoute = ''/events/''"
| "route_url ListSeatsRoute = ''/events/:eventId/seats''"
| "route_url RegisterRoute = ''/auth/register''"
| "route_url LoginRoute = ''/auth/login''"

text \<open>The routes with \<open>preHandler: requireAuth\<close>.\<close>

fun requires_auth :: "route \<Rightarrow> bool" where
  "requires_auth ReserveRoute = True"
| "requires_auth ListBookingsRoute = True"
| "requires_auth GetBookingRoute = True"
| "requires_auth ConfirmRoute = True"
| "requires_auth CancelRoute = True"
| "requires_auth _ = False"

record request =
  rq_route :: route
  rq_ip :: "string option"
  rq_authorization :: "string option"
  rq_param :: string
  rq_query :: "(string \<times> string) list"
  rq_body :: "json option"

datatype reply_body =
    OneBooking booking_row
  | ManyBookings "booking_row list"
  | ManyEvents "event_listing list"
  | ManySeats "seat_row list"
  | Credentials auth_reply
  | ErrorBody string string

record reply =
  rp_status :: int
  rp_body :: reply_body
  rp_headers :: "(string \<times> string) list"

text \<open>\<open>schema.parse\<close>: the value, or a \<open>ZodError\<close> with the issues.\<close>

definition parse :: "('a \<Rightarrow> zod_issues + 'b) \<Rightarrow> 'a \<Rightarrow> 'b result" where
  "parse schema v = (case schema v of Inl is \<Rightarrow> Inl (ZodError is) | Inr x \<Rightarrow> Inr x)"

text \<open>The times the handlers read, the salt drawn, the hold duration and the collation key.\<close>

record 'c surroundings =
  t_hold :: int
  t_db :: int
  t_sched :: int
  t_event :: int
  fresh_salt :: bytes
  hold_duration_ms :: int
  collation :: "string \<Rightarrow> 'c"

subsection \<open>Controllers\<close>

type_synonym ('q, 'k) handled = "(int \<times> reply_body) result \<times> ('q, 'k) world"

definition reserveSeatHandler ::
  "schemas \<Rightarrow> ('q, 'k) services \<Rightarrow> ('c, 'z) surroundings_scheme \<Rightarrow> request \<Rightarrow> int \<Rightarrow> ('q, 'k) world \<Rightarrow>
   ('q, 'k) handled" where
  "reserveSeatHandler sc svc su rq userId w =
     (case parse (reserveSeatSchema sc) (rq_body rq) of
        Inl e \<Rightarrow> (Inl e, w)
      | Inr seatId \<Rightarrow>
          (case reserveSeat svc (hold_duration_ms su) seatId userId (t_hold su) (t_db su) (t_sched su) (t_event su) w of
             (Inl e, w') \<Rightarrow> (Inl e, w')
           | (Inr booking, w') \<Rightarrow> (Inr (201, OneBooking booking), w')))"

definition confirmBookingHandler ::
  "schemas \<Rightarrow> ('q, 'k) services \<Rightarrow> ('c, 'z) surroundings_scheme \<Rightarrow> request \<Rightarrow> int \<Rightarrow> ('q, 'k) world \<Rightarrow>
   ('q, 'k) handled" where
  "confirmBookingHandler sc svc su rq userId w =
     (case parse (bookingIdParamSchema sc) (rq_param rq) of
        Inl e \<Rightarrow> (Inl e, w)
      | Inr bookingId \<Rightarrow>
          (case confirmBooking svc bookingId userId (t_db su) (t_event su) w of
             (Inl e, w') \<Rightarrow> (Inl e, w')
           | (Inr booking, w') \<Rightarrow> (Inr (200, OneBooking booking), w')))"

definition cancelBookingHandler ::
  "schemas \<Rightarrow> ('q, 'k) services \<Rightarrow> ('c, 'z) surroundings_scheme \<Rightarrow> request \<Rightarrow> int \<Rightarrow> ('q, 'k) world \<Rightarrow>
   ('q, 'k) handled" where
  "cancelBookingHandler sc svc su rq userId w =
     (case parse (bookingIdParamSchema sc) (rq_param rq) of
        Inl e \<Rightarrow> (Inl e, w)
      | Inr bookingId \<Rightarrow>
          (case cancelBooking svc bookingId userId (t_db su) (t_event su) w of
             (Inl e, w') \<Rightarrow> (Inl e, w')
           | (Inr booking, w') \<Rightarrow> (Inr (200, OneBooking booking), w')))"

definition getBookingHandler ::
  "schemas \<Rightarrow> request \<Rightarrow> int \<Rightarrow> ('q, 'k) world \<Rightarrow> ('q, 'k) handled" where
  "getBookingHandler sc rq userId w =
     (case parse (bookingIdParamSchema sc) (rq_param rq) of
        Inl e \<Rightarrow> (Inl e, w)
      | Inr bookingId \<Rightarrow>
          (case getBooking bookingId userId (w_db w) of
             Inl e \<Rightarrow> (Inl e, w)
           | Inr booking \<Rightarrow> (Inr (200, OneBooking booking), w)))"

definition listBookingsHandler :: "int \<Rightarrow> ('q, 'k) world \<Rightarrow> ('q, 'k) handled" where
  "listBookingsHandler userId w =
     (case listBookings userId (w_db w) of
        Inl e \<Rightarrow> (Inl e, w)
      | Inr bs \<Rightarrow> (Inr (200, ManyBookings bs), w))"

definition listEventsHandler :: "('q, 'k) world \<Rightarrow> ('q, 'k) handled" where
  "listEventsHandler w = (Inr (200, ManyEvents (listEvents (w_db w))), w)"

definition listSeatsForEventHandler ::
  "schemas \<Rightarrow> ('c::linorder, 'z) surroundings_scheme \<Rightarrow> request \<Rightarrow> ('q, 'k) world \<Rightarrow> ('q, 'k) handled" where
  "listSeatsForEventHandler sc su rq w =
     (case parse (eventIdParamSchema sc) (rq_param rq) of
        Inl e \<Rightarrow> (Inl e, w)
      | Inr eventId \<Rightarrow>
          (case parse (seatsQuerySchema sc) (rq_query rq) of
             Inl e \<Rightarrow> (Inl e, w)
           | Inr (status, limit) \<Rightarrow>
               (case listSeatsForEvent (collation su) eventId status limit (w_db w) of
                  Inl e \<Rightarrow> (Inl e, w)
                | Inr seatsList \<Rightarrow> (Inr (200, ManySeats seatsList), w))))"

definition registerHandler ::
  "schemas \<Rightarrow> auth_env \<Rightarrow> ('c, 'z) surroundings_scheme \<Rightarrow> request \<Rightarrow> ('q, 'k) world \<Rightarrow> ('q, 'k) handled" where
  "registerHandler sc env su rq w =
     (case parse (credentialsSchema sc) (rq_body rq) of
        Inl e \<Rightarrow> (Inl e, w)
      | Inr (email, password) \<Rightarrow>
          (case registerUser env (fresh_salt su) email password (t_db su) (w_db w) of
             (Inl e, d) \<Rightarrow> (Inl e, w\<lparr>w_db := d\<rparr>)
           | (Inr r, d) \<Rightarrow> (Inr (201, Credentials r), w\<lparr>w_db := d\<rparr>)))"

definition loginHandler ::
  "schemas \<Rightarrow> auth_env \<Rightarrow> request \<Rightarrow> ('q, 'k) world \<Rightarrow> ('q, 'k) handled" where
  "loginHandler sc env rq w =
     (case parse (credentialsSchema sc) (rq_body rq) of
        Inl e \<Rightarrow> (Inl e, w)
      | Inr (email, password) \<Rightarrow>
          (case loginUser env email password (w_db w) of
             Inl e \<Rightarrow> (Inl e, w)
           | Inr r \<Rightarrow> (Inr (200, Credentials r), w)))"

subsection \<open>The pipeline\<close>

fun booking_controller ::
  "schemas \<Rightarrow> ('q, 'k) services \<Rightarrow> ('c, 'z) surroundings_scheme \<Rightarrow> request \<Rightarrow> route \<Rightarrow> int \<Rightarrow>
   ('q, 'k) world \<Rightarrow> ('q, 'k) handled" where
  "booking_controller sc svc su rq ReserveRoute userId w = reserveSeatHandler sc svc su rq userId w"
| "booking_controller sc svc su rq ConfirmRoute userId w = confirmBookingHandler sc svc su rq userId w"
| "booking_controller sc svc su rq CancelRoute userId w = cancelBookingHandler sc svc su rq userId w"
| "booking_controller sc svc su rq GetBookingRoute userId w = getBookingHandler sc rq userId w"
| "booking_controller sc svc su rq _ userId w = listBookingsHandler userId w"

fun public_controller ::
  "schemas \<Rightarrow> auth_env \<Rightarrow> ('c::linorder, 'z) surroundings_scheme \<Rightarrow> request \<Rightarrow> route \<Rightarrow>
   ('q, 'k) world \<Rightarrow> ('q, 'k) handled" where
  "public_controller sc env su rq ListSeatsRoute w = listSeatsForEventHandler sc su rq w"
| "public_controller sc env su rq RegisterRoute w = registerHandler sc env su rq w"
| "public_controller sc env su rq LoginRoute w = loginHandler sc env rq w"
| "public_controller sc env su rq _ w = listEventsHandler w"

definition securityHeaders :: "(string \<times> string) list" where
  "securityHeaders =
     [(''X-Content-Type-Options'', ''nosniff''), (''X-Frame-Options'', ''DENY''),
      (''X-XSS-Protection'', ''0''),
      (''Strict-Transport-Security'', ''max-age=31536000; includeSubDomains''),
      (''Referrer-Policy'', ''strict-origin-when-cross-origin''),
      (''Permissions-Policy'', ''geolocation=(), microphone=(), camera=()'')]"

definition send :: "schemas \<Rightarrow> string \<Rightarrow> (int \<times> reply_body) result \<Rightarrow> reply" where
  "send sc request_id r =
     (let headers = (''x-request-id'', request_id) # securityHeaders
      in case r of
           Inr (status, body) \<Rightarrow> \<lparr>rp_status = status, rp_body = body, rp_headers = headers\<rparr>
         | Inl e \<Rightarrow>
             (let er = errorHandler (prettifyError sc) e
              in \<lparr>rp_status = er_status er, rp_body = ErrorBody (er_code er) (er_message er),
                  rp_headers = headers\<rparr>))"

definition run_handlers ::
  "schemas \<Rightarrow> auth_env \<Rightarrow> ('q, 'k) services \<Rightarrow> ('c::linorder, 'z) surroundings_scheme \<Rightarrow> request \<Rightarrow>
   ('q, 'k) world \<Rightarrow> ('q, 'k) handled" where
  "run_handlers sc env svc su rq w =
     (if requires_auth (rq_route rq)
      then (case requireAuth env (rq_authorization rq) of
              Inl e \<Rightarrow> (Inl e, w)
            | Inr userId \<Rightarrow> booking_controller sc svc su rq (rq_route rq) userId w)
      else public_controller sc env su rq (rq_route rq) w)"

definition serve_request ::
  "schemas \<Rightarrow> auth_env \<Rightarrow> ('q, 'k) services \<Rightarrow> 'r redis \<Rightarrow> limits \<Rightarrow> ('c::linorder, 'z) surroundings_scheme \<Rightarrow>
   string \<Rightarrow> request \<Rightarrow> 'r \<Rightarrow> ('q, 'k) world \<Rightarrow> reply \<times> 'r \<times> ('q, 'k) world" where
  "serve_request sc env svc rd lims su request_id rq st w =
     (case rateLimiter rd lims (Some (route_url (rq_route rq))) (rq_ip rq) st of
        (Inl e, st') \<Rightarrow> (send sc request_id (Inl e), st', w)
      | (Inr _, st') \<Rightarrow>
          (case run_handlers sc env svc su rq w of
             (r, w') \<Rightarrow> (send sc request_id r, st', w')))"

subsection \<open>Errors of the use cases\<close>

lemma can_insert_room:
  assumes "versions_room d" and "int4_ok uid" and "\<exists>u\<in>set (users d). user_id u = uid"
    and "bookings_seq d \<le> int4_max"
  shows "can_insert d sid uid"
  using assms by (auto simp: can_insert_def versions_room_def dest: seat_at_SomeD)

lemma reserveSeat_domain_error:
  assumes "consistent (w_db w)" and "int4_ok sid" and "can_insert (w_db w) sid uid"
    and "reserveSeat svc h sid uid t1 t2 t3 t4 w = (Inl e, w')"
  shows "domain_error e"
proof (cases "\<exists>s. seat_at (w_db w) sid = Some s \<and> seat_status s = Available")
  case True
  then obtain s where "seat_at (w_db w) sid = Some s" "seat_status s = Available" by blast
  with reserve_tx_hit [OF assms(1) this assms(3)] assms(2,4) show ?thesis
    by (simp add: reserveSeat_def reserve_check_eq transaction_def Let_def)
next
  case False
  then have "reserve_tx sid uid (t1 + h) t2 (w_db w) = Inl (SeatUnavailableError sid)"
    using assms by (intro reserve_tx_taken) (auto dest: consistentD(1))
  with assms(2,4) show ?thesis
    by (auto simp: reserveSeat_def reserve_check_eq transaction_def Let_def split: if_splits)
qed

lemma owned_transaction:
  assumes "consistent d" and "versions_room d" and "int4_ok bid" and "owns d bid uid"
  shows "fst (transaction (confirm_tx t bid) d) \<noteq> Inl e" and "fst (transaction (cancel_tx t bid) d) \<noteq> Inl e"
proof -
  from assms(4) obtain b where "b \<in> set (bookings d)" "bk_id b = bid" by (auto simp: owns_def)
  from confirm_booking.transaction_eq [OF assms(1-3) this, of t]
    cancel_booking.transaction_eq [OF assms(1-3) this, of t]
  show "fst (transaction (confirm_tx t bid) d) \<noteq> Inl e" "fst (transaction (cancel_tx t bid) d) \<noteq> Inl e"
    by simp_all
qed

lemma confirmBooking_domain_error:
  assumes "consistent (w_db w)" and "versions_room (w_db w)" and "int4_ok bid" and "int4_ok uid"
    and "confirmBooking svc bid uid t1 t2 w = (Inl e, w')"
  shows "domain_error e"
  using assms(5) owned_transaction(1) [OF assms(1-3), of uid t1]
  by (auto simp: confirmBooking_def owner_check_eq [OF assms(3,4)]
      split: if_splits sum.splits option.splits prod.splits)

lemma cancelBooking_domain_error:
  assumes "consistent (w_db w)" and "versions_room (w_db w)" and "int4_ok bid" and "int4_ok uid"
    and "cancelBooking svc bid uid t1 t2 w = (Inl e, w')"
  shows "domain_error e"
  using assms(5) owned_transaction(2) [OF assms(1-3), of uid t1]
  by (auto simp: cancelBooking_def owner_check_eq [OF assms(3,4)]
      split: if_splits sum.splits option.splits prod.splits)

lemma getBooking_domain_error:
  "int4_ok bid \<Longrightarrow> int4_ok uid \<Longrightarrow> getBooking bid uid d = Inl e \<Longrightarrow> domain_error e"
  by (auto simp: getBooking_def select_own_booking_def split: option.splits)

text \<open>A schema failure or an error of the application's own classes is a status below 500.\<close>

definition client_error :: "js_error \<Rightarrow> bool" where
  "client_error e \<longleftrightarrow> domain_error e \<or> (\<exists>is. e = ZodError is)"

lemma client_error_status: "client_error e \<Longrightarrow> er_status (errorHandler prettify e) \<in> {400, 401, 404, 409, 429}"
  by (auto simp: client_error_def domain_error_def)

lemma parse_error: "parse schema v = Inl e \<Longrightarrow> client_error e"
  by (auto simp: parse_def client_error_def split: sum.splits)

lemma requireAuth_error: "requireAuth env h = Inl e \<Longrightarrow> \<exists>m. e = UnauthorizedError m"
  by (auto simp: requireAuth_def split: option.splits if_splits sum.splits jwt_failure.splits)

lemma serve_when_allowed:
  "fst (rateLimiter rd lims (Some (route_url (rq_route rq))) (rq_ip rq) st) = Inr () \<Longrightarrow>
   serve_request sc env svc rd lims su rid rq st w =
     (send sc rid (fst (run_handlers sc env svc su rq w)),
      snd (rateLimiter rd lims (Some (route_url (rq_route rq))) (rq_ip rq) st), snd (run_handlers sc env svc su rq w))"
  by (auto simp: serve_request_def split: prod.splits)

lemma send_status: "rp_status (send sc rid r) =
    (case r of Inr (n, b) \<Rightarrow> n | Inl e \<Rightarrow> er_status (errorHandler (prettifyError sc) e))"
  by (auto simp: send_def Let_def split: sum.splits)

lemma send_booking: "rp_body (send sc rid r) = OneBooking b \<longleftrightarrow> (\<exists>n. r = Inr (n, OneBooking b))"
  by (auto simp: send_def Let_def split: sum.splits)

text \<open>Whose booking a booking controller returns.\<close>

lemma owner_check_owns: "owner_check bid uid d = Inr u \<Longrightarrow> owns d bid uid"
  by (auto simp: owner_check_def select_own_booking_def select_bookings_def owns_def
      split: option.splits if_splits dest!: first_row_SomeD)

context booking_transition
begin

lemma tx_owner:
  assumes "consistent d" and "owns d bid uid" and "tx bid d = Inr (Some b, d')"
  shows "bk_userId b = uid"
  using tx_result(4) [OF assms(3,1)] assms(1,2) by (metis booking_unique owns_def)

end

lemma booking_controller_owner:
  assumes "booking_controller sc svc su rq r uid w = (Inr (n, OneBooking b), w')"
    and "consistent (w_db w)" and "requires_auth r"
  shows "bk_userId b = uid"
proof (cases r)
  case ReserveRoute
  with assms obtain sid h d' where "reserve_tx sid uid h (t_db su) (w_db w) = Inr (b, d')"
    by (auto simp: reserveSeatHandler_def reserveSeat_def transaction_def Let_def
        split: sum.splits prod.splits)
  then show ?thesis using assms(2) by (rule reserve_tx_cases) simp
next
  case ConfirmRoute
  with assms obtain bid d' where "owner_check bid uid (w_db w) = Inr ()"
    "confirm_tx (t_db su) bid (w_db w) = Inr (Some b, d')"
    by (auto simp: confirmBookingHandler_def confirmBooking_def transaction_def
        split: sum.splits prod.splits option.splits)
  then show ?thesis using confirm_booking.tx_owner [OF assms(2) owner_check_owns] by blast
next
  case CancelRoute
  with assms obtain bid d' where "owner_check bid uid (w_db w) = Inr ()"
    "cancel_tx (t_db su) bid (w_db w) = Inr (Some b, d')"
    by (auto simp: cancelBookingHandler_def cancelBooking_def transaction_def
        split: sum.splits prod.splits option.splits)
  then show ?thesis using cancel_booking.tx_owner [OF assms(2) owner_check_owns] by blast
next
  case GetBookingRoute
  with assms show ?thesis
    by (auto simp: getBookingHandler_def getBooking_def select_own_booking_def select_bookings_def
        split: sum.splits option.splits if_splits dest!: first_row_SomeD)
next
  case ListBookingsRoute
  with assms show ?thesis by (auto simp: listBookingsHandler_def split: sum.splits)
qed (use assms(3) in simp_all)

subsection \<open>Properties\<close>

text \<open>
  Without a valid token a booking route does nothing: whatever the rest of the request, the
  database, the queue, the broker and the counters stay as they were, and unless the rate limiter
  stopped it first the reply is 401.
\<close>

theorem unauthenticated_no_effect:
  assumes "requires_auth (rq_route rq)" and "requireAuth env (rq_authorization rq) = Inl e"
    and "serve_request sc env svc rd lims su rid rq st w = (rp, st', w')"
  shows "w' = w \<and>
    (fst (rateLimiter rd lims (Some (route_url (rq_route rq))) (rq_ip rq) st) = Inr () \<longrightarrow> rp_status rp = 401)"
  using assms requireAuth_error [OF assms(2)]
  by (auto simp: serve_request_def run_handlers_def send_def Let_def split: prod.splits sum.splits)

definition demo_schemas :: schemas where
  "demo_schemas = \<lparr>sc_lib = page_lib, valid_email = (\<lambda>s. CHR ''@'' \<in> set s), prettifyError = concat\<rparr>"

lemma demo_schemas_read:
  "bookingIdParamSchema demo_schemas ''1'' = Inr 1"
  "bookingIdParamSchema demo_schemas ''3000000000'' = Inr 3000000000"
  "reserveSeatSchema demo_schemas (Some (JObj [(''seatId'', JNum (Some 1))])) = Inr 1"
proof -
  have "read_int ''1'' = 1" "read_int ''3000000000'' = 3000000000"
    by (simp_all add: read_int_def read_nat_def undigit_def)
  then show "bookingIdParamSchema demo_schemas ''1'' = Inr 1"
      "bookingIdParamSchema demo_schemas ''3000000000'' = Inr 3000000000"
      "reserveSeatSchema demo_schemas (Some (JObj [(''seatId'', JNum (Some 1))])) = Inr 1"
    by (simp_all add: idParamSchema_ok reserveSeatSchema_ok demo_schemas_def page_lib_def safe_id_def
        max_safe_def to_number_def)
qed

definition demo_surroundings :: "nat surroundings" where
  "demo_surroundings = \<lparr>t_hold = 0, t_db = 0, t_sched = 0, t_event = 0, fresh_salt = [],
     hold_duration_ms = 300000, collation = length\<rparr>"

definition demo_request :: "route \<Rightarrow> string \<Rightarrow> string option \<Rightarrow> request" where
  "demo_request r param auth = \<lparr>rq_route = r, rq_ip = Some ''10.0.0.1'', rq_authorization = auth,
     rq_param = param, rq_query = [], rq_body = Some (JObj [(''seatId'', JNum (Some 1))])\<rparr>"

definition demo_limits :: limits where
  "demo_limits = \<lparr>WINDOW_SECONDS = 60, MAX_REQUESTS = 100\<rparr>"

lemma demo_rate: "fst (rateLimiter plain_redis demo_limits route ip (\<lambda>_. 0, \<lambda>_. None)) = Inr ()"
  by (simp add: rateLimiter_def plain_redis_def demo_limits_def)

lemma demo_token: "requireAuth demo_env (Some (''Bearer '' @ show_int 1)) = Inr 1"
  by (simp add: requireAuth_def verifyAuthToken_def demo_env_def)

theorem unauthenticated_no_effect_witness:
  "rp_status (fst (serve_request demo_schemas demo_env quiet_services plain_redis demo_limits demo_surroundings ''r''
     (demo_request ReserveRoute '''' None) (\<lambda>_. 0, \<lambda>_. None) (demo_world demo_db))) = 401"
proof -
  let ?rq = "demo_request ReserveRoute '''' None"
  have rq: "requires_auth (rq_route ?rq)"
    "requireAuth demo_env (rq_authorization ?rq) = Inl (UnauthorizedError default_unauthorized)"
    by (simp_all add: demo_request_def requireAuth_def)
  show ?thesis
    using unauthenticated_no_effect [OF rq serve_when_allowed [OF demo_rate], where sc = demo_schemas
        and svc = quiet_services and su = demo_surroundings and w = "demo_world demo_db" and rid = "''r''"] demo_rate
    by (simp add: serve_when_allowed [OF demo_rate])
qed



text \<open>
  A request has room when every id it can name fits a 32-bit column and the booking sequence is
  not used up.
\<close>

definition ids_in_range :: "schemas \<Rightarrow> request \<Rightarrow> bool" where
  "ids_in_range sc rq \<longleftrightarrow> (\<forall>n. reserveSeatSchema sc (rq_body rq) = Inr n \<longrightarrow> int4_ok n) \<and>
     (\<forall>n. bookingIdParamSchema sc (rq_param rq) = Inr n \<longrightarrow> int4_ok n)"

lemma booking_controller_error:
  assumes "booking_controller sc svc su rq r uid w = (Inl e, w')" and "consistent (w_db w)"
    and "versions_room (w_db w)" and "ids_in_range sc rq" and "int4_ok uid"
    and "\<exists>u\<in>set (users (w_db w)). user_id u = uid" and "bookings_seq (w_db w) \<le> int4_max"
  shows "client_error e"
proof -
  have b: "int4_ok bid" if "parse (bookingIdParamSchema sc) (rq_param rq) = Inr bid" for bid
    using that assms(4) by (auto simp: parse_def ids_in_range_def split: sum.splits)
  have s: "int4_ok sid" if "parse (reserveSeatSchema sc) (rq_body rq) = Inr sid" for sid
    using that assms(4) by (auto simp: parse_def ids_in_range_def split: sum.splits)
  note room = can_insert_room [OF assms(3,5-7)]
  have dom: "domain_error e \<Longrightarrow> client_error e" by (simp add: client_error_def)
  have list: "booking_controller sc svc su rq r uid w = listBookingsHandler uid w \<Longrightarrow> ?thesis"
    using assms(1,5) by (simp add: listBookingsHandler_def listBookings_def)
  show ?thesis
  proof (cases r)
    case ReserveRoute
    with assms(1) show ?thesis
      by (auto simp: reserveSeatHandler_def split: sum.splits prod.splits
          intro: parse_error dom reserveSeat_domain_error [OF assms(2) s room])
  next
    case ConfirmRoute
    with assms(1) show ?thesis
      by (auto simp: confirmBookingHandler_def split: sum.splits prod.splits
          intro: parse_error dom confirmBooking_domain_error [OF assms(2,3) b assms(5)])
  next
    case CancelRoute
    with assms(1) show ?thesis
      by (auto simp: cancelBookingHandler_def split: sum.splits prod.splits
          intro: parse_error dom cancelBooking_domain_error [OF assms(2,3) b assms(5)])
  next
    case GetBookingRoute
    with assms(1) show ?thesis
      by (auto simp: getBookingHandler_def split: sum.splits
          intro: parse_error dom getBooking_domain_error [OF b assms(5)])
  qed (simp_all add: list)
qed

lemma booking_controller_status:
  "booking_controller sc svc su rq r uid w = (Inr (n, b), w') \<Longrightarrow> n = 200 \<or> n = 201"
  by (cases r) (auto simp: reserveSeatHandler_def confirmBookingHandler_def cancelBookingHandler_def
      getBookingHandler_def listBookingsHandler_def split: sum.splits prod.splits)



text \<open>
  C30. An id that passes validation but not the column: for a booking id above the 32-bit range
  the schemas let it through, and get, confirm and cancel answer 500 instead of the 404 that
  every other unknown id gets, without changing anything.
\<close>

theorem oversized_id_server_error:
  assumes "rq_route rq \<in> {GetBookingRoute, ConfirmRoute, CancelRoute}"
    and "bookingIdParamSchema sc (rq_param rq) = Inr n" and "int4_max < n"
    and "requireAuth env (rq_authorization rq) = Inr uid"
    and "fst (rateLimiter rd lims (Some (route_url (rq_route rq))) (rq_ip rq) st) = Inr ()"
  shows "let (rp, st', w') = serve_request sc env svc rd lims su rid rq st w in rp_status rp = 500 \<and> w' = w"
proof -
  have "\<not> int4_ok n" using assms(3) by (simp add: int4_ok_def)
  with assms(1,2,4) have "run_handlers sc env svc su rq w = (Inl out_of_range, w)"
    by (auto simp: run_handlers_def parse_def getBookingHandler_def confirmBookingHandler_def
        cancelBookingHandler_def getBooking_def confirmBooking_def cancelBooking_def owner_check_def
        select_own_booking_def)
  then show ?thesis by (simp add: serve_when_allowed [OF assms(5)] send_status out_of_range_def)
qed

theorem oversized_id_server_error_witness:
  "rp_status (fst (serve_request demo_schemas demo_env quiet_services plain_redis demo_limits demo_surroundings ''r''
     (demo_request GetBookingRoute ''3000000000'' (Some (''Bearer '' @ show_int 1))) (\<lambda>_. 0, \<lambda>_. None) (demo_world demo_held))) = 500"
proof -
  let ?rq = "demo_request GetBookingRoute ''3000000000'' (Some (''Bearer '' @ show_int 1))"
  have "rq_route ?rq \<in> {GetBookingRoute, ConfirmRoute, CancelRoute}"
    "bookingIdParamSchema demo_schemas (rq_param ?rq) = Inr 3000000000" "int4_max < 3000000000"
    "requireAuth demo_env (rq_authorization ?rq) = Inr 1"
    using demo_token by (simp_all add: demo_request_def demo_schemas_read int4_max_def)
  from oversized_id_server_error [OF this demo_rate, of quiet_services demo_surroundings "''r''" "demo_world demo_held"]
  show ?thesis by (simp add: case_prod_unfold Let_def)
qed

lemma registerUser_consistent:
  assumes "consistent d"
  shows "consistent (snd (registerUser env salt email pw now d))"
proof -
  have "consistent (d\<lparr>users := users d @ [u], users_seq := n\<rparr>)" for u n
    using assms by (auto simp: consistent_def references_ok_def distinct_seats_def seat_matches_def live_bookings_def)
  then show ?thesis
    using assms by (auto simp: registerUser_def register_insert_def createUser_def Let_def
        split: sum.splits prod.splits if_splits)
qed

text \<open>What the three writing use cases and registering keep of the database, every request keeps.\<close>

lemma request_keeps_db:
  assumes "P (w_db w)"
    and uses: "\<And>h sid uid t1 t2 t3 t4. P (w_db (snd (reserveSeat svc h sid uid t1 t2 t3 t4 w)))"
      "\<And>bid uid t1 t2. P (w_db (snd (confirmBooking svc bid uid t1 t2 w)))"
      "\<And>bid uid t1 t2. P (w_db (snd (cancelBooking svc bid uid t1 t2 w)))"
    and reg: "\<And>salt email pw now. P (snd (registerUser env salt email pw now (w_db w)))"
  shows "case serve_request sc env svc rd lims su rid rq st w of (rp, st', w') \<Rightarrow> P (w_db w')"
proof -
  have b: "P (w_db (snd (booking_controller sc svc su rq r uid w)))" for r uid
    using uses assms(1)
    by (cases r) (simp_all add: reserveSeatHandler_def confirmBookingHandler_def cancelBookingHandler_def
        getBookingHandler_def listBookingsHandler_def case_prod_unfold split: sum.splits)
  have p: "P (w_db (snd (public_controller sc env su rq r w)))" for r
    using reg assms(1)
    by (cases r) (auto simp: listSeatsForEventHandler_def listEventsHandler_def registerHandler_def
        loginHandler_def split: sum.splits prod.splits, (metis snd_conv)+)
  have "P (w_db (snd (run_handlers sc env svc su rq w)))"
    using b p assms(1) by (auto simp: run_handlers_def split: sum.splits)
  with assms(1) show ?thesis by (auto simp: serve_request_def split: sum.splits prod.splits)
qed

text \<open>
  Every request keeps the database consistent: whatever the route, the headers, the body and
  the behaviour of Redis, Kafka and BullMQ, a consistent database is consistent after the reply.
\<close>

theorem requests_keep_consistency:
  assumes "consistent (w_db w)"
  shows "case serve_request sc env svc rd lims su rid rq st w of (rp, st', w') \<Rightarrow> consistent (w_db w')"
  using assms reserveSeat_consistent [OF assms] confirmBooking_consistent [OF assms]
    cancelBooking_consistent [OF assms] registerUser_consistent [OF assms]
  by (rule request_keeps_db)

theorem requests_keep_consistency_witness:
  "case serve_request demo_schemas demo_env quiet_services plain_redis demo_limits demo_surroundings ''r''
     (demo_request ReserveRoute '''' (Some (''Bearer '' @ show_int 1))) (\<lambda>_. 0, \<lambda>_. None) (demo_world demo_db)
   of (rp, st', w') \<Rightarrow> consistent (w_db w')"
  by (rule requests_keep_consistency) (simp add: demo_facts)

end
