(* ===== verification/Config.thy ===== *)
theory Config
  imports Errors
begin

text \<open>
  The configuration values that are lists in a comma-separated text (\<open>config/env.ts\<close>: brokers and
  CORS origins; \<open>index.ts\<close>: trusted proxies). Characters are those below 256: the white space
  that \<open>trim\<close> removes there is tab to carriage return, the space and the no-break space.
\<close>

subsection \<open>trim\<close>

definition is_space :: "char \<Rightarrow> bool" where
  "is_space c \<longleftrightarrow> (let n = of_char c :: nat in (9 \<le> n \<and> n \<le> 13) \<or> n = 32 \<or> n = 160)"

definition trim :: "string \<Rightarrow> string" where
  "trim s = rev (dropWhile is_space (rev (dropWhile is_space s)))"

subsection \<open>The lists\<close>

definition comma_list :: "string \<Rightarrow> string list" where
  "comma_list v = filter (\<lambda>x. length x > 0) (map trim (split_on CHR '','' v))"

text \<open>
  \<open>KAFKA_BROKERS\<close>: required, not empty, at least one broker after the transform.
\<close>

definition brokers_message :: string where
  "brokers_message = ''KAFKA_BROKERS must contain at least one non-empty broker (got only commas/whitespace)''"

definition KAFKA_BROKERS :: "string option \<Rightarrow> zod_issues + string list" where
  "KAFKA_BROKERS v =
     (case v of
        None \<Rightarrow> Inl [''expected string'']
      | Some s \<Rightarrow>
          if length s < 1 then Inl [''too small'']
          else if length (comma_list s) > 0 then Inr (comma_list s)
          else Inl [brokers_message])"

definition CORS_ORIGINS :: "string option \<Rightarrow> string list" where
  "CORS_ORIGINS v = comma_list (case v of None \<Rightarrow> ''http://localhost:5173'' | Some s \<Rightarrow> s)"

definition trustProxy :: "string option \<Rightarrow> string list" where
  "trustProxy v = comma_list (case v of None \<Rightarrow> ''loopback'' | Some s \<Rightarrow> s)"

subsection \<open>Lemmas\<close>

fun join_with :: "char \<Rightarrow> string list \<Rightarrow> string" where
  "join_with c [] = []"
| "join_with c [x] = x"
| "join_with c (x # xs) = x @ c # join_with c xs"

lemma split_on_join:
  "xs \<noteq> [] \<Longrightarrow> \<forall>x\<in>set xs. c \<notin> set x \<Longrightarrow> split_on c (join_with c xs) = xs"
  by (induction c xs rule: join_with.induct) (simp_all add: split_on_free split_on_append)

lemma trim_edges: "trim s \<noteq> [] \<Longrightarrow> \<not> is_space (hd (trim s)) \<and> \<not> is_space (last (trim s))"
proof -
  assume ne: "trim s \<noteq> []"
  let ?t = "dropWhile is_space s"
  have l: "\<not> is_space (last (trim s))"
    using ne hd_dropWhile [of is_space "rev ?t"] by (simp add: trim_def last_rev)
  obtain ws where t: "?t = trim s @ ws"
  proof -
    have "rev ?t = takeWhile is_space (rev ?t) @ dropWhile is_space (rev ?t)" by simp
    then have "?t = rev (dropWhile is_space (rev ?t)) @ rev (takeWhile is_space (rev ?t))"
      by (metis rev_append rev_rev_ident)
    then show ?thesis using that by (simp add: trim_def)
  qed
  with ne have "?t \<noteq> []" by auto
  then have "\<not> is_space (hd ?t)" by (rule hd_dropWhile)
  with t ne l show ?thesis by simp
qed

definition clean :: "string \<Rightarrow> bool" where
  "clean s \<longleftrightarrow> s \<noteq> [] \<and> \<not> is_space (hd s) \<and> \<not> is_space (last s)"

lemma trim_clean: "clean s \<Longrightarrow> trim s = s"
proof -
  assume c: "clean s"
  then have "dropWhile is_space s = s" by (cases s) (auto simp: clean_def)
  moreover have "dropWhile is_space (rev s) = rev s"
    using c by (cases s rule: rev_cases) (auto simp: clean_def)
  ultimately show ?thesis by (simp add: trim_def)
qed

lemma set_split_on: "p \<in> set (split_on c s) \<Longrightarrow> c \<notin> set p"
  by (induction s arbitrary: p) (auto split: if_splits list.splits)

lemma set_trim: "set (trim s) \<subseteq> set s"
  unfolding trim_def set_rev by (metis set_dropWhileD set_rev subsetI)

lemma comma_list_entry: "x \<in> set (comma_list v) \<Longrightarrow> clean x \<and> CHR '','' \<notin> set x"
  using trim_edges set_trim set_split_on by (fastforce simp: comma_list_def clean_def)

subsection \<open>Properties\<close>

text \<open>
  What a list setting can contain: every entry of the brokers, the origins and the trusted
  proxies is non-empty, has no white space at its ends and no comma in it, and a start-up whose
  broker list would be empty is refused.
\<close>

theorem comma_list_entries:
  "(\<forall>x\<in>set (comma_list v). clean x \<and> CHR '','' \<notin> set x) \<and>
   (\<forall>bs. KAFKA_BROKERS s = Inr bs \<longrightarrow> bs \<noteq> [] \<and> (\<exists>t. s = Some t \<and> bs = comma_list t))"
  by (auto simp: comma_list_entry KAFKA_BROKERS_def split: option.splits if_splits)

theorem comma_list_entries_witness:
  "clean ''a:9092'' \<and> KAFKA_BROKERS (Some '' a:9092 , ,'') = Inr [''a:9092'']"
proof -
  have e: "comma_list '' a:9092 , ,'' = [''a:9092'']" by code_simp
  with comma_list_entries [of "'' a:9092 , ,''" None] show ?thesis by (simp add: KAFKA_BROKERS_def)
qed

text \<open>
  Writing a list and reading it back: non-empty entries without commas and without white space
  at their ends, joined with commas, are read back as they were.
\<close>

theorem comma_list_roundtrip:
  assumes "xs \<noteq> []" and "\<forall>x\<in>set xs. clean x \<and> CHR '','' \<notin> set x"
  shows "comma_list (join_with CHR '','' xs) = xs \<and> KAFKA_BROKERS (Some (join_with CHR '','' xs)) = Inr xs"
proof -
  have "comma_list (join_with CHR '','' xs) = filter (\<lambda>x. length x > 0) (map trim xs)"
    using assms split_on_join by (simp add: comma_list_def)
  also have "map trim xs = xs" using assms(2) by (simp add: map_idI trim_clean)
  also have "filter (\<lambda>x. length x > 0) xs = xs" using assms(2) by (simp add: clean_def)
  finally have l: "comma_list (join_with CHR '','' xs) = xs" .
  obtain y ys where xs: "xs = y # ys" using assms(1) by (cases xs) auto
  with assms(2) have "join_with CHR '','' xs \<noteq> []" by (cases ys) (auto simp: clean_def)
  with l assms(1) show ?thesis by (simp add: KAFKA_BROKERS_def Suc_le_eq)
qed

theorem comma_list_roundtrip_witness:
  "KAFKA_BROKERS (Some ''a:1,b:2'') = Inr [''a:1'', ''b:2'']"
  using comma_list_roundtrip [of "[''a:1'', ''b:2'']"] by (simp add: clean_def is_space_def)

end
