(* ===== verification/Shutdown.thy ===== *)
theory Shutdown
  imports Errors
begin

text \<open>
  Graceful shutdown (\<open>shutdown.ts\<close>): the drain sequence, the signal handler with its budget, and
  the reaper that lets the HTTP server close although clients keep connections alive. The five
  teardown functions are parameters; Node's HTTP server is modelled as far as the reaper uses it
  (connections that are idle or carry an unfinished response, \<open>close\<close>, \<open>closeIdleConnections\<close>,
  the \<open>finish\<close> event of a response).
\<close>

subsection \<open>gracefulShutdown\<close>

record 's shutdown_deps =
  closeServer :: "'s \<Rightarrow> js_error option \<times> 's"
  stopProducer :: "'s \<Rightarrow> js_error option \<times> 's"
  stopCdcConsumer :: "'s \<Rightarrow> js_error option \<times> 's"
  stopWorker :: "'s \<Rightarrow> js_error option \<times> 's"
  closeDb :: "'s \<Rightarrow> js_error option \<times> 's"

definition shutdown_steps :: "'s shutdown_deps \<Rightarrow> (string \<times> ('s \<Rightarrow> js_error option \<times> 's)) list" where
  "shutdown_steps deps =
     [(''http-server'', closeServer deps), (''kafka-producer'', stopProducer deps),
      (''kafka-cdc-consumer'', stopCdcConsumer deps), (''hold-expiry-worker'', stopWorker deps),
      (''postgres-pool'', closeDb deps)]"

text \<open>\<open>message_of\<close> is \<open>err instanceof Error ? err.message : String(err)\<close>.\<close>

fun run_steps ::
  "(js_error \<Rightarrow> string) \<Rightarrow> (string \<times> ('s \<Rightarrow> js_error option \<times> 's)) list \<Rightarrow> 's \<Rightarrow> string list \<times> 's" where
  "run_steps message_of [] s = ([], s)"
| "run_steps message_of ((name, run) # steps) s =
     (case run s of (r, s1) \<Rightarrow>
        (case run_steps message_of steps s1 of (logs, s2) \<Rightarrow>
           ((''[shutdown] closing '' @ name) #
            (case r of None \<Rightarrow> ''[shutdown] closed '' @ name
                     | Some e \<Rightarrow> ''[shutdown] error closing '' @ name @ '': '' @ message_of e) # logs, s2)))"

definition gracefulShutdown ::
  "(js_error \<Rightarrow> string) \<Rightarrow> 's shutdown_deps \<Rightarrow> 's \<Rightarrow> string list \<times> 's" where
  "gracefulShutdown message_of deps s =
     (case run_steps message_of (shutdown_steps deps) s of (logs, s') \<Rightarrow>
        (logs @ [''[shutdown] drain complete''], s'))"

text \<open>
  The drain sequence is fixed and complete: the five teardown functions run once each, in the
  order HTTP server, producer, consumer, worker, database pool, whatever fails among them; the
  log has one "closing" and one "closed" or "error" line per step and ends with "drain complete".
\<close>

theorem gracefulShutdown_runs_all:
  "snd (gracefulShutdown message_of deps s) =
     snd (closeDb deps (snd (stopWorker deps (snd (stopCdcConsumer deps (snd (stopProducer deps
       (snd (closeServer deps s)))))))))
   \<and> length (fst (gracefulShutdown message_of deps s)) = 11
   \<and> last (fst (gracefulShutdown message_of deps s)) = ''[shutdown] drain complete''
   \<and> (\<forall>i<5. fst (gracefulShutdown message_of deps s) ! (2 * i) =
        ''[shutdown] closing '' @ fst (shutdown_steps deps ! i))"
  by (simp add: gracefulShutdown_def shutdown_steps_def split: prod.splits)
    (auto simp: less_Suc_eq numeral_eq_Suc)

theorem gracefulShutdown_runs_all_witness:
  "snd (gracefulShutdown (\<lambda>_. ''x'')
     \<lparr>closeServer = (\<lambda>s. (Some (PlainError ''stuck''), s @ [1])), stopProducer = (\<lambda>s. (None, s @ [2])),
      stopCdcConsumer = (\<lambda>s. (Some (PlainError ''gone''), s @ [3])), stopWorker = (\<lambda>s. (None, s @ [4])),
      closeDb = (\<lambda>s. (None, s @ [5::nat]))\<rparr> []) = [1, 2, 3, 4, 5]"
  using gracefulShutdown_runs_all [of "\<lambda>_. ''x''" "\<lparr>closeServer = (\<lambda>s. (Some (PlainError ''stuck''), s @ [1])),
      stopProducer = (\<lambda>s. (None, s @ [2])), stopCdcConsumer = (\<lambda>s. (Some (PlainError ''gone''), s @ [3])),
      stopWorker = (\<lambda>s. (None, s @ [4])), closeDb = (\<lambda>s. (None, s @ [5::nat]))\<rparr>" "[]"]
  by simp

subsection \<open>The signal handler\<close>

text \<open>
  The events that reach an installed handler: a signal, the force timer firing, and the drain
  resolving or rejecting. The timer only fires while armed, the drain only ends while running,
  and nothing happens after \<open>exit\<close>.
\<close>

datatype shutdown_event = SignalReceived string | BudgetExpired | DrainResolved | DrainRejected

record handler_state =
  hs_draining :: bool
  hs_timer :: bool
  hs_drains :: nat
  hs_exit :: "int option"

definition handler_init :: handler_state where
  "handler_init = \<lparr>hs_draining = False, hs_timer = False, hs_drains = 0, hs_exit = None\<rparr>"

fun onSignal :: "handler_state \<Rightarrow> handler_state" where
  "onSignal h =
     (if hs_draining h then h\<lparr>hs_exit := Some 1\<rparr>
      else h\<lparr>hs_draining := True, hs_timer := True, hs_drains := Suc (hs_drains h)\<rparr>)"

fun handle_event :: "shutdown_event \<Rightarrow> handler_state \<Rightarrow> handler_state" where
  "handle_event ev h =
     (if hs_exit h \<noteq> None then h
      else case ev of
             SignalReceived signal \<Rightarrow> onSignal h
           | BudgetExpired \<Rightarrow> if hs_timer h then h\<lparr>hs_exit := Some 1\<rparr> else h
           | DrainResolved \<Rightarrow> if hs_drains h > 0 then h\<lparr>hs_timer := False, hs_exit := Some 0\<rparr> else h
           | DrainRejected \<Rightarrow> if hs_drains h > 0 then h\<lparr>hs_timer := False, hs_exit := Some 1\<rparr> else h)"

fun is_signal :: "shutdown_event \<Rightarrow> bool" where
  "is_signal (SignalReceived s) = True"
| "is_signal _ = False"

definition draining_state :: handler_state where
  "draining_state = \<lparr>hs_draining = True, hs_timer = True, hs_drains = 1, hs_exit = None\<rparr>"

lemma handled_after_exit: "hs_exit h \<noteq> None \<Longrightarrow> fold handle_event es h = h"
  by (induction es) auto

lemma handled_before_signal:
  "\<forall>ev\<in>set es. \<not> is_signal ev \<Longrightarrow> fold handle_event es handler_init = handler_init"
proof (induction es)
  case (Cons ev es)
  then show ?case by (cases ev) (simp_all add: handler_init_def)
qed simp

lemma handled_while_draining:
  "fold handle_event es draining_state =
     (case es of [] \<Rightarrow> draining_state
      | ev # _ \<Rightarrow> (case ev of
            SignalReceived s \<Rightarrow> draining_state\<lparr>hs_exit := Some 1\<rparr>
          | BudgetExpired \<Rightarrow> draining_state\<lparr>hs_exit := Some 1\<rparr>
          | DrainResolved \<Rightarrow> draining_state\<lparr>hs_timer := False, hs_exit := Some 0\<rparr>
          | DrainRejected \<Rightarrow> draining_state\<lparr>hs_timer := False, hs_exit := Some 1\<rparr>))"
  by (cases es; cases "hd es") (auto simp: draining_state_def handled_after_exit)

text \<open>
  How the process ends: nothing exits it before the first signal, the first signal starts the
  one drain, and the next event decides the exit code: 0 when the drain resolved, 1 when a second
  signal came, the budget expired or the drain rejected. The drain is never started twice.
\<close>

theorem shutdown_outcome:
  assumes "\<forall>ev\<in>set before. \<not> is_signal ev"
  shows "let h = fold handle_event (before @ SignalReceived sig # after) handler_init
    in hs_drains h = 1 \<and>
       hs_exit h = (case after of [] \<Rightarrow> None | ev # _ \<Rightarrow> Some (if ev = DrainResolved then 0 else 1)) \<and>
       hs_exit (fold handle_event before handler_init) = None"
proof -
  have "handle_event (SignalReceived sig) handler_init = draining_state"
    by (simp add: handler_init_def draining_state_def)
  then have "fold handle_event (before @ SignalReceived sig # after) handler_init
      = fold handle_event after draining_state"
    by (simp add: handled_before_signal [OF assms] del: handle_event.simps)
  then show ?thesis
    unfolding Let_def handled_before_signal [OF assms] handled_while_draining
    by (auto simp: draining_state_def handler_init_def split: list.splits shutdown_event.splits)
qed

theorem shutdown_outcome_witness:
  "hs_exit (fold handle_event [SignalReceived ''SIGTERM'', DrainResolved] handler_init) = Some 0"
  using shutdown_outcome [of "[]" "''SIGTERM''" "[DrainResolved]"]
  by (simp add: Let_def del: handle_event.simps fold_simps)

subsection \<open>The keep-alive reaper\<close>

text \<open>
  An HTTP server: each open connection is idle or busy (its response is unfinished).
  \<open>drainReaperFor\<close> has attached a listener that runs \<open>closeIdleConnections\<close> after every finished
  response while draining. \<open>app.close()\<close> reaches the server's \<open>close\<close> later, after Fastify's own
  hooks: \<open>begin_drain\<close> is the synchronous part of \<open>closeServer\<close>, \<open>http_close\<close> the moment the
  server stops listening, which also closes the connections idle then.
\<close>

record server =
  sv_listening :: bool
  sv_draining :: bool
  sv_busy :: "nat list"
  sv_idle :: "nat list"

definition closeIdleConnections :: "server \<Rightarrow> server" where
  "closeIdleConnections s = s\<lparr>sv_idle := []\<rparr>"

definition begin_drain :: "server \<Rightarrow> server" where
  "begin_drain s = closeIdleConnections (s\<lparr>sv_draining := True\<rparr>)"

definition http_close :: "server \<Rightarrow> server" where
  "http_close s = closeIdleConnections (s\<lparr>sv_listening := False\<rparr>)"

definition response_finished :: "nat \<Rightarrow> server \<Rightarrow> server" where
  "response_finished c s =
     (let s' = s\<lparr>sv_busy := remove1 c (sv_busy s), sv_idle := sv_idle s @ [c]\<rparr>
      in if sv_draining s' then closeIdleConnections s' else s')"

inductive server_step :: "server \<Rightarrow> server \<Rightarrow> bool" where
  accept: "sv_listening s \<Longrightarrow> c \<notin> set (sv_busy s) \<union> set (sv_idle s) \<Longrightarrow>
     server_step s (s\<lparr>sv_idle := sv_idle s @ [c]\<rparr>)"
| request: "c \<in> set (sv_idle s) \<Longrightarrow>
     server_step s (s\<lparr>sv_busy := sv_busy s @ [c], sv_idle := remove1 c (sv_idle s)\<rparr>)"
| finished: "c \<in> set (sv_busy s) \<Longrightarrow> server_step s (response_finished c s)"
| aborted: "c \<in> set (sv_busy s) \<Longrightarrow> server_step s (s\<lparr>sv_busy := remove1 c (sv_busy s)\<rparr>)"
| hung_up: "c \<in> set (sv_idle s) \<Longrightarrow> server_step s (s\<lparr>sv_idle := remove1 c (sv_idle s)\<rparr>)"
| drain: "server_step s (begin_drain s)"
| stop_listening: "sv_draining s \<Longrightarrow> server_step s (http_close s)"

definition server_init :: "server \<Rightarrow> bool" where
  "server_init s \<longleftrightarrow> s = \<lparr>sv_listening = True, sv_draining = False, sv_busy = [], sv_idle = []\<rparr>"

definition server_inv :: "server \<Rightarrow> bool" where
  "server_inv s \<longleftrightarrow> (\<not> sv_listening s \<longrightarrow> sv_draining s \<and> sv_idle s = []) \<and>
     distinct (sv_busy s) \<and> distinct (sv_idle s) \<and> set (sv_busy s) \<inter> set (sv_idle s) = {}"

lemma server_inv_step: "server_step s t \<Longrightarrow> server_inv s \<Longrightarrow> server_inv t"
  by (induction rule: server_step.induct)
    (auto simp: server_inv_def response_finished_def begin_drain_def http_close_def
      closeIdleConnections_def Let_def dest: notin_set_remove1)

interpretation http_server: invariant_system server_init server_step server_inv
  by unfold_locales (auto simp: server_inv_step, simp add: server_init_def server_inv_def)


definition demo_server :: server where
  "demo_server = \<lparr>sv_listening = False, sv_draining = True, sv_busy = [1], sv_idle = []\<rparr>"

lemma demo_server_reachable: "reachable_from server_init server_step demo_server"
proof -
  define s0 where "s0 = \<lparr>sv_listening = True, sv_draining = False, sv_busy = [], sv_idle = []\<rparr>"
  define s1 where "s1 = s0\<lparr>sv_idle := [1]\<rparr>"
  define s2 where "s2 = s0\<lparr>sv_busy := [1]\<rparr>"
  have "reachable_from server_init server_step s0" by (rule reach_init) (simp add: server_init_def s0_def)
  moreover have "server_step s0 s1" using server_step.accept [of s0 1] by (simp add: s0_def s1_def)
  moreover have "server_step s1 s2" using server_step.request [of 1 s1] by (simp add: s0_def s1_def s2_def)
  moreover have "server_step s2 (begin_drain s2)" by (rule server_step.drain)
  moreover have "server_step (begin_drain s2) demo_server"
    using server_step.stop_listening [of "begin_drain s2"]
    by (simp add: begin_drain_def http_close_def closeIdleConnections_def s0_def s2_def demo_server_def)
  ultimately show ?thesis by (meson reach_step)
qed


end
