(* ===== verification/Metrics.thy ===== *)
theory Metrics
  imports Errors Complex_Main
begin

text \<open>
  What the process reports about itself: the in-flight gauge that the metrics hooks keep
  (\<open>shared/metrics/registry.ts\<close>), the connection flags and gauges of the Kafka clients
  (\<open>infrastructure/kafka/producer.ts\<close>, \<open>cdc-consumer.ts\<close>) and the health route (\<open>index.ts\<close>).
\<close>

subsection \<open>Requests in flight\<close>

text \<open>
  \<open>mt_accounted r\<close> is \<open>request.inFlightAccountedFor\<close>, \<open>None\<close> before the \<open>onRequest\<close> hook. The
  close listener is registered with \<open>once\<close>: \<open>mt_listening\<close> are the requests whose listener has not
  run yet. \<open>mt_observed\<close> are the observations of the duration histogram: its three labels and the
  seconds.
\<close>

record request_observation =
  ob_method :: string
  ob_route :: string
  ob_status_code :: int
  ob_seconds :: rat

record 'r metrics =
  mt_in_flight :: int
  mt_accounted :: "'r \<rightharpoonup> bool"
  mt_listening :: "'r list"
  mt_observed :: "request_observation list"

definition on_request :: "'r \<Rightarrow> 'r metrics \<Rightarrow> 'r metrics" where
  "on_request r m = m\<lparr>mt_in_flight := mt_in_flight m + 1, mt_accounted := (mt_accounted m)(r \<mapsto> False),
     mt_listening := mt_listening m @ [r]\<rparr>"

definition account :: "'r \<Rightarrow> 'r metrics \<Rightarrow> 'r metrics" where
  "account r m =
     (if mt_accounted m r \<noteq> Some True
      then m\<lparr>mt_accounted := (mt_accounted m)(r \<mapsto> True), mt_in_flight := mt_in_flight m - 1\<rparr>
      else m)"

definition on_raw_close :: "'r \<Rightarrow> 'r metrics \<Rightarrow> 'r metrics" where
  "on_raw_close r m =
     (if r \<in> set (mt_listening m) then account r (m\<lparr>mt_listening := remove1 r (mt_listening m)\<rparr>) else m)"

text \<open>
  The label is the declared pattern of the route (\<open>request.routeOptions?.url\<close>), one bucket for
  all requests without one; the reply's elapsed time is in milliseconds.
\<close>

definition observe_request :: "string \<Rightarrow> string option \<Rightarrow> int \<Rightarrow> rat \<Rightarrow> request_observation" where
  "observe_request verb url status elapsedTime =
     \<lparr>ob_method = verb, ob_route = (case url of None \<Rightarrow> ''unmatched'' | Some u \<Rightarrow> u),
      ob_status_code = status, ob_seconds = elapsedTime / 1000\<rparr>"

definition on_response :: "'r \<Rightarrow> request_observation \<Rightarrow> 'r metrics \<Rightarrow> 'r metrics" where
  "on_response r ob m = (account r m)\<lparr>mt_observed := mt_observed m @ [ob]\<rparr>"

text \<open>
  A request enters once; its response and the closing of its socket may happen in any order,
  any number of times, or not at all.
\<close>

inductive metrics_step :: "'r metrics \<Rightarrow> 'r metrics \<Rightarrow> bool" where
  entered: "mt_accounted m r = None \<Longrightarrow> metrics_step m (on_request r m)"
| closed: "metrics_step m (on_raw_close r m)"
| responded: "mt_accounted m r \<noteq> None \<Longrightarrow> metrics_step m (on_response r (observe_request verb url status elapsed) m)"

definition metrics_init :: "'r metrics \<Rightarrow> bool" where
  "metrics_init m \<longleftrightarrow> m = \<lparr>mt_in_flight = 0, mt_accounted = Map.empty, mt_listening = [], mt_observed = []\<rparr>"

definition open_requests :: "'r metrics \<Rightarrow> 'r set" where
  "open_requests m = {r. mt_accounted m r = Some False}"

definition metrics_inv :: "'r metrics \<Rightarrow> bool" where
  "metrics_inv m \<longleftrightarrow> finite (open_requests m) \<and> mt_in_flight m = int (card (open_requests m)) \<and>
     set (mt_listening m) \<subseteq> dom (mt_accounted m)"

lemma open_requests_account:
  "r \<in> dom (mt_accounted m) \<Longrightarrow> open_requests (account r m) = open_requests m - {r}"
  by (auto simp: open_requests_def account_def)

lemma in_flight_account:
  assumes "finite (open_requests m)" and "mt_in_flight m = int (card (open_requests m))"
    and "r \<in> dom (mt_accounted m)"
  shows "mt_in_flight (account r m) = int (card (open_requests (account r m)))"
proof (cases "r \<in> open_requests m")
  case True
  with assms have "mt_in_flight (account r m) = int (card (open_requests m)) - 1"
    by (simp add: account_def open_requests_def)
  moreover have "card (open_requests m) > 0" using True assms(1) card_gt_0_iff by blast
  ultimately show ?thesis using True assms by (simp add: open_requests_account of_nat_diff)
next
  case False
  with assms(3) have "account r m = m" by (auto simp: account_def open_requests_def)
  with assms show ?thesis by simp
qed

lemma account_frame [simp]:
  "mt_listening (account r m) = mt_listening m" "dom (mt_accounted (account r m)) = insert r (dom (mt_accounted m))"
  by (auto simp: account_def split: if_splits)

lemma open_requests_update [simp]:
  "open_requests (m\<lparr>mt_listening := l\<rparr>) = open_requests m" "open_requests (m\<lparr>mt_observed := obs\<rparr>) = open_requests m"
  by (simp_all add: open_requests_def)

lemma metrics_inv_account:
  assumes "metrics_inv m" and "r \<in> dom (mt_accounted m)"
  shows "metrics_inv (account r m)"
  using assms in_flight_account [of m r] by (auto simp: metrics_inv_def open_requests_account)

lemma metrics_inv_step: "metrics_step m n \<Longrightarrow> metrics_inv m \<Longrightarrow> metrics_inv n"
proof (induction rule: metrics_step.induct)
  case (entered m r)
  then have "open_requests (on_request r m) = insert r (open_requests m)" "r \<notin> open_requests m"
    by (auto simp: open_requests_def on_request_def)
  with entered show ?case by (auto simp: metrics_inv_def on_request_def)
next
  case (closed m r)
  then have "metrics_inv (m\<lparr>mt_listening := remove1 r (mt_listening m)\<rparr>)"
    by (auto simp: metrics_inv_def dest: notin_set_remove1)
  then have "metrics_inv (account r (m\<lparr>mt_listening := remove1 r (mt_listening m)\<rparr>))"
    if "r \<in> set (mt_listening m)"
    using that closed by (intro metrics_inv_account) (auto simp: metrics_inv_def)
  with closed show ?case by (simp add: on_raw_close_def)
next
  case (responded m r verb url status elapsed)
  then have "metrics_inv (account r m)" by (intro metrics_inv_account) auto
  then show ?case by (simp add: on_response_def metrics_inv_def)
qed

interpretation in_flight: invariant_system metrics_init metrics_step metrics_inv
  by unfold_locales (auto simp: metrics_inv_step, simp add: metrics_init_def metrics_inv_def open_requests_def)

text \<open>
  The in-flight gauge is exact: in every reachable state it is the number of requests that
  entered and neither got their response nor lost their socket, so an aborted request does not
  leak and a completed one is not counted down twice; it is never negative.
\<close>

theorem in_flight_exact:
  assumes "reachable_from metrics_init metrics_step m"
  shows "mt_in_flight m = int (card (open_requests m)) \<and> 0 \<le> mt_in_flight m \<and>
    (mt_accounted m r = Some False \<longrightarrow>
       mt_in_flight (on_response r ob m) = mt_in_flight m - 1 \<and>
       on_response r ob' (on_response r ob m) = (on_response r ob m)\<lparr>mt_observed := mt_observed m @ [ob, ob']\<rparr> \<and>
       mt_in_flight (on_raw_close r (on_response r ob m)) = mt_in_flight m - 1)"
  using in_flight.reachable_inv [OF assms]
  by (auto simp: metrics_inv_def on_response_def account_def on_raw_close_def)

theorem in_flight_exact_witness:
  "mt_in_flight (on_raw_close (7::nat) (on_response 7 (observe_request ''GET'' None 404 1) (on_request 7
     \<lparr>mt_in_flight = 0, mt_accounted = Map.empty, mt_listening = [], mt_observed = []\<rparr>))) = 0"
proof -
  let ?m0 = "\<lparr>mt_in_flight = 0, mt_accounted = Map.empty, mt_listening = [], mt_observed = []\<rparr> :: nat metrics"
  have "reachable_from metrics_init metrics_step ?m0" by (rule reach_init) (simp add: metrics_init_def)
  moreover have "metrics_step ?m0 (on_request 7 ?m0)" by (rule metrics_step.entered) simp
  ultimately have "reachable_from metrics_init metrics_step (on_request 7 ?m0)" by (rule reach_step)
  from in_flight_exact [OF this, of 7 "observe_request ''GET'' None 404 1"] show ?thesis by (simp add: on_request_def)
qed

subsection \<open>Connection flags\<close>

text \<open>
  The handlers of the Kafka clients' own events. The producer has no CRASH event; its CONNECT and
  DISCONNECT handlers are those of the consumer.
\<close>

datatype client_event = CONNECT | DISCONNECT | CRASH

record connection =
  cn_connected :: bool
  cn_gauge :: int

fun on_client_event :: "client_event \<Rightarrow> connection \<Rightarrow> connection" where
  "on_client_event CONNECT c = c\<lparr>cn_connected := True, cn_gauge := 1\<rparr>"
| "on_client_event DISCONNECT c = c\<lparr>cn_connected := False, cn_gauge := 0\<rparr>"
| "on_client_event CRASH c = c\<lparr>cn_connected := False, cn_gauge := 0\<rparr>"

definition disconnected :: connection where
  "disconnected = \<lparr>cn_connected = False, cn_gauge = 0\<rparr>"

text \<open>\<open>stopCdcConsumer\<close>: whether it calls \<open>consumer.disconnect()\<close>.\<close>

definition stop_disconnects :: "connection \<Rightarrow> bool" where
  "stop_disconnects c \<longleftrightarrow> cn_connected c"

subsection \<open>The health route\<close>

text \<open>
  The race between the Redis ping and the 2000 ms timer: when the ping settles, and how.
\<close>

datatype ping = PingResolves nat | PingRejects nat | PingHangs

record health =
  hl_status :: int
  hl_text :: string
  hl_cdcConsumer :: string
  hl_redis :: string

fun redis_race :: "ping \<Rightarrow> bool \<times> nat" where
  "redis_race (PingResolves t) = (if t < 2000 then (True, t) else (False, 2000))"
| "redis_race (PingRejects t) = (if t < 2000 then (False, t) else (False, 2000))"
| "redis_race PingHangs = (False, 2000)"

definition health_reply :: "connection \<Rightarrow> ping \<Rightarrow> health" where
  "health_reply consumer p =
     (let cdc = (if cn_connected consumer then ''connected'' else ''disconnected'')
      in if \<not> fst (redis_race p)
         then \<lparr>hl_status = 503, hl_text = ''error'', hl_cdcConsumer = cdc, hl_redis = ''unreachable''\<rparr>
         else \<lparr>hl_status = 200, hl_text = ''ok'', hl_cdcConsumer = cdc, hl_redis = ''connected''\<rparr>)"

text \<open>
  Health tells the truth in bounded time: after any sequence of client events the gauge is 1
  exactly when the flag is set, exactly when the latest event was CONNECT; the health reply
  reports that flag, is 200 exactly when the ping resolved within two seconds and 503 otherwise,
  and never takes longer than those two seconds.
\<close>

theorem health_reports:
  "let c = fold on_client_event evs disconnected; h = health_reply c p
   in (cn_gauge c = 1 \<longleftrightarrow> cn_connected c) \<and> (cn_connected c \<longleftrightarrow> (evs \<noteq> [] \<and> last evs = CONNECT)) \<and>
      hl_cdcConsumer h = (if evs \<noteq> [] \<and> last evs = CONNECT then ''connected'' else ''disconnected'') \<and>
      hl_status h = (if \<exists>t<2000. p = PingResolves t then 200 else 503) \<and>
      snd (redis_race p) \<le> 2000"
proof -
  have c: "(cn_gauge (fold on_client_event evs disconnected) = 1 \<longleftrightarrow> cn_connected (fold on_client_event evs disconnected)) \<and>
      (cn_connected (fold on_client_event evs disconnected) \<longleftrightarrow> (evs \<noteq> [] \<and> last evs = CONNECT))"
  proof (cases evs rule: rev_cases)
    case (snoc es ev)
    then show ?thesis by (cases ev) simp_all
  qed (simp add: disconnected_def)
  have "hl_status (health_reply x p) = (if \<exists>t<2000. p = PingResolves t then 200 else 503)" for x
    by (cases p) (auto simp: health_reply_def Let_def)
  moreover have "hl_cdcConsumer (health_reply x p) = (if cn_connected x then ''connected'' else ''disconnected'')" for x
    by (simp add: health_reply_def Let_def)
  moreover have "snd (redis_race p) \<le> 2000" by (cases p) auto
  ultimately show ?thesis using c unfolding Let_def by presburger
qed

end
