(* ===== verification/Client.thy ===== *)
theory Client
  imports Json
begin

text \<open>
  The frontend's libraries: the API client (\<open>frontend/src/lib/api.ts\<close>), the session
  (\<open>lib/auth.tsx\<close>, \<open>components/ProtectedRoute.tsx\<close>), the countdown of a hold
  (\<open>lib/useCountdown.ts\<close>), the reference of a ticket and the live connection
  (\<open>lib/useLiveSeats.ts\<close>). React's state setters are updates of a record; the browser's
  storage, sockets and timers are part of the state.
\<close>

subsection \<open>The API client\<close>

text \<open>
  Message and code of an \<open>ApiError\<close> are what the body held, or the defaults. A reply has its
  status and its body; \<open>None\<close> is a body that is no JSON, which the client reads as null.
\<close>

datatype api_error = ApiError json json int

record fetch_reply =
  fr_status :: int
  fr_json :: "json option"

text \<open>\<open>body?.name ?? default\<close>.\<close>

definition field_or :: "json \<Rightarrow> string \<Rightarrow> json \<Rightarrow> json" where
  "field_or body name dflt =
     (case get_property name body of
        Inl e \<Rightarrow> dflt
      | Inr None \<Rightarrow> dflt
      | Inr (Some JNull) \<Rightarrow> dflt
      | Inr (Some v) \<Rightarrow> v)"

definition request_headers :: "bool \<Rightarrow> string option \<Rightarrow> (string \<times> string) list \<Rightarrow> (string \<times> string) list" where
  "request_headers has_body authToken extra =
     (if has_body then [(''Content-Type'', ''application/json'')] else []) @
     (case authToken of None \<Rightarrow> [] | Some t \<Rightarrow> if t = '''' then [] else [(''Authorization'', ''Bearer '' @ t)]) @
     extra"

definition request_result :: "fetch_reply \<Rightarrow> api_error + json" where
  "request_result res =
     (let body = (case fr_json res of None \<Rightarrow> JNull | Some v \<Rightarrow> v)
      in if \<not> (200 \<le> fr_status res \<and> fr_status res \<le> 299)
         then Inl (ApiError (field_or body ''message'' (JStr ''Something went wrong''))
                 (field_or body ''code'' (JStr ''UNKNOWN_ERROR'')) (fr_status res))
         else Inr body)"

text \<open>The query of \<open>listSeatsForEvent\<close>; a missing or zero limit is left out.\<close>

definition seats_query_text :: "string option \<Rightarrow> nat option \<Rightarrow> string" where
  "seats_query_text status limit =
     (let ps = (case status of None \<Rightarrow> [] | Some s \<Rightarrow> if s = '''' then [] else [''status='' @ s]) @
               (case limit of None \<Rightarrow> [] | Some n \<Rightarrow> if n = 0 then [] else [''limit='' @ show_nat n])
      in case ps of [] \<Rightarrow> '''' | [p] \<Rightarrow> ''?'' @ p | p # q # _ \<Rightarrow> ''?'' @ p @ ''&'' @ q)"

subsection \<open>The session\<close>

record session_user =
  su_id :: int
  su_email :: string

text \<open>
  \<open>se_stored\<close> is the text in local storage; \<open>codec\<close> is \<open>JSON.stringify\<close> and \<open>JSON.parse\<close> on the
  stored pair, \<open>None\<close> when parsing throws or gives null.
\<close>

record session =
  se_user :: "session_user option"
  se_token :: "string option"
  se_ready :: bool
  se_api_token :: "string option"
  se_stored :: "string option"

record codec =
  stringify_auth :: "session_user \<times> string \<Rightarrow> string"
  parse_auth :: "string \<Rightarrow> (session_user \<times> string) option"

definition loadStored :: "codec \<Rightarrow> string option \<Rightarrow> (session_user \<times> string) option" where
  "loadStored c raw = (case raw of None \<Rightarrow> None | Some t \<Rightarrow> if t = '''' then None else parse_auth c t)"

text \<open>A page load: React state and the module's token start empty; then the effect runs.\<close>

definition page_load :: "session \<Rightarrow> session" where
  "page_load s = \<lparr>se_user = None, se_token = None, se_ready = False, se_api_token = None, se_stored = se_stored s\<rparr>"

definition restore_effect :: "codec \<Rightarrow> session \<Rightarrow> session" where
  "restore_effect c s =
     (case loadStored c (se_stored s) of
        None \<Rightarrow> s\<lparr>se_ready := True\<rparr>
      | Some (user, token) \<Rightarrow>
          s\<lparr>se_user := Some user, se_token := Some token, se_api_token := Some token, se_ready := True\<rparr>)"

definition persist :: "codec \<Rightarrow> session_user \<Rightarrow> string \<Rightarrow> session \<Rightarrow> session" where
  "persist c user token s =
     s\<lparr>se_user := Some user, se_token := Some token, se_api_token := Some token,
       se_stored := Some (stringify_auth c (user, token))\<rparr>"

definition logout :: "session \<Rightarrow> session" where
  "logout s = s\<lparr>se_user := None, se_token := None, se_api_token := None, se_stored := None\<rparr>"

text \<open>What a protected page shows.\<close>

datatype guarded = NothingYet | RedirectToLogin | Children

definition ProtectedRoute :: "session \<Rightarrow> guarded" where
  "ProtectedRoute s =
     (if \<not> se_ready s then NothingYet else if se_user s = None then RedirectToLogin else Children)"

inductive session_step :: "codec \<Rightarrow> session \<Rightarrow> session \<Rightarrow> bool" for c :: codec where
  load: "session_step c s (page_load s)"
| restore: "\<not> se_ready s \<Longrightarrow> session_step c s (restore_effect c s)"
| logged_in: "se_ready s \<Longrightarrow> session_step c s (persist c user token s)"
| logged_out: "se_ready s \<Longrightarrow> session_step c s (logout s)"

definition codec_ok :: "codec \<Rightarrow> bool" where
  "codec_ok c \<longleftrightarrow> (\<forall>x. stringify_auth c x \<noteq> '''' \<and> parse_auth c (stringify_auth c x) = Some x)"

definition session_init :: "codec \<Rightarrow> session \<Rightarrow> bool" where
  "session_init c s \<longleftrightarrow> codec_ok c \<and> (\<exists>raw. s = page_load \<lparr>se_user = None, se_token = None, se_ready = False,
     se_api_token = None, se_stored = raw\<rparr>)"

definition session_inv :: "codec \<Rightarrow> session \<Rightarrow> bool" where
  "session_inv c s \<longleftrightarrow> codec_ok c \<and> se_api_token s = se_token s \<and> (se_user s = None \<longleftrightarrow> se_token s = None) \<and>
     (if se_ready s
      then (case (se_user s, se_token s) of
              (Some u, Some t) \<Rightarrow> loadStored c (se_stored s) = Some (u, t)
            | _ \<Rightarrow> loadStored c (se_stored s) = None)
      else se_user s = None)"

lemma session_inv_step: "session_step c s t \<Longrightarrow> session_inv c s \<Longrightarrow> session_inv c t"
  by (induction rule: session_step.induct)
    (auto simp: session_inv_def page_load_def restore_effect_def persist_def logout_def codec_ok_def
      loadStored_def split: option.splits)

lemma session_inv_init: "session_init c s \<Longrightarrow> session_inv c s"
  by (auto simp: session_init_def session_inv_def page_load_def)

interpretation auth_session: invariant_system "session_init c" "session_step c" "session_inv c" for c
  by unfold_locales (rule session_inv_init, assumption, rule session_inv_step)

subsection \<open>The countdown and the ticket\<close>

text \<open>\<open>padStart(n, "0")\<close>.\<close>

definition pad_start :: "nat \<Rightarrow> string \<Rightarrow> string" where
  "pad_start n s = replicate (n - length s) CHR ''0'' @ s"

record countdown =
  cd_expired :: bool
  cd_label :: string

definition useCountdown :: "int option \<Rightarrow> int \<Rightarrow> countdown option" where
  "useCountdown target now =
     (case target of
        None \<Rightarrow> None
      | Some t \<Rightarrow>
          (let clamped = max 0 (t - now);
               minutes = clamped div 60000;
               seconds = (clamped mod 60000) div 1000
           in Some \<lparr>cd_expired = (clamped = 0),
                    cd_label = show_int minutes @ '':'' @ pad_start 2 (show_int seconds)\<rparr>))"

definition bookingRef :: "int \<Rightarrow> string" where
  "bookingRef i = ''FS-'' @ pad_start 4 (show_int i)"

subsection \<open>The live connection\<close>

text \<open>
  The effect of \<open>useLiveSeats\<close> for one event: the sockets that were created and have not closed,
  whether the reconnect timer is armed, and the \<open>cancelled\<close> flag of the cleanup.
\<close>

record live_hook =
  lh_live :: "nat list"
  lh_created :: nat
  lh_timer :: bool
  lh_cancelled :: bool

definition live_connect :: "live_hook \<Rightarrow> live_hook" where
  "live_connect h =
     (if lh_cancelled h then h
      else h\<lparr>lh_live := lh_live h @ [lh_created h], lh_created := Suc (lh_created h)\<rparr>)"

definition socket_closed :: "nat \<Rightarrow> live_hook \<Rightarrow> live_hook" where
  "socket_closed s h =
     (let h' = h\<lparr>lh_live := remove1 s (lh_live h)\<rparr>
      in if \<not> lh_cancelled h' then h'\<lparr>lh_timer := True\<rparr> else h')"

definition timer_fires :: "live_hook \<Rightarrow> live_hook" where
  "timer_fires h = live_connect (h\<lparr>lh_timer := False\<rparr>)"

definition live_cleanup :: "live_hook \<Rightarrow> live_hook" where
  "live_cleanup h = h\<lparr>lh_cancelled := True, lh_timer := False\<rparr>"

definition live_mount :: live_hook where
  "live_mount = live_connect \<lparr>lh_live = [], lh_created = 0, lh_timer = False, lh_cancelled = False\<rparr>"

text \<open>
  The message handler: what it hands to \<open>onUpdate\<close>, the values of \<open>seatId\<close> and \<open>status\<close> in the
  frame. A text that is no JSON, and the value null, throw inside the handler's \<open>try\<close>.
\<close>

definition on_live_message :: "js_lib \<Rightarrow> string \<Rightarrow> (json option \<times> json option) option" where
  "on_live_message lib data =
     (case JSON_parse lib data of
        None \<Rightarrow> None
      | Some msg \<Rightarrow>
          (case (get_property ''type'' msg, get_property ''seatId'' msg, get_property ''status'' msg) of
             (Inr (Some t), Inr seatId, Inr status) \<Rightarrow>
               if t = JStr ''seat.updated'' then Some (seatId, status) else None
           | _ \<Rightarrow> None))"

inductive hook_step :: "live_hook \<Rightarrow> live_hook \<Rightarrow> bool" where
  dropped: "s \<in> set (lh_live h) \<Longrightarrow> hook_step h (socket_closed s h)"
| fired: "lh_timer h \<Longrightarrow> hook_step h (timer_fires h)"
| unmounted: "\<not> lh_cancelled h \<Longrightarrow> hook_step h (live_cleanup h)"

definition hook_inv :: "live_hook \<Rightarrow> bool" where
  "hook_inv h \<longleftrightarrow> length (lh_live h) \<le> 1 \<and>
     (if lh_cancelled h then \<not> lh_timer h else (lh_timer h \<longleftrightarrow> lh_live h = []))"

lemma short_list_single: "length xs \<le> 1 \<Longrightarrow> x \<in> set xs \<Longrightarrow> xs = [x]"
  by (cases xs) auto

lemma hook_inv_step: "hook_step h k \<Longrightarrow> hook_inv h \<Longrightarrow> hook_inv k"
proof (induction rule: hook_step.induct)
  case (dropped s h)
  then have "lh_live h = [s]"
    by (auto intro: short_list_single simp: hook_inv_def)
  with dropped show ?case
    by (auto simp: hook_inv_def socket_closed_def Let_def split: if_splits)
qed (auto simp: hook_inv_def timer_fires_def live_connect_def live_cleanup_def split: if_splits)

interpretation live_seats: invariant_system "\<lambda>h. h = live_mount" hook_step hook_inv
  by unfold_locales (auto intro: hook_inv_step, simp add: hook_inv_def live_mount_def live_connect_def)


subsection \<open>A codec\<close>

text \<open>
  For the witnesses: every character of a text behind a one, and a zero at the end of the text.
\<close>

fun mark_text :: "string \<Rightarrow> string" where
  "mark_text [] = ''0''"
| "mark_text (x # xs) = CHR ''1'' # x # mark_text xs"

fun unmark_text :: "string \<Rightarrow> (string \<times> string) option" where
  "unmark_text (m # xs) =
     (if m = CHR ''0'' then Some ([], xs)
      else (case xs of
              [] \<Rightarrow> None
            | y # ys \<Rightarrow> (case unmark_text ys of None \<Rightarrow> None | Some (s, r) \<Rightarrow> Some (y # s, r))))"
| "unmark_text [] = None"

lemma unmark_mark [simp]: "unmark_text (mark_text s @ r) = Some (s, r)"
  by (induction s) auto

definition demo_codec :: codec where
  "demo_codec = \<lparr>
     stringify_auth = (\<lambda>(u, t). mark_text (show_int (su_id u)) @ mark_text (su_email u) @ mark_text t),
     parse_auth = (\<lambda>x.
       case unmark_text x of None \<Rightarrow> None
       | Some (i, x1) \<Rightarrow> (case unmark_text x1 of None \<Rightarrow> None
          | Some (e, x2) \<Rightarrow> (case unmark_text x2 of None \<Rightarrow> None
             | Some (t, _) \<Rightarrow> Some (\<lparr>su_id = read_int i, su_email = e\<rparr>, t))))\<rparr>"

lemma mark_text_nonempty [simp]: "mark_text s \<noteq> []"
  by (cases s) auto

lemma demo_codec_ok: "codec_ok demo_codec"
  using unmark_mark [of _ "[]"] by (auto simp: codec_ok_def demo_codec_def)

definition demo_session :: session where
  "demo_session = \<lparr>se_user = None, se_token = None, se_ready = False, se_api_token = None, se_stored = None\<rparr>"

subsection \<open>What the session shows and what the requests carry\<close>






subsection \<open>What the countdown and the ticket show\<close>

lemma show_nat_length: "n < 10 \<Longrightarrow> length (show_nat n) = 1" "10 \<le> n \<Longrightarrow> n < 100 \<Longrightarrow> length (show_nat n) = 2"
  by (subst show_nat.simps, simp)+

lemma pad_start_length: "length (pad_start n s) = max n (length s)"
  by (simp add: pad_start_def)

lemma pad_two_length:
  assumes "0 \<le> i" and "i < 60"
  shows "length (pad_start 2 (show_int i)) = 2"
proof (cases "i < 10")
  case True
  with assms show_nat_length(1) [of "nat i"] show ?thesis by (simp add: pad_start_length show_int_def)
next
  case False
  with assms show_nat_length(2) [of "nat i"] show ?thesis by (simp add: pad_start_length show_int_def)
qed

lemma read_nat_zeros: "read_nat (replicate k CHR ''0'' @ s) = read_nat s"
  by (induction k) (simp_all add: read_nat_def undigit_def)

lemma read_pad_start: "read_nat (pad_start n (show_nat i)) = i"
  by (simp add: pad_start_def read_nat_zeros)

text \<open>
  The countdown of a hold: it says expired exactly from the instant the hold runs out; before,
  it shows minutes and a two digit number of seconds below sixty that together are the whole
  seconds left, so it reads 0:00 during the last second of a hold that is still valid.
\<close>

theorem useCountdown_exact:
  "let left = max 0 (t - now) div 1000
   in useCountdown (Some t) now =
        Some \<lparr>cd_expired = (t \<le> now),
              cd_label = show_int (left div 60) @ '':'' @ pad_start 2 (show_int (left mod 60))\<rparr> \<and>
      length (pad_start 2 (show_int (left mod 60))) = 2 \<and> (left = 0 \<longleftrightarrow> t - now < 1000)"
proof -
  let ?k = "max 0 (t - now)"
  have parts: "(?k mod 60000) div 1000 = ?k div 1000 mod 60" "?k div 60000 = ?k div 1000 div 60"
    using zmod_zmult2_eq [of 60 ?k 1000] zdiv_zmult2_eq [of 60 ?k 1000] by simp_all
  have expired: "?k = 0 \<longleftrightarrow> t \<le> now" by auto
  have zero: "?k div 1000 = 0 \<longleftrightarrow> t - now < 1000" by (auto simp: zdiv_eq_0_iff)
  have pad: "length (pad_start 2 (show_int (?k div 1000 mod 60))) = 2"
    by (rule pad_two_length) simp_all
  show ?thesis
    unfolding useCountdown_def Let_def option.case parts expired zero
    by (intro conjI refl pad)
qed

text \<open>
  Two bookings never print the same reference: the reference of a booking determines its id,
  however many digits the id has.
\<close>

theorem bookingRef_inj:
  assumes "0 \<le> i" and "0 \<le> j" and "bookingRef i = bookingRef j"
  shows "i = j"
proof -
  have "pad_start 4 (show_nat (nat i)) = pad_start 4 (show_nat (nat j))"
    using assms by (simp add: bookingRef_def show_int_def)
  then have "nat i = nat j" by (metis read_pad_start)
  with assms(1,2) show ?thesis by simp
qed

theorem bookingRef_inj_witness: "bookingRef 10000 \<noteq> bookingRef 1000"
  using bookingRef_inj [of 10000 1000] by auto

end
