(* ===== verification/Seat_Picker.thy ===== *)
theory Seat_Picker
  imports Database "HOL-Library.Multiset"
begin

text \<open>
  The seat picker of the frontend (\<open>frontend/src/pages/SeatPickerPage.tsx\<close>): the state of the
  page, what a click and a live update do to it, the reservation of the selected seats one after
  the other, and the grouping of the seats into sections and rows. The server is a parameter:
  a call that reserves a seat with any outcome; a property instantiates it with the backend.
\<close>

subsection \<open>The page\<close>

record picker =
  pk_seats :: "seat_row list option"
  pk_error :: "string option"
  pk_selected :: "seat_row list"
  pk_reserving :: bool

definition SEAT_PAGE_SIZE :: nat where
  "SEAT_PAGE_SIZE = 240"

definition MAX_SELECTION :: nat where
  "MAX_SELECTION = 8"

definition seatLabel :: "seat_row \<Rightarrow> string" where
  "seatLabel seat = seat_section seat @ '' '' @ seat_rowLabel seat @ show_int (seat_seatNumber seat)"

definition empty_picker :: picker where
  "empty_picker = \<lparr>pk_seats = None, pk_error = None, pk_selected = [], pk_reserving = False\<rparr>"

definition seats_loaded :: "seat_row list \<Rightarrow> picker \<Rightarrow> picker" where
  "seats_loaded rows p = p\<lparr>pk_seats := Some rows\<rparr>"

text \<open>The apostrophe in the message is the character with code 39.\<close>

definition load_failed :: "picker \<Rightarrow> picker" where
  "load_failed p = p\<lparr>pk_error := Some (''Couldn'' @ [CHR 0x27] @ ''t load the seat map right now.'')\<rparr>"

definition handleLiveUpdate :: "int \<Rightarrow> seat_status \<Rightarrow> picker \<Rightarrow> picker" where
  "handleLiveUpdate seatId status p =
     (let p1 = p\<lparr>pk_seats := map_option (map (\<lambda>s. if seat_id s = seatId then s\<lparr>seat_status := status\<rparr> else s)) (pk_seats p)\<rparr>
      in if status \<noteq> Available
         then p1\<lparr>pk_selected := filter (\<lambda>s. seat_id s \<noteq> seatId) (pk_selected p1)\<rparr>
         else p1)"

definition toggleSeat :: "seat_row \<Rightarrow> picker \<Rightarrow> picker" where
  "toggleSeat seat p =
     (if seat_status seat \<noteq> Available then p
      else p\<lparr>pk_selected :=
        (let prev = pk_selected p
         in if list_ex (\<lambda>s. seat_id s = seat_id seat) prev
            then filter (\<lambda>s. seat_id s \<noteq> seat_id seat) prev
            else if length prev \<ge> MAX_SELECTION then prev
            else prev @ [seat])\<rparr>)"

text \<open>The banner under the legend: shown when a full page of seats was loaded.\<close>

definition more_banner :: "picker \<Rightarrow> bool" where
  "more_banner p = (case pk_seats p of None \<Rightarrow> False | Some rows \<Rightarrow> length rows = SEAT_PAGE_SIZE)"

subsection \<open>Reserving the selection\<close>

text \<open>
  What a rejected call was: an \<open>ApiError\<close> with its status and message, or something else. The call returns
  the id of the booking.
\<close>

datatype call_failure = ApiFailure int string | OtherFailure

definition failure_text :: "call_failure \<Rightarrow> string" where
  "failure_text e = (case e of ApiFailure status message \<Rightarrow> message | OtherFailure \<Rightarrow> ''failed'')"

fun reserve_selected ::
  "(int \<Rightarrow> 's \<Rightarrow> (call_failure + int) \<times> 's) \<Rightarrow> seat_row list \<Rightarrow> int list \<times> string list \<Rightarrow> 's \<Rightarrow>
   (int list \<times> string list) \<times> 's" where
  "reserve_selected reserve [] acc s = (acc, s)"
| "reserve_selected reserve (seat # rest) (bookingIds, failed) s =
     (case reserve (seat_id seat) s of
        (Inr bookingId, s') \<Rightarrow> reserve_selected reserve rest (bookingIds @ [bookingId], failed) s'
      | (Inl err, s') \<Rightarrow>
          reserve_selected reserve rest
            (bookingIds, failed @ [seatLabel seat @ '' ('' @ failure_text err @ '')'']) s')"

fun join_text :: "string \<Rightarrow> string list \<Rightarrow> string" where
  "join_text sep [] = ''''"
| "join_text sep [x] = x"
| "join_text sep (x # xs) = x @ sep @ join_text sep xs"

datatype navigation =
    NoNavigation
  | ToLogin string
  | ToReview int
  | ToCheckout string "string option"

definition checkout_query :: "int list \<Rightarrow> string" where
  "checkout_query bookingIds = join_text '','' (map show_int bookingIds)"

text \<open>
  The end of \<open>handleReserve\<close>: \<open>selected\<close> is the selection the handler started with; \<open>p\<close> is the
  page when the last call has settled. The flag says whether the seats are fetched again. The
  dash of the warning, which is no character below 256, is written as two hyphens.
\<close>

definition partial_warning :: "nat \<Rightarrow> nat \<Rightarrow> string list \<Rightarrow> string" where
  "partial_warning got wanted failed =
     ''Reserved '' @ show_nat got @ '' of '' @ show_nat wanted @ '' -- couldn'' @ [CHR 0x27] @ ''t get: '' @
     join_text '', '' failed"

definition finish_reserve ::
  "seat_row list \<Rightarrow> int list \<Rightarrow> string list \<Rightarrow> picker \<Rightarrow> picker \<times> navigation \<times> bool" where
  "finish_reserve selected bookingIds failed p =
     (let p1 = p\<lparr>pk_reserving := False\<rparr>
      in if length bookingIds = 0
         then (p1\<lparr>pk_error := Some (''Couldn'' @ [CHR 0x27] @ ''t reserve any of the selected seats: '' @ join_text '', '' failed),
                  pk_selected := []\<rparr>, NoNavigation, True)
         else if length failed > 0
         then (p1, ToCheckout (checkout_query bookingIds)
                 (Some (partial_warning (length bookingIds) (length selected) failed)), False)
         else if length bookingIds = 1 then (p1, ToReview (hd bookingIds), False)
         else (p1, ToCheckout (checkout_query bookingIds) None, False))"

text \<open>
  \<open>meanwhile\<close> is what other callbacks (live updates, clicks) do to the page while the calls are
  under way.
\<close>

definition handleReserve ::
  "bool \<Rightarrow> string \<Rightarrow> (int \<Rightarrow> 's \<Rightarrow> (call_failure + int) \<times> 's) \<Rightarrow> (picker \<Rightarrow> picker) \<Rightarrow> picker \<Rightarrow> 's \<Rightarrow>
   (picker \<times> navigation \<times> bool) \<times> 's" where
  "handleReserve logged_in eventId reserve meanwhile p s =
     (if length (pk_selected p) = 0 then ((p, NoNavigation, False), s)
      else if \<not> logged_in then ((p, ToLogin (''/events/'' @ eventId @ ''/seats''), False), s)
      else (case reserve_selected reserve (pk_selected p) ([], []) s of
              ((bookingIds, failed), s') \<Rightarrow>
                (finish_reserve (pk_selected p) bookingIds failed
                   (meanwhile (p\<lparr>pk_reserving := True, pk_error := None\<rparr>)), s')))"

subsection \<open>Sections and rows\<close>

text \<open>
  A JavaScript \<open>Map\<close> that is built by insertion: an association list in insertion order.
  \<open>map_upsert\<close> changes the entry of a key, inserting a default at the end first when there is none.
\<close>

definition map_upsert :: "'k \<Rightarrow> 'v \<Rightarrow> ('v \<Rightarrow> 'v) \<Rightarrow> ('k \<times> 'v) list \<Rightarrow> ('k \<times> 'v) list" where
  "map_upsert k d f m =
     map (\<lambda>(k', v). if k' = k then (k', f v) else (k', v))
       (if k \<in> fst ` set m then m else m @ [(k, d)])"

definition push_seat ::
  "seat_row \<Rightarrow> (string \<times> (string \<times> seat_row list) list) list \<Rightarrow> (string \<times> (string \<times> seat_row list) list) list" where
  "push_seat seat bySection =
     map_upsert (seat_section seat) []
       (map_upsert (seat_rowLabel seat) [] (\<lambda>row. row @ [seat])) bySection"

text \<open>\<open>locale\<close> is the sort key of \<open>localeCompare\<close>; a row is drawn in the order of seat numbers.\<close>

definition sections ::
  "(string \<Rightarrow> 'c::linorder) \<Rightarrow> seat_row list option \<Rightarrow> (string \<times> (string \<times> seat_row list) list) list" where
  "sections collate loaded =
     (case loaded of
        None \<Rightarrow> []
      | Some rows \<Rightarrow>
          map (\<lambda>(section, byRow). (section, sort_key (\<lambda>(label, row). collate label) byRow))
            (fold push_seat rows []))"

definition drawn_row :: "seat_row list \<Rightarrow> seat_row list" where
  "drawn_row row = sort_key seat_seatNumber row"

text \<open>The button of a seat; \<open>sb_mark\<close> is the cross of a booked seat.\<close>

definition seatClasses :: "seat_status \<Rightarrow> bool \<Rightarrow> string" where
  "seatClasses status isSelected =
     (if isSelected then ''bg-accent border-accent''
      else (case status of
              Available \<Rightarrow> ''bg-paper border-accent2 hover:bg-accent2-bg hover:border-accent2 hover:scale-110 cursor-pointer''
            | Held \<Rightarrow> ''bg-surface-2 border-line-strong text-text-dim cursor-not-allowed''
            | Booked \<Rightarrow> ''bg-surface-2 border-line text-text-dim opacity-70 cursor-not-allowed''))"

record seat_button =
  sb_disabled :: bool
  sb_pressed :: bool
  sb_classes :: string
  sb_mark :: bool

definition draw_seat :: "picker \<Rightarrow> seat_row \<Rightarrow> seat_button" where
  "draw_seat p seat =
     (let isSelected = list_ex (\<lambda>s. seat_id s = seat_id seat) (pk_selected p);
          isAvailable = (seat_status seat = Available)
      in \<lparr>sb_disabled = (\<not> isAvailable), sb_pressed = isSelected,
          sb_classes = seatClasses (seat_status seat) isSelected,
          sb_mark = (seat_status seat = Booked \<and> \<not> isSelected)\<rparr>)"

subsection \<open>The selection\<close>

text \<open>
  What can happen to the page: the seats arrive or fail to, a live update, a click on a seat of
  the map or of the selection, and the end of a reservation.
\<close>

inductive picker_step :: "picker \<Rightarrow> picker \<Rightarrow> bool" where
  loaded: "picker_step p (seats_loaded rows p)"
| not_loaded: "picker_step p (load_failed p)"
| live: "picker_step p (handleLiveUpdate seatId status p)"
| click: "pk_seats p = Some rows \<Longrightarrow> seat \<in> set rows \<union> set (pk_selected p) \<Longrightarrow>
     picker_step p (toggleSeat seat p)"
| reserving: "picker_step p (p\<lparr>pk_reserving := True, pk_error := None\<rparr>)"
| reserved: "finish_reserve selected bookingIds failed p = (p', nav, reload) \<Longrightarrow> picker_step p p'"

definition picker_inv :: "picker \<Rightarrow> bool" where
  "picker_inv p \<longleftrightarrow> distinct (map seat_id (pk_selected p)) \<and> length (pk_selected p) \<le> MAX_SELECTION \<and>
     (\<forall>s\<in>set (pk_selected p). seat_status s = Available)"

lemma handleLiveUpdate_seats:
  "pk_seats (handleLiveUpdate i st p) = map_option (map (\<lambda>s. if seat_id s = i then s\<lparr>seat_status := st\<rparr> else s)) (pk_seats p)"
  by (simp add: handleLiveUpdate_def Let_def)

lemma handleLiveUpdate_selected:
  "pk_selected (handleLiveUpdate i st p) =
     (if st = Available then pk_selected p else filter (\<lambda>s. seat_id s \<noteq> i) (pk_selected p))"
  by (simp add: handleLiveUpdate_def Let_def)

lemma live_row_status:
  assumes "x \<in> set (map (\<lambda>s. if seat_id s = i then s\<lparr>seat_status := st\<rparr> else s) rows)" and "seat_id x = i"
  shows "seat_status x = st"
proof -
  from assms(1) obtain t where t: "x = (if seat_id t = i then t\<lparr>seat_status := st\<rparr> else t)"
    by (force simp: set_map)
  show ?thesis
    using assms(2) by (cases "seat_id t = i") (simp_all add: t)
qed

lemma toggleSeat_idle: "seat_status s \<noteq> Available \<Longrightarrow> toggleSeat s p = p"
  by (simp add: toggleSeat_def)

lemma picker_inv_filter:
  "picker_inv p \<Longrightarrow> picker_inv (q\<lparr>pk_selected := filter P (pk_selected p)\<rparr>)" for P
  by (auto simp: picker_inv_def distinct_map inj_on_def intro: le_trans [OF length_filter_le])

lemma picker_inv_cong: "pk_selected q = pk_selected p \<Longrightarrow> picker_inv p \<Longrightarrow> picker_inv q"
  by (simp add: picker_inv_def)

lemma picker_inv_toggle: "picker_inv p \<Longrightarrow> picker_inv (toggleSeat seat p)"
  using picker_inv_filter [of p "\<lambda>s. seat_id s \<noteq> seat_id seat"]
  by (auto simp: toggleSeat_def Let_def list_ex_iff picker_inv_def)

lemma picker_inv_live: "picker_inv p \<Longrightarrow> picker_inv (handleLiveUpdate i st p)"
  by (auto simp: handleLiveUpdate_def Let_def intro: picker_inv_filter picker_inv_cong [of _ p])

lemma picker_inv_finish:
  "finish_reserve sel ids failed p = (p', nav, reload) \<Longrightarrow> picker_inv p \<Longrightarrow> picker_inv p'"
  by (auto simp: finish_reserve_def Let_def picker_inv_def split: if_splits)

lemma picker_inv_step: "picker_step p q \<Longrightarrow> picker_inv p \<Longrightarrow> picker_inv q"
  by (induction rule: picker_step.induct)
    (auto intro: picker_inv_toggle picker_inv_live picker_inv_finish
      simp: seats_loaded_def load_failed_def intro: picker_inv_cong)

interpretation seat_picker: invariant_system "\<lambda>p. p = empty_picker" picker_step picker_inv
  by unfold_locales (auto intro: picker_inv_step, simp add: picker_inv_def empty_picker_def)

subsection \<open>The loop over the selection\<close>

text \<open>The calls of the loop, in order: what each answered, and the server state after the last.\<close>

fun call_results ::
  "(int \<Rightarrow> 's \<Rightarrow> (call_failure + int) \<times> 's) \<Rightarrow> seat_row list \<Rightarrow> 's \<Rightarrow> (call_failure + int) list \<times> 's" where
  "call_results reserve [] s = ([], s)"
| "call_results reserve (seat # rest) s =
     (case reserve (seat_id seat) s of (r, s1) \<Rightarrow>
        (case call_results reserve rest s1 of (rs, s2) \<Rightarrow> (r # rs, s2)))"

definition booked_ids :: "(call_failure + int) list \<Rightarrow> int list" where
  "booked_ids rs = concat (map (\<lambda>r. case r of Inr i \<Rightarrow> [i] | Inl e \<Rightarrow> []) rs)"

definition failed_labels :: "seat_row list \<Rightarrow> (call_failure + int) list \<Rightarrow> string list" where
  "failed_labels selected rs =
     concat (map (\<lambda>(seat, r). case r of
         Inr i \<Rightarrow> []
       | Inl e \<Rightarrow> [seatLabel seat @ '' ('' @ failure_text e @ '')'']) (zip selected rs))"

lemma call_results_length: "length (fst (call_results reserve selected s)) = length selected"
  by (induction selected arbitrary: s) (simp_all split: prod.splits, metis fst_conv)

lemma reserve_selected_eq:
  "reserve_selected reserve selected (ids, failed) s =
     (case call_results reserve selected s of (rs, s') \<Rightarrow>
        ((ids @ booked_ids rs, failed @ failed_labels selected rs), s'))"
  by (induction selected arbitrary: ids failed s)
    (auto simp: booked_ids_def failed_labels_def split: prod.splits sum.splits)

lemma booked_plus_failed:
  "length selected = length rs \<Longrightarrow>
     length (booked_ids rs) + length (failed_labels selected rs) = length selected"
  by (induction selected rs rule: list_induct2) (auto simp: booked_ids_def failed_labels_def split: sum.splits)

subsection \<open>Grouping\<close>

lemma map_upsert_keys:
  "fst ` set (map_upsert k d f m) = insert k (fst ` set m)"
  "distinct (map fst m) \<Longrightarrow> distinct (map fst (map_upsert k d f m))"
proof -
  have "map fst (map_upsert k d f m) = (if k \<in> fst ` set m then map fst m else map fst m @ [k])"
    by (auto simp: map_upsert_def comp_def case_prod_unfold intro: map_cong)
  then show "fst ` set (map_upsert k d f m) = insert k (fst ` set m)"
    "distinct (map fst m) \<Longrightarrow> distinct (map fst (map_upsert k d f m))"
    by (auto simp flip: set_map split: if_splits)
qed

lemma map_upsert_entry:
  "(k', v) \<in> set (map_upsert k d f m) \<Longrightarrow>
     (k' = k \<and> (\<exists>u. ((k, u) \<in> set m \<or> u = d) \<and> v = f u)) \<or> (k' \<noteq> k \<and> (k', v) \<in> set m)"
  by (auto simp: map_upsert_def split: if_splits)

text \<open>
  Counting what the entries hold: when \<open>f\<close> adds \<open>x\<close> to the contents of a value, one insertion
  under a key adds \<open>x\<close> to the contents of the map.
\<close>

lemma map_upsert_contents:
  assumes "distinct (map fst m)" and "\<And>v. v \<in> insert d (snd ` set m) \<Longrightarrow> c (f v) = add_mset x (c v)"
    and "c d = {#}"
  shows "sum_list (map (c \<circ> snd) (map_upsert k d f m)) = add_mset x (sum_list (map (c \<circ> snd) m))"
proof -
  let ?g = "\<lambda>(k', v). if k' = k then (k', f v) else (k', v)"
  have absent: "map ?g m = m" if "k \<notin> fst ` set m" for m
    using that by (induction m) (auto simp: image_iff)
  have present: "sum_list (map (c \<circ> snd) (map ?g m)) = add_mset x (sum_list (map (c \<circ> snd) m))"
    if "k \<in> fst ` set m" "distinct (map fst m)" "\<And>v. v \<in> snd ` set m \<Longrightarrow> c (f v) = add_mset x (c v)" for m
    using that
  proof (induction m)
    case (Cons e m)
    then show ?case
      using absent [of m] by (cases e; cases "fst e = k") (auto simp: image_iff simp del: map_map)
  qed simp
  show ?thesis
  proof (cases "k \<in> fst ` set m")
    case True
    with present [of m] assms show ?thesis by (simp add: map_upsert_def del: map_map)
  next
    case False
    with absent [OF False] assms(2) [of d] assms(3) show ?thesis
      by (simp add: map_upsert_def del: map_map)
  qed
qed

definition row_contents :: "(string \<times> seat_row list) list \<Rightarrow> seat_row multiset" where
  "row_contents byRow = sum_list (map (mset \<circ> snd) byRow)"

definition row_ok :: "string \<Rightarrow> (string \<times> seat_row list) list \<Rightarrow> bool" where
  "row_ok sec byRow \<longleftrightarrow> distinct (map fst byRow) \<and>
     (\<forall>label row s. (label, row) \<in> set byRow \<longrightarrow> s \<in> set row \<longrightarrow> seat_section s = sec \<and> seat_rowLabel s = label)"

definition grouped :: "(string \<times> (string \<times> seat_row list) list) list \<Rightarrow> bool" where
  "grouped bySection \<longleftrightarrow> distinct (map fst bySection) \<and>
     (\<forall>sec byRow. (sec, byRow) \<in> set bySection \<longrightarrow> row_ok sec byRow)"

lemma row_ok_push:
  assumes "row_ok (seat_section seat) byRow"
  shows "row_ok (seat_section seat) (map_upsert (seat_rowLabel seat) [] (\<lambda>row. row @ [seat]) byRow)"
  using assms by (fastforce simp: row_ok_def map_upsert_keys dest: map_upsert_entry)

lemma grouped_push: "grouped m \<Longrightarrow> grouped (push_seat seat m)"
proof -
  assume g: "grouped m"
  have "row_ok (seat_section seat) []" by (simp add: row_ok_def)
  with g have "row_ok sec byRow" if "(sec, byRow) \<in> set (push_seat seat m)" for sec byRow
    using map_upsert_entry [OF that [unfolded push_seat_def]]
    by (auto simp: grouped_def intro!: row_ok_push)
  with g show ?thesis by (simp add: grouped_def push_seat_def map_upsert_keys)
qed

lemma contents_push:
  assumes "grouped m"
  shows "sum_list (map (row_contents \<circ> snd) (push_seat seat m)) =
    add_mset seat (sum_list (map (row_contents \<circ> snd) m))"
proof -
  have row: "row_contents (map_upsert (seat_rowLabel seat) [] (\<lambda>row. row @ [seat]) byRow) =
      add_mset seat (row_contents byRow)" if "distinct (map fst byRow)" for byRow
    unfolding row_contents_def using that by (intro map_upsert_contents) simp_all
  show ?thesis
    unfolding push_seat_def using assms
    by (intro map_upsert_contents row) (auto simp: grouped_def row_ok_def row_contents_def)
qed

lemma sections_fold:
  "grouped (fold push_seat rows m) \<and>
     sum_list (map (row_contents \<circ> snd) (fold push_seat rows m)) =
       mset rows + sum_list (map (row_contents \<circ> snd) m)" if "grouped m"
  using that by (induction rows arbitrary: m) (simp_all add: grouped_push contents_push)

subsection \<open>Properties\<close>

text \<open>
  C17. What can be selected: whatever clicks, live updates and replies come, the selection never
  holds a seat twice, never more than eight, and only seats that were available when they were
  clicked; and a live update that says a seat is taken removes it from the selection at once.
\<close>

theorem selection_bounded:
  assumes "reachable_from (\<lambda>p. p = empty_picker) picker_step p"
  shows "distinct (map seat_id (pk_selected p)) \<and> length (pk_selected p) \<le> 8 \<and>
    (\<forall>s\<in>set (pk_selected p). seat_status s = Available) \<and>
    (\<forall>i st. st \<noteq> Available \<longrightarrow> i \<notin> seat_id ` set (pk_selected (handleLiveUpdate i st p)))"
  using seat_picker.reachable_inv [OF assms]
  by (auto simp: picker_inv_def MAX_SELECTION_def handleLiveUpdate_def Let_def)

definition demo_pick :: "int \<Rightarrow> seat_row" where
  "demo_pick i = \<lparr>seat_id = i, seat_eventId = 1, seat_section = ''A'', seat_rowLabel = ''R1'',
     seat_seatNumber = i, seat_status = Available, seat_version = 0, seat_createdAt = 0\<rparr>"

theorem selection_bounded_witness:
  "7 \<notin> seat_id ` set (pk_selected (handleLiveUpdate 7 Held
     (toggleSeat (demo_pick 7) (seats_loaded [demo_pick 7] empty_picker))))"
proof -
  have "reachable_from (\<lambda>p. p = empty_picker) picker_step empty_picker" by (rule reach_init) simp
  then have "reachable_from (\<lambda>p. p = empty_picker) picker_step (seats_loaded [demo_pick 7] empty_picker)"
    by (rule reach_step) (rule picker_step.loaded)
  then have "reachable_from (\<lambda>p. p = empty_picker) picker_step
      (toggleSeat (demo_pick 7) (seats_loaded [demo_pick 7] empty_picker))"
    by (rule reach_step) (rule picker_step.click [of _ "[demo_pick 7]"], simp_all add: seats_loaded_def)
  from selection_bounded [OF this] show ?thesis by blast
qed

text \<open>
  C18. Reserving the selection: each selected seat is asked for exactly once, in order, whatever
  happened to the others; every seat ends up either among the booked ids or in the message.
  With none booked the page stays with an error, an empty selection and a reload; with some
  failed the checkout opens with a warning; one booking alone opens its review, several the
  checkout of their ids.
\<close>

theorem handleReserve_outcome:
  assumes "pk_selected p \<noteq> []" and "call_results reserve (pk_selected p) s = (rs, s')"
  shows "\<exists>p' nav reload. handleReserve True ev reserve meanwhile p s = ((p', nav, reload), s') \<and>
    length (booked_ids rs) + length (failed_labels (pk_selected p) rs) = length (pk_selected p) \<and>
    \<not> pk_reserving p' \<and> (reload \<longleftrightarrow> booked_ids rs = []) \<and>
    (booked_ids rs = [] \<longrightarrow> pk_selected p' = [] \<and> pk_error p' \<noteq> None \<and> nav = NoNavigation) \<and>
    (booked_ids rs \<noteq> [] \<longrightarrow> nav =
       (if failed_labels (pk_selected p) rs \<noteq> []
        then ToCheckout (checkout_query (booked_ids rs))
          (Some (partial_warning (length (booked_ids rs)) (length (pk_selected p)) (failed_labels (pk_selected p) rs)))
        else if length (booked_ids rs) = 1 then ToReview (hd (booked_ids rs))
        else ToCheckout (checkout_query (booked_ids rs)) None))"
proof -
  have len: "length (pk_selected p) = length rs"
    using call_results_length [of reserve "pk_selected p" s] assms(2) by simp
  with assms(1) have "rs \<noteq> []" by auto
  with len assms booked_plus_failed [of "pk_selected p" rs] show ?thesis
    by (simp add: handleReserve_def reserve_selected_eq finish_reserve_def Let_def)
qed

theorem handleReserve_outcome_witness:
  "snd (handleReserve True ''1'' (\<lambda>i n. (if i = 2 then Inl OtherFailure else Inr (10 + i), Suc n)) id
     \<lparr>pk_seats = None, pk_error = None, pk_selected = [demo_pick 1, demo_pick 2], pk_reserving = False\<rparr> 0) = 2"
proof -
  let ?p = "\<lparr>pk_seats = None, pk_error = None, pk_selected = [demo_pick 1, demo_pick 2], pk_reserving = False\<rparr>"
  let ?f = "\<lambda>i n. (if i = 2 then Inl OtherFailure else Inr (10 + i), Suc n)"
  have "call_results ?f (pk_selected ?p) 0 = ([Inr 11, Inl OtherFailure], 2)"
    by (simp add: demo_pick_def)
  from handleReserve_outcome [OF _ this, of "''1''" id] show ?thesis by auto
qed

text \<open>
  The seat map shows every seat once: grouping the loaded seats into sections and rows loses
  none, repeats none, puts each under its own section and row, and has one entry per section and
  per row of a section; drawing a row by seat number keeps its seats.
\<close>

theorem sections_partition:
  "let m = sections collate (Some rows)
   in sum_list (map (\<lambda>(_, byRow). sum_list (map (\<lambda>(_, row). mset (drawn_row row)) byRow)) m) = mset rows \<and>
      distinct (map fst m) \<and>
      (\<forall>(sec, byRow)\<in>set m. row_ok sec byRow)"
proof -
  let ?g = "fold push_seat rows []"
  have g: "grouped ?g" "sum_list (map (row_contents \<circ> snd) ?g) = mset rows"
    using sections_fold [of "[]" rows] by (simp_all add: grouped_def)
  have contents: "sum_list (map (\<lambda>(_, row). mset (drawn_row row)) (sort_key k byRow)) = row_contents byRow"
    for k :: "string \<times> seat_row list \<Rightarrow> 'a" and byRow
  proof -
    have "sum_list (map h (sort_key k byRow)) = sum_list (map h byRow)" for h :: "string \<times> seat_row list \<Rightarrow> seat_row multiset"
      by (metis mset_map mset_sort sum_mset_sum_list)
    then show ?thesis by (simp add: row_contents_def drawn_row_def case_prod_unfold comp_def)
  qed
  have sorted: "distinct (map fst (sort_key k byRow)) = distinct (map fst byRow)"
    for k :: "string \<times> seat_row list \<Rightarrow> 'a" and byRow
    by (rule mset_eq_imp_distinct_iff) simp
  have d: "map fst (sections collate (Some rows)) = map fst ?g"
    by (simp add: sections_def case_prod_unfold comp_def)
  have c: "sum_list (map (\<lambda>(_, byRow). sum_list (map (\<lambda>(_, row). mset (drawn_row row)) byRow))
      (sections collate (Some rows))) = mset rows"
    using g(2) contents by (simp add: sections_def case_prod_unfold comp_def)
  have r: "row_ok sec byRow" if in_m: "(sec, byRow) \<in> set (sections collate (Some rows))" for sec byRow
  proof -
    from in_m obtain byRow0 where b: "(sec, byRow0) \<in> set ?g"
      "byRow = sort_key (\<lambda>(label, row). collate label) byRow0"
      by (auto simp: sections_def)
    from g(1) b show ?thesis by (simp add: grouped_def row_ok_def sorted)
  qed
  show ?thesis
    unfolding Let_def
  proof (intro conjI ballI)
    show "distinct (map fst (sections collate (Some rows)))"
      using g(1) unfolding d grouped_def by blast
    show "case e of (sec, byRow) \<Rightarrow> row_ok sec byRow" if "e \<in> set (sections collate (Some rows))" for e
      using that r by (auto split: prod.splits)
  qed (rule c)
qed

theorem sections_partition_witness:
  "distinct (map fst (sections length (Some [demo_pick 2, demo_pick 1])))"
  using sections_partition [of length "[demo_pick 2, demo_pick 1]"] unfolding Let_def by blast

end
