(* ===== verification/Checkout_Pages.thy ===== *)
theory Checkout_Pages
  imports Client Seat_Picker Catalog Validation "HOL-Library.Char_ord" "HOL-Library.List_Lexorder"
begin

text \<open>
  The other pages of the frontend (\<open>frontend/src/pages/*.tsx\<close>): the checkout of one and of
  several bookings, the booking's page, the ticket, the login form, the catalogue and the event.
  The server's calls are parameters; the typographic dash and ellipsis of the texts are written
  with ASCII characters.
\<close>

subsection \<open>Calls made at once\<close>

text \<open>
  \<open>Promise.allSettled(xs.map(call))\<close>: every call is started; the server handles them in some
  order, which \<open>order\<close> lists as indices; the results stand in the order of the arguments.
\<close>

fun run_calls :: "('a \<Rightarrow> 's \<Rightarrow> 'r \<times> 's) \<Rightarrow> 'a list \<Rightarrow> 's \<Rightarrow> ('a \<times> 'r) list \<times> 's" where
  "run_calls call [] s = ([], s)"
| "run_calls call (x # xs) s =
     (case call x s of (r, s1) \<Rightarrow> (case run_calls call xs s1 of (rs, s2) \<Rightarrow> ((x, r) # rs, s2)))"

definition settle_all :: "('a \<Rightarrow> 's \<Rightarrow> 'r \<times> 's) \<Rightarrow> nat list \<Rightarrow> 'a list \<Rightarrow> 's \<Rightarrow> 'r list \<times> 's" where
  "settle_all call order args s =
     (case run_calls (\<lambda>i. call (args ! i)) order s of
        (rs, s') \<Rightarrow> (map (\<lambda>i. the (map_of rs i)) [0..<length args], s'))"

type_synonym 's booking_call = "int \<Rightarrow> 's \<Rightarrow> (call_failure + booking_row) \<times> 's"

datatype page_move =
    Stay
  | ToTicket "int option"
  | ToEvents
  | ToBooking int
  | ToNotFound
  | ToPath string

definition rejected :: "call_failure + 'a \<Rightarrow> bool" where
  "rejected r = (case r of Inl e \<Rightarrow> True | Inr v \<Rightarrow> False)"

definition shown_failure :: "string \<Rightarrow> call_failure \<Rightarrow> string" where
  "shown_failure fallback err = (case err of ApiFailure status message \<Rightarrow> message | OtherFailure \<Rightarrow> fallback)"

subsection \<open>Several bookings in one checkout\<close>

text \<open>
  \<open>ids\<close> of the query: the pieces between the commas that are positive whole numbers.
  \<open>text_number\<close> is \<open>Number\<close>.
\<close>

definition checkout_ids :: "js_lib \<Rightarrow> string option \<Rightarrow> int list" where
  "checkout_ids lib param =
     map floor (filter (\<lambda>q. of_int \<lfloor>q\<rfloor> = q \<and> 0 < q)
       (List.map_filter (text_number lib) (split_on CHR '','' (case param of None \<Rightarrow> '''' | Some s \<Rightarrow> s))))"

record multi_page =
  mc_bookings :: "booking_row list option"
  mc_error :: "string option"
  mc_busy :: bool

definition multi_load :: "(call_failure + booking_row) list \<Rightarrow> multi_page \<Rightarrow> multi_page" where
  "multi_load results p =
     (if list_ex rejected results
      then p\<lparr>mc_error := Some (''Couldn'' @ [CHR 0x27] @ ''t load one or more of these bookings.'')\<rparr>
      else p\<lparr>mc_bookings := Some (map projr results)\<rparr>)"

definition pending_of :: "multi_page \<Rightarrow> booking_row list" where
  "pending_of p = (case mc_bookings p of None \<Rightarrow> [] | Some bs \<Rightarrow> filter (\<lambda>b. bk_status b = Pending) bs)"

definition confirm_all_error :: "nat \<Rightarrow> nat \<Rightarrow> string" where
  "confirm_all_error failures wanted =
     show_nat failures @ '' of '' @ show_nat wanted @ '' couldn'' @ [CHR 0x27] @
     ''t be confirmed -- they may have expired.''"

text \<open>The page after the handler; the bookings are fetched again whatever the outcome.\<close>

definition handleConfirmAll ::
  "'s booking_call \<Rightarrow> nat list \<Rightarrow> multi_page \<Rightarrow> 's \<Rightarrow> (multi_page \<times> page_move) \<times> 's" where
  "handleConfirmAll confirm order p s =
     (let pending = pending_of p in
      case settle_all confirm order (map bk_id pending) s of
        (results, s') \<Rightarrow>
          (let failures = length (filter rejected results);
               p' = p\<lparr>mc_error := (if failures > 0 then Some (confirm_all_error failures (length pending)) else None),
                     mc_busy := False\<rparr>
           in ((p', if failures = 0
                    then ToTicket (case pending of [] \<Rightarrow> None | b # bs \<Rightarrow> Some (bk_id b))
                    else Stay), s')))"

definition handleReleaseAll ::
  "'s booking_call \<Rightarrow> nat list \<Rightarrow> multi_page \<Rightarrow> 's \<Rightarrow> (multi_page \<times> page_move) \<times> 's" where
  "handleReleaseAll cancel order p s =
     (case settle_all cancel order (map bk_id (pending_of p)) s of
        (results, s') \<Rightarrow> ((p\<lparr>mc_error := None, mc_busy := False\<rparr>, ToEvents), s'))"

subsection \<open>One booking\<close>

text \<open>The state of the review page and of the booking's page.\<close>

record booking_page =
  bp_booking :: "booking_row option"
  bp_error :: "string option"
  bp_busy :: bool

definition load_failure_text :: string where
  "load_failure_text = ''Couldn'' @ [CHR 0x27] @ ''t load this booking.''"

definition review_load :: "call_failure + booking_row \<Rightarrow> booking_page \<Rightarrow> booking_page" where
  "review_load r p =
     (case r of Inr b \<Rightarrow> p\<lparr>bp_booking := Some b\<rparr> | Inl e \<Rightarrow> p\<lparr>bp_error := Some load_failure_text\<rparr>)"

definition review_confirm ::
  "'s booking_call \<Rightarrow> booking_page \<Rightarrow> 's \<Rightarrow> (booking_page \<times> page_move) \<times> 's" where
  "review_confirm confirm p s =
     (case bp_booking p of
        None \<Rightarrow> ((p, Stay), s)
      | Some booking \<Rightarrow>
          (let p1 = p\<lparr>bp_busy := True, bp_error := None\<rparr> in
           case confirm (bk_id booking) s of
             (Inr _, s') \<Rightarrow> ((p1\<lparr>bp_busy := False\<rparr>, ToTicket (Some (bk_id booking))), s')
           | (Inl err, s') \<Rightarrow>
               ((p1\<lparr>bp_error := Some (shown_failure (''Couldn'' @ [CHR 0x27] @ ''t confirm this booking.'') err),
                    bp_busy := False\<rparr>, Stay), s')))"

definition review_release ::
  "'s booking_call \<Rightarrow> booking_page \<Rightarrow> 's \<Rightarrow> (booking_page \<times> page_move) \<times> 's" where
  "review_release cancel p s =
     (case bp_booking p of
        None \<Rightarrow> ((p, Stay), s)
      | Some booking \<Rightarrow>
          (let p1 = p\<lparr>bp_busy := True, bp_error := None\<rparr> in
           case cancel (bk_id booking) s of
             (Inr _, s') \<Rightarrow> ((p1\<lparr>bp_busy := False\<rparr>, ToEvents), s')
           | (Inl err, s') \<Rightarrow>
               ((p1\<lparr>bp_error := Some (shown_failure (''Couldn'' @ [CHR 0x27] @ ''t release this seat.'') err),
                    bp_busy := False\<rparr>, Stay), s')))"

text \<open>The booking's page; a booking that does not exist replaces it by the page for 404.\<close>

definition detail_load :: "call_failure + booking_row \<Rightarrow> booking_page \<Rightarrow> booking_page \<times> page_move" where
  "detail_load r p =
     (case r of
        Inr b \<Rightarrow> (p\<lparr>bp_booking := Some b\<rparr>, Stay)
      | Inl (ApiFailure status message) \<Rightarrow>
          if status = 404 then (p, ToNotFound) else (p\<lparr>bp_error := Some load_failure_text\<rparr>, Stay)
      | Inl OtherFailure \<Rightarrow> (p\<lparr>bp_error := Some load_failure_text\<rparr>, Stay))"

text \<open>Its handlers, unlike those of the review page, leave an earlier error standing.\<close>

definition detail_confirm ::
  "'s booking_call \<Rightarrow> booking_page \<Rightarrow> 's \<Rightarrow> (booking_page \<times> page_move) \<times> 's" where
  "detail_confirm confirm p s =
     (case bp_booking p of
        None \<Rightarrow> ((p, Stay), s)
      | Some booking \<Rightarrow>
          (case confirm (bk_id booking) s of
             (Inr _, s') \<Rightarrow> ((p\<lparr>bp_busy := False\<rparr>, ToTicket (Some (bk_id booking))), s')
           | (Inl err, s') \<Rightarrow>
               ((p\<lparr>bp_error := Some (shown_failure (''Couldn'' @ [CHR 0x27] @ ''t confirm this booking.'') err),
                   bp_busy := False\<rparr>, Stay), s')))"

definition detail_cancel ::
  "'s booking_call \<Rightarrow> booking_page \<Rightarrow> 's \<Rightarrow> booking_page \<times> 's" where
  "detail_cancel cancel p s =
     (case bp_booking p of
        None \<Rightarrow> (p, s)
      | Some booking \<Rightarrow>
          (case cancel (bk_id booking) s of
             (Inr updated, s') \<Rightarrow> (p\<lparr>bp_booking := Some updated, bp_busy := False\<rparr>, s')
           | (Inl err, s') \<Rightarrow>
               (p\<lparr>bp_error := Some (shown_failure (''Couldn'' @ [CHR 0x27] @ ''t cancel this booking.'') err),
                  bp_busy := False\<rparr>, s')))"

text \<open>The buttons: whether Confirm and Cancel are drawn.\<close>

definition detail_buttons :: "booking_row \<Rightarrow> bool \<times> bool" where
  "detail_buttons b =
     (let actionable = (bk_status b = Pending \<or> bk_status b = Confirmed)
      in (actionable \<and> bk_status b = Pending, actionable))"

text \<open>The ticket page holds a booking or nothing; a rejected call is not caught.\<close>

definition ticket_load ::
  "call_failure + booking_row \<Rightarrow> booking_row option \<Rightarrow> booking_row option \<times> page_move" where
  "ticket_load r shown =
     (case r of
        Inl e \<Rightarrow> (shown, Stay)
      | Inr b \<Rightarrow> if bk_status b \<noteq> Confirmed then (shown, ToBooking (bk_id b)) else (Some b, Stay))"


text \<open>The list of one's bookings: the rows, and the error.\<close>

definition bookings_list_load ::
  "call_failure + booking_row list \<Rightarrow> booking_row list option \<times> string option \<Rightarrow> booking_row list option \<times> string option" where
  "bookings_list_load r page =
     (case r of
        Inr bs \<Rightarrow> (Some bs, snd page)
      | Inl err \<Rightarrow> (fst page, Some (shown_failure (''Couldn'' @ [CHR 0x27] @ ''t load your bookings.'') err)))"

text \<open>The countdown beside a booking; the dash is written as a hyphen.\<close>

definition countdown_text :: "countdown option \<Rightarrow> string" where
  "countdown_text c =
     (case c of None \<Rightarrow> ''-'' | Some c \<Rightarrow> if cd_expired c then ''expired'' else cd_label c @ '' remaining'')"

subsection \<open>The login form\<close>

record location =
  loc_pathname :: string
  loc_search :: string

datatype login_mode = LoginMode | RegisterMode

record login_page =
  lp_mode :: login_mode
  lp_email :: string
  lp_password :: string
  lp_error :: "string option"
  lp_submitting :: bool

text \<open>
  \<open>ProtectedRoute\<close> passes the whole location as \<open>state.from\<close>, the seat picker only a path; the
  form goes back to the path of either.
\<close>

definition login_from :: "location option \<Rightarrow> string" where
  "login_from from = (case from of None \<Rightarrow> ''/events'' | Some l \<Rightarrow> loc_pathname l)"

definition handleSubmit ::
  "codec \<Rightarrow> (login_mode \<Rightarrow> string \<Rightarrow> string \<Rightarrow> 's \<Rightarrow> (call_failure + session_user \<times> string) \<times> 's) \<Rightarrow>
   location option \<Rightarrow> login_page \<Rightarrow> session \<Rightarrow> 's \<Rightarrow> (login_page \<times> session \<times> page_move) \<times> 's" where
  "handleSubmit c submit from p se s =
     (let p1 = p\<lparr>lp_error := None, lp_submitting := True\<rparr> in
      case submit (lp_mode p) (lp_email p) (lp_password p) s of
        (Inr (user, token), s') \<Rightarrow>
          ((p1\<lparr>lp_submitting := False\<rparr>, persist c user token se, ToPath (login_from from)), s')
      | (Inl err, s') \<Rightarrow>
          ((p1\<lparr>lp_error := Some (shown_failure ''Something went wrong. Try again.'' err), lp_submitting := False\<rparr>,
            se, Stay), s'))"

subsection \<open>The catalogue and the event\<close>

text \<open>The cities of the select box, and the events it leaves.\<close>

definition cities :: "event_listing list option \<Rightarrow> string list" where
  "cities loaded = (case loaded of None \<Rightarrow> [] | Some evs \<Rightarrow> sort (remdups (map le_venueCity evs)))"

definition filtered_events :: "string \<Rightarrow> event_listing list option \<Rightarrow> event_listing list" where
  "filtered_events city loaded =
     (case loaded of
        None \<Rightarrow> []
      | Some evs \<Rightarrow> if city = ''all'' then evs else filter (\<lambda>e. le_venueCity e = city) evs)"

definition home_events :: "event_listing list \<Rightarrow> event_listing list" where
  "home_events everything = take 6 everything"

text \<open>
  The event's page: \<open>None\<close> while the events load; \<open>Some None\<close> when none has this id. The number of
  available seats is read with a cap; reaching it is shown as "500+".
\<close>

definition SEAT_COUNT_CAP :: nat where
  "SEAT_COUNT_CAP = 500"

definition find_event :: "int \<Rightarrow> event_listing list \<Rightarrow> event_listing option" where
  "find_event i everything = List.find (\<lambda>e. le_id e = i) everything"

definition available_count :: "call_failure + seat_row list \<Rightarrow> int option" where
  "available_count r =
     (case r of
        Inl e \<Rightarrow> None
      | Inr rows \<Rightarrow> Some (if length rows = SEAT_COUNT_CAP then - 1 else int (length rows)))"

definition available_text :: "int option \<Rightarrow> string option" where
  "available_text available =
     map_option (\<lambda>n. if n = - 1 then ''500+ seats left'' else show_int n @ '' seats left'') available"

subsection \<open>The pill of a status\<close>

definition PILL_STYLES :: "(string \<times> string) list" where
  "PILL_STYLES =
     [(''available'', ''bg-accent2-bg text-accent2''),
      (''confirmed'', ''bg-accent2-bg text-accent2''),
      (''pending'', ''bg-surface-2 text-text-dim''),
      (''held'', ''bg-surface-2 text-text-dim''),
      (''cancelled'', ''bg-danger-bg text-danger''),
      (''expired'', ''bg-danger-bg text-danger''),
      (''booked'', ''bg-surface-2 text-text-dim'')]"

definition pill_style :: "string \<Rightarrow> string" where
  "pill_style status =
     (case map_of PILL_STYLES status of None \<Rightarrow> ''bg-surface-2 text-text-dim'' | Some c \<Rightarrow> c)"


subsection \<open>The ids of a checkout survive the URL\<close>

lemma split_on_join_text:
  "xs \<noteq> [] \<Longrightarrow> \<forall>x\<in>set xs. c \<notin> set x \<Longrightarrow> split_on c (join_text [c] xs) = xs"
  by (induction "[c]" xs rule: join_text.induct) (auto simp: split_on_free split_on_append)

lemma show_int_no_comma: "0 < i \<Longrightarrow> CHR '','' \<notin> set (show_int i)"
  using show_nat_digits [of "nat i"] by (auto simp: show_int_def)

lemma map_filter_all: "(\<And>x. x \<in> set xs \<Longrightarrow> f (g x) = Some (h x)) \<Longrightarrow> List.map_filter f (map g xs) = map h xs"
  by (induction xs) (simp_all add: List.map_filter_simps)

lemma read_checkout_query:
  assumes "\<And>i. i \<in> set ids \<Longrightarrow> text_number lib (show_int i) = Some (of_int i)" and "ids \<noteq> []"
    and "\<And>i. i \<in> set ids \<Longrightarrow> 0 < i"
  shows "checkout_ids lib (Some (checkout_query ids)) = ids"
proof -
  have "split_on CHR '','' (checkout_query ids) = map show_int ids"
    unfolding checkout_query_def using assms(2,3) by (intro split_on_join_text) (auto simp: show_int_no_comma)
  moreover have "List.map_filter (text_number lib) (map show_int ids) = map of_int ids"
    using assms(1) by (rule map_filter_all)
  moreover have "filter (\<lambda>q. of_int \<lfloor>q\<rfloor> = q \<and> 0 < q) (map rat_of_int ids) = map of_int ids"
    using assms(3) by (auto intro: filter_True)
  ultimately show ?thesis by (simp add: checkout_ids_def comp_def)
qed

text \<open>
  The ids of the bookings that a reservation puts into the address of the checkout are the
  ids the checkout page reads from it, in the same order; \<open>Number\<close> is assumed to read the decimal
  digits of a positive 32-bit number.
\<close>

theorem checkout_ids_roundtrip:
  assumes "number_reads_ids lib" and "ids \<noteq> []" and "\<forall>i\<in>set ids. 0 < i \<and> i \<le> int4_max"
  shows "checkout_ids lib (Some (checkout_query ids)) = ids"
  using assms by (intro read_checkout_query) (auto simp: number_reads_ids_def)

theorem checkout_ids_roundtrip_witness:
  "checkout_ids page_lib (Some (checkout_query [12, 7, 130])) = [12, 7, 130]"
  by (rule checkout_ids_roundtrip) (simp_all add: page_lib_reads int4_max_def)

subsection \<open>The catalogue\<close>

lemma filter_other: "d \<noteq> c \<Longrightarrow> filter (\<lambda>x. f x = d) (filter (\<lambda>x. f x \<noteq> c) xs) = filter (\<lambda>x. f x = d) xs"
  by (induction xs) auto

lemma sum_filter_partition:
  "distinct cs \<Longrightarrow> f ` set xs \<subseteq> set cs \<Longrightarrow> sum_list (map (\<lambda>c. mset (filter (\<lambda>x. f x = c) xs)) cs) = mset xs"
proof (induction cs arbitrary: xs)
  case (Cons c cs)
  let ?rest = "filter (\<lambda>x. f x \<noteq> c) xs"
  have "sum_list (map (\<lambda>c. mset (filter (\<lambda>x. f x = c) ?rest)) cs) = mset ?rest"
    using Cons.prems by (intro Cons.IH) auto
  also have "map (\<lambda>d. mset (filter (\<lambda>x. f x = d) ?rest)) cs = map (\<lambda>d. mset (filter (\<lambda>x. f x = d) xs)) cs"
    using Cons.prems(1) by (intro map_cong refl arg_cong [where f = mset] filter_other) auto
  finally have "sum_list (map (\<lambda>d. mset (filter (\<lambda>x. f x = d) xs)) cs) = mset ?rest" .
  moreover have "mset (filter (\<lambda>x. f x = c) xs) + mset ?rest = mset xs"
    by (induction xs) auto
  ultimately show ?case by (simp del: mset_filter)
qed simp

text \<open>
  The city box of the catalogue lists each city of the loaded events once, in order; choosing
  the cities one after the other shows every event exactly once, and no choice comes up empty. A
  city that is called "all" would be the exception: its entry shows every event.
\<close>

theorem catalog_filter_partition:
  assumes "''all'' \<notin> le_venueCity ` set evs"
  shows "let cs = cities (Some evs)
    in sorted cs \<and> distinct cs \<and> set cs = le_venueCity ` set evs \<and>
       sum_list (map (\<lambda>c. mset (filtered_events c (Some evs))) cs) = mset evs \<and>
       (\<forall>c\<in>set cs. filtered_events c (Some evs) \<noteq> []) \<and> filtered_events ''all'' (Some evs) = evs"
proof -
  let ?cs = "cities (Some evs)"
  have cs: "sorted ?cs" "distinct ?cs" "set ?cs = le_venueCity ` set evs"
    by (simp_all add: cities_def)
  have not_all: "c \<noteq> ''all''" if "c \<in> set ?cs" for c
    using that assms unfolding cs(3) by (metis)
  have fil: "map (\<lambda>c. mset (filtered_events c (Some evs))) ?cs = map (\<lambda>c. mset (filter (\<lambda>e. le_venueCity e = c) evs)) ?cs"
    using not_all by (intro map_cong refl) (simp add: filtered_events_def)
  have "sum_list (map (\<lambda>c. mset (filtered_events c (Some evs))) ?cs) = mset evs"
    unfolding fil using cs(2,3) by (intro sum_filter_partition) auto
  moreover have "\<forall>c\<in>set ?cs. filtered_events c (Some evs) \<noteq> []"
    using not_all cs(3) by (auto simp: filtered_events_def filter_empty_conv)
  moreover have "filtered_events ''all'' (Some evs) = evs"
    by (simp add: filtered_events_def)
  ultimately show ?thesis
    unfolding Let_def using cs by blast
qed

definition demo_listing :: "int \<Rightarrow> string \<Rightarrow> event_listing" where
  "demo_listing i city = \<lparr>le_id = i, le_name = ''Show'', le_startsAt = 0, le_status = Scheduled, le_venueId = 1,
     le_venueName = ''Hall'', le_venueCity = city\<rparr>"

theorem catalog_filter_partition_witness:
  "set (cities (Some [demo_listing 1 ''Oslo'', demo_listing 2 ''Bergen''])) = {''Oslo'', ''Bergen''}"
  using catalog_filter_partition [of "[demo_listing 1 ''Oslo'', demo_listing 2 ''Bergen'']"]
  unfolding Let_def by (auto simp: demo_listing_def)


subsection \<open>The seats left of an event\<close>

text \<open>
  The number of seats left that the event's page shows is the number of available seats of
  that event in the database, unless it is 500 or more: then it shows "500+ seats left", for
  exactly 500 too.
\<close>

theorem event_count_exact:
  assumes "listSeatsForEvent coll ev (Some Available) (Some SEAT_COUNT_CAP) d = Inr rows"
  shows "available_text (available_count (Inr rows)) =
    (let n = length (filter (\<lambda>s. seat_eventId s = ev \<and> seat_status s = Available) (seats d))
     in Some (if 500 \<le> n then ''500+ seats left'' else show_nat n @ '' seats left''))"
proof -
  have "rows = seats_query coll ev (Some Available) (Some SEAT_COUNT_CAP) d"
    using assms by (auto simp: listSeatsForEvent_def split: sum.splits option.splits)
  then have "length rows = min 500 (length (filter (\<lambda>s. seat_eventId s = ev \<and> seat_status s = Available) (seats d)))"
    by (simp add: seats_query_def SEAT_COUNT_CAP_def min.commute)
  then show ?thesis
    by (simp add: available_count_def available_text_def SEAT_COUNT_CAP_def Let_def show_int_def min_def)
qed

theorem event_count_exact_witness:
  "available_text (available_count (Inr (projr
     (listSeatsForEvent length 1 (Some Available) (Some SEAT_COUNT_CAP) demo_db)))) \<noteq> Some ''500+ seats left''"
proof -
  obtain rows where r: "listSeatsForEvent length 1 (Some Available) (Some SEAT_COUNT_CAP) demo_db = Inr rows"
    using demo_int4 by (auto simp: listSeatsForEvent_eq demo_db_def demo_event_def)
  show ?thesis
    unfolding r sum.sel event_count_exact [OF r]
    by (auto simp: demo_defs Let_def show_nat.simps digit_def)
qed

subsection \<open>Logging in\<close>

text \<open>
  A submitted login form: when the server accepts, the session holds the user and the token,
  a reload of the page finds them again, and the visitor goes back to the page that asked for the
  login (or the catalogue); when it does not, the session is untouched and the form shows why. The
  form keeps what was typed and can be submitted again.
\<close>

theorem login_outcome:
  assumes "codec_ok c" and "submit (lp_mode p) (lp_email p) (lp_password p) s = (r, s1)"
  shows "\<exists>p' se' mv. handleSubmit c submit from p se s = ((p', se', mv), s1) \<and>
    \<not> lp_submitting p' \<and> lp_email p' = lp_email p \<and> lp_password p' = lp_password p \<and>
    (case r of
       Inr (user, token) \<Rightarrow>
         se_user se' = Some user \<and> se_api_token se' = Some token \<and>
         (let again = restore_effect c (page_load se') in se_user again = Some user \<and> se_api_token again = Some token) \<and>
         mv = ToPath (login_from from) \<and> lp_error p' = None
     | Inl err \<Rightarrow> se' = se \<and> mv = Stay \<and>
         lp_error p' = Some (shown_failure ''Something went wrong. Try again.'' err))"
  using assms
  by (auto simp: handleSubmit_def persist_def restore_effect_def page_load_def loadStored_def codec_ok_def Let_def
      split: sum.splits prod.splits)

theorem login_outcome_witness:
  "snd (snd (fst (handleSubmit demo_codec (\<lambda>m e w n. (Inr (\<lparr>su_id = 3, su_email = e\<rparr>, ''t''), Suc n)) None
     \<lparr>lp_mode = LoginMode, lp_email = ''a'', lp_password = ''b'', lp_error = None, lp_submitting = False\<rparr> demo_session 0)))
   = ToPath ''/events''"
  using login_outcome [OF demo_codec_ok, of "\<lambda>m e w n. (Inr (\<lparr>su_id = 3, su_email = e\<rparr>, ''t''), Suc n)"
      "\<lparr>lp_mode = LoginMode, lp_email = ''a'', lp_password = ''b'', lp_error = None, lp_submitting = False\<rparr>" 0
      _ _ None demo_session]
  by (auto simp: login_from_def)

text \<open>
  A visitor without a session who opens the checkout of several bookings loses them: the
  login goes back to the path alone, the query with the ids is gone, and a checkout without the
  query has no bookings. (\<open>Number("")\<close> is zero.)
\<close>

theorem login_drops_checkout:
  assumes "text_number lib '''' = Some 0" and "CHR ''?'' \<notin> set (loc_pathname l)"
    and "ProtectedRoute se = RedirectToLogin" and "submit (lp_mode p) (lp_email p) (lp_password p) s = (Inr (user, token), s1)"
  shows "\<exists>path. snd (snd (fst (handleSubmit c submit (Some l) p se s))) = ToPath path \<and>
    CHR ''?'' \<notin> set path \<and> ProtectedRoute (fst (snd (fst (handleSubmit c submit (Some l) p se s)))) = Children \<and>
    checkout_ids lib None = []"
  using assms
  by (auto simp: handleSubmit_def login_from_def checkout_ids_def persist_def ProtectedRoute_def Let_def
      List.map_filter_simps split: if_splits)

theorem login_drops_checkout_witness:
  "snd (snd (fst (handleSubmit demo_codec (\<lambda>m e w n. (Inr (\<lparr>su_id = 3, su_email = e\<rparr>, ''t''), Suc n))
     (Some \<lparr>loc_pathname = ''/checkout'', loc_search = ''?ids=1,2''\<rparr>)
     \<lparr>lp_mode = LoginMode, lp_email = ''a'', lp_password = ''b'', lp_error = None, lp_submitting = False\<rparr>
     (restore_effect demo_codec demo_session) 0))) \<noteq> ToPath ''/checkout?ids=1,2''"
  using login_drops_checkout [of page_lib "\<lparr>loc_pathname = ''/checkout'', loc_search = ''?ids=1,2''\<rparr>"
      "restore_effect demo_codec demo_session" "\<lambda>m e w n. (Inr (\<lparr>su_id = 3, su_email = e\<rparr>, ''t''), Suc n)"
      "\<lparr>lp_mode = LoginMode, lp_email = ''a'', lp_password = ''b'', lp_error = None, lp_submitting = False\<rparr>" 0
      "\<lparr>su_id = 3, su_email = ''a''\<rparr>" "''t''" "Suc 0" demo_codec]
  by (auto simp: page_lib_def read_int_def restore_effect_def demo_session_def loadStored_def ProtectedRoute_def)

end
