(* ===== verification/Wire.thy ===== *)
theory Wire
  imports Http Checkout_Pages
begin

text \<open>
  What travels between the backend and the frontend: the bodies of the replies as JSON
  (\<open>reply.send({ success: true, ... })\<close> of the controllers), the types the frontend declares for
  them (\<open>frontend/src/lib/types.ts\<close> and the type arguments of \<open>lib/api.ts\<close>), how the client reads
  them back, and the headers it sends. \<open>Date.prototype.toISOString\<close> and \<open>new Date(text)\<close> are the
  fields of the parameter \<open>dates\<close>.
\<close>

subsection \<open>Replies as JSON\<close>

record dates =
  to_iso :: "int \<Rightarrow> string"
  of_iso :: "string \<Rightarrow> int option"

definition json_int :: "int \<Rightarrow> json" where
  "json_int i = JNum (Some (of_int i))"

fun event_status_text :: "event_status \<Rightarrow> string" where
  "event_status_text Scheduled = ''scheduled''"
| "event_status_text EventCancelled = ''cancelled''"
| "event_status_text Completed = ''completed''"

definition booking_json :: "dates \<Rightarrow> booking_row \<Rightarrow> json" where
  "booking_json dt b = JObj
     [(''id'', json_int (bk_id b)), (''seatId'', json_int (bk_seatId b)), (''userId'', json_int (bk_userId b)),
      (''status'', JStr (booking_status_text (bk_status b))),
      (''holdExpiresAt'', case bk_holdExpiresAt b of None \<Rightarrow> JNull | Some t \<Rightarrow> JStr (to_iso dt t)),
      (''createdAt'', JStr (to_iso dt (bk_createdAt b))), (''updatedAt'', JStr (to_iso dt (bk_updatedAt b)))]"

definition seat_json :: "dates \<Rightarrow> seat_row \<Rightarrow> json" where
  "seat_json dt s = JObj
     [(''id'', json_int (seat_id s)), (''eventId'', json_int (seat_eventId s)), (''section'', JStr (seat_section s)),
      (''rowLabel'', JStr (seat_rowLabel s)), (''seatNumber'', json_int (seat_seatNumber s)),
      (''status'', JStr (seat_status_text (seat_status s))), (''version'', json_int (seat_version s)),
      (''createdAt'', JStr (to_iso dt (seat_createdAt s)))]"

definition event_json :: "dates \<Rightarrow> event_listing \<Rightarrow> json" where
  "event_json dt e = JObj
     [(''id'', json_int (le_id e)), (''name'', JStr (le_name e)), (''startsAt'', JStr (to_iso dt (le_startsAt e))),
      (''status'', JStr (event_status_text (le_status e))), (''venueId'', json_int (le_venueId e)),
      (''venueName'', JStr (le_venueName e)), (''venueCity'', JStr (le_venueCity e))]"

fun reply_json :: "dates \<Rightarrow> reply_body \<Rightarrow> json" where
  "reply_json dt (OneBooking b) = JObj [(''success'', JBool True), (''booking'', booking_json dt b)]"
| "reply_json dt (ManyBookings bs) = JObj [(''success'', JBool True), (''bookings'', JArr (map (booking_json dt) bs))]"
| "reply_json dt (ManyEvents es) = JObj [(''success'', JBool True), (''events'', JArr (map (event_json dt) es))]"
| "reply_json dt (ManySeats ss) = JObj [(''success'', JBool True), (''seats'', JArr (map (seat_json dt) ss))]"
| "reply_json dt (Credentials r) = JObj
     [(''success'', JBool True), (''user'', JObj [(''id'', json_int (ar_id r)), (''email'', JStr (ar_email r))]),
      (''token'', JStr (ar_token r))]"
| "reply_json dt (ErrorBody code message) = JObj
     [(''success'', JBool False), (''code'', JStr code), (''message'', JStr message)]"

subsection \<open>The types of the frontend\<close>

datatype ts_type =
    TS_number
  | TS_string
  | TS_null
  | TS_true
  | TS_literal string
  | TS_union "ts_type list"
  | TS_array ts_type
  | TS_object "(string \<times> ts_type) list"

fun ts_ok :: "ts_type \<Rightarrow> json \<Rightarrow> bool" where
  "ts_ok TS_number v = (case v of JNum n \<Rightarrow> True | _ \<Rightarrow> False)"
| "ts_ok TS_string v = (case v of JStr s \<Rightarrow> True | _ \<Rightarrow> False)"
| "ts_ok TS_null v = (v = JNull)"
| "ts_ok TS_true v = (v = JBool True)"
| "ts_ok (TS_literal s) v = (v = JStr s)"
| "ts_ok (TS_union ts) v = list_ex (\<lambda>t. ts_ok t v) ts"
| "ts_ok (TS_array t) v = (case v of JArr vs \<Rightarrow> list_all (ts_ok t) vs | _ \<Rightarrow> False)"
| "ts_ok (TS_object fs) v =
     (case v of
        JObj ps \<Rightarrow> list_all (\<lambda>f. case map_of ps (fst f) of None \<Rightarrow> False | Some x \<Rightarrow> ts_ok (snd f) x) fs
      | _ \<Rightarrow> False)"

definition ts_User :: ts_type where
  "ts_User = TS_object [(''id'', TS_number), (''email'', TS_string)]"

definition ts_EventSummary :: ts_type where
  "ts_EventSummary = TS_object
     [(''id'', TS_number), (''name'', TS_string), (''startsAt'', TS_string),
      (''status'', TS_union [TS_literal ''scheduled'', TS_literal ''cancelled'', TS_literal ''completed'']),
      (''venueId'', TS_number), (''venueName'', TS_string), (''venueCity'', TS_string)]"

definition ts_SeatStatus :: ts_type where
  "ts_SeatStatus = TS_union [TS_literal ''available'', TS_literal ''held'', TS_literal ''booked'']"

definition ts_Seat :: ts_type where
  "ts_Seat = TS_object
     [(''id'', TS_number), (''eventId'', TS_number), (''section'', TS_string), (''rowLabel'', TS_string),
      (''seatNumber'', TS_number), (''status'', ts_SeatStatus), (''version'', TS_number), (''createdAt'', TS_string)]"

definition ts_BookingStatus :: ts_type where
  "ts_BookingStatus = TS_union
     [TS_literal ''pending'', TS_literal ''confirmed'', TS_literal ''cancelled'', TS_literal ''expired'']"

definition ts_Booking :: ts_type where
  "ts_Booking = TS_object
     [(''id'', TS_number), (''seatId'', TS_number), (''userId'', TS_number), (''status'', ts_BookingStatus),
      (''holdExpiresAt'', TS_union [TS_string, TS_null]), (''createdAt'', TS_string), (''updatedAt'', TS_string)]"

text \<open>The type argument of \<open>request\<close> in the client's function for each route.\<close>

fun ts_reply :: "route \<Rightarrow> ts_type" where
  "ts_reply ReserveRoute = TS_object [(''success'', TS_true), (''booking'', ts_Booking)]"
| "ts_reply GetBookingRoute = TS_object [(''success'', TS_true), (''booking'', ts_Booking)]"
| "ts_reply ConfirmRoute = TS_object [(''success'', TS_true), (''booking'', ts_Booking)]"
| "ts_reply CancelRoute = TS_object [(''success'', TS_true), (''booking'', ts_Booking)]"
| "ts_reply ListBookingsRoute = TS_object [(''success'', TS_true), (''bookings'', TS_array ts_Booking)]"
| "ts_reply ListEventsRoute = TS_object [(''success'', TS_true), (''events'', TS_array ts_EventSummary)]"
| "ts_reply ListSeatsRoute = TS_object [(''success'', TS_true), (''seats'', TS_array ts_Seat)]"
| "ts_reply RegisterRoute = TS_object [(''success'', TS_true), (''user'', ts_User), (''token'', TS_string)]"
| "ts_reply LoginRoute = TS_object [(''success'', TS_true), (''user'', ts_User), (''token'', TS_string)]"

definition ts_error :: ts_type where
  "ts_error = TS_object [(''message'', TS_string), (''code'', TS_string)]"

lemma ts_ok_booking [simp]: "ts_ok ts_Booking (booking_json dt b)"
  by (cases "bk_status b") (simp_all add: ts_Booking_def ts_BookingStatus_def booking_json_def json_int_def split: option.splits)

lemma ts_ok_seat [simp]: "ts_ok ts_Seat (seat_json dt s)"
  by (cases "seat_status s") (simp_all add: ts_Seat_def ts_SeatStatus_def seat_json_def json_int_def)

lemma ts_ok_event [simp]: "ts_ok ts_EventSummary (event_json dt e)"
  by (cases "le_status e") (simp_all add: ts_EventSummary_def event_json_def json_int_def)

subsection \<open>Reading a reply\<close>

definition read_num :: "json \<Rightarrow> int option" where
  "read_num v = (case v of JNum (Some q) \<Rightarrow> if of_int \<lfloor>q\<rfloor> = q then Some \<lfloor>q\<rfloor> else None | _ \<Rightarrow> None)"

definition read_text :: "json \<Rightarrow> string option" where
  "read_text v = (case v of JStr s \<Rightarrow> Some s | _ \<Rightarrow> None)"

definition read_status :: "json \<Rightarrow> booking_status option" where
  "read_status v = (case v of
      JStr s \<Rightarrow> List.find (\<lambda>st. booking_status_text st = s) [Pending, Confirmed, Cancelled, Expired]
    | _ \<Rightarrow> None)"

definition read_date :: "dates \<Rightarrow> json \<Rightarrow> int option" where
  "read_date dt v = Option.bind (read_text v) (of_iso dt)"

text \<open>A value of type \<open>Booking\<close> as the pages use it: the fields, the times as instants.\<close>

definition read_booking :: "dates \<Rightarrow> json \<Rightarrow> booking_row option" where
  "read_booking dt v =
     (case v of
        JObj ps \<Rightarrow>
          (case (Option.bind (map_of ps ''id'') read_num, Option.bind (map_of ps ''seatId'') read_num,
                 Option.bind (map_of ps ''userId'') read_num, Option.bind (map_of ps ''status'') read_status,
                 map_of ps ''holdExpiresAt'', Option.bind (map_of ps ''createdAt'') (read_date dt),
                 Option.bind (map_of ps ''updatedAt'') (read_date dt)) of
             (Some i, Some s, Some u, Some st, Some h, Some c, Some m) \<Rightarrow>
               (if h = JNull then Some \<lparr>bk_id = i, bk_seatId = s, bk_userId = u, bk_status = st,
                   bk_holdExpiresAt = None, bk_createdAt = c, bk_updatedAt = m\<rparr>
                else map_option (\<lambda>t. \<lparr>bk_id = i, bk_seatId = s, bk_userId = u, bk_status = st,
                   bk_holdExpiresAt = Some t, bk_createdAt = c, bk_updatedAt = m\<rparr>) (read_date dt h))
           | _ \<Rightarrow> None)
      | _ \<Rightarrow> None)"

definition dates_ok :: "dates \<Rightarrow> bool" where
  "dates_ok dt \<longleftrightarrow> (\<forall>t. of_iso dt (to_iso dt t) = Some t)"

lemma read_json_int [simp]: "read_num (json_int i) = Some i"
  by (simp add: read_num_def json_int_def)

lemma read_status_text [simp]: "read_status (JStr (booking_status_text st)) = Some st"
  by (cases st) (simp_all add: read_status_def)

lemma read_booking_json: "dates_ok dt \<Longrightarrow> read_booking dt (booking_json dt b) = Some b"
  by (cases b) (simp add: read_booking_def booking_json_def read_date_def read_text_def dates_ok_def split: option.splits)


subsection \<open>Replies have the type the client declares\<close>

definition body_ok :: "dates \<Rightarrow> route \<Rightarrow> (int \<times> reply_body) result \<Rightarrow> bool" where
  "body_ok dt r res = (case res of Inl e \<Rightarrow> True | Inr (status, body) \<Rightarrow>
     status \<in> {200, 201} \<and> ts_ok (ts_reply r) (reply_json dt body))"

lemmas handler_defs =
  reserveSeatHandler_def confirmBookingHandler_def cancelBookingHandler_def getBookingHandler_def
  listBookingsHandler_def listEventsHandler_def listSeatsForEventHandler_def registerHandler_def loginHandler_def

lemma booking_controller_typed:
  "requires_auth r \<Longrightarrow> body_ok dt r (fst (booking_controller sc svc su rq r uid w))"
  by (cases r) (auto simp: body_ok_def handler_defs list_all_iff split: sum.splits prod.splits)

lemma public_controller_typed:
  "\<not> requires_auth r \<Longrightarrow> body_ok dt r (fst (public_controller sc env su rq r w))"
  by (cases r) (auto simp: body_ok_def handler_defs list_all_iff json_int_def ts_User_def split: sum.splits prod.splits)

lemma run_handlers_typed: "body_ok dt (rq_route rq) (fst (run_handlers sc env svc su rq w))"
  using booking_controller_typed [of "rq_route rq" dt sc svc su rq _ w]
    public_controller_typed [of "rq_route rq" dt sc env su rq w]
  by (auto simp: run_handlers_def body_ok_def [of _ _ "Inl _"] split: sum.splits)

text \<open>
  C14. Every reply of the backend has the type the frontend declares for it: whatever the request,
  the database, the broker and Redis do, a reply that is not an error has status 200 or 201 and a
  body of the type argument the client passes to \<open>request\<close> for that route (every field there, of
  the right kind, every status one of the listed words), and an error carries a text message and a
  text code.
\<close>

theorem replies_well_typed:
  "let rp = fst (serve_request sc env svc rd lims su rid rq st w)
   in case rp_body rp of
        ErrorBody code message \<Rightarrow> ts_ok ts_error (reply_json dt (rp_body rp))
      | _ \<Rightarrow> rp_status rp \<in> {200, 201} \<and> ts_ok (ts_reply (rq_route rq)) (reply_json dt (rp_body rp))"
proof -
  let ?rp = "fst (serve_request sc env svc rd lims su rid rq st w)"
  obtain r where r: "?rp = send sc rid r" "body_ok dt (rq_route rq) r"
  proof (cases "fst (rateLimiter rd lims (Some (route_url (rq_route rq))) (rq_ip rq) st)")
    case (Inl e)
    then have "?rp = send sc rid (Inl e)"
      by (cases "rateLimiter rd lims (Some (route_url (rq_route rq))) (rq_ip rq) st") (simp add: serve_request_def)
    with that [of "Inl e"] show ?thesis
      by (simp add: body_ok_def)
  next
    case (Inr u)
    with that [OF _ run_handlers_typed, of sc env svc su w] show ?thesis
      by (simp add: serve_when_allowed)
  qed
  then show ?thesis
    by (auto simp: send_def Let_def body_ok_def ts_error_def split: sum.splits prod.splits reply_body.splits
        simp del: ts_reply.simps ts_ok.simps(8) reply_json.simps(1-5)) (simp_all)
qed

subsection \<open>Calls of the client\<close>

definition fetch_of :: "dates \<Rightarrow> reply \<Rightarrow> fetch_reply" where
  "fetch_of dt rp = \<lparr>fr_status = rp_status rp, fr_json = Some (reply_json dt (rp_body rp))\<rparr>"

text \<open>
  What a page catches: \<open>super(message)\<close> makes the message a text; a message without one throws
  there, so that the page catches something that is no \<open>ApiError\<close>.
\<close>

definition failure_of :: "js_lib \<Rightarrow> api_error \<Rightarrow> call_failure" where
  "failure_of lib e =
     (case e of ApiError message code status \<Rightarrow>
        (case to_key lib message of None \<Rightarrow> OtherFailure | Some text \<Rightarrow> ApiFailure status text))"

text \<open>\<open>const res = await request(...); return res.booking\<close>, read as a booking.\<close>

definition booking_result :: "js_lib \<Rightarrow> dates \<Rightarrow> fetch_reply \<Rightarrow> call_failure + booking_row" where
  "booking_result lib dt res =
     (case request_result res of
        Inl e \<Rightarrow> Inl (failure_of lib e)
      | Inr body \<Rightarrow>
          (case get_property ''booking'' body of
             Inr (Some v) \<Rightarrow> (case read_booking dt v of Some b \<Rightarrow> Inr b | None \<Rightarrow> Inl OtherFailure)
           | _ \<Rightarrow> Inl OtherFailure))"

lemma booking_result_ok:
  "dates_ok dt \<Longrightarrow> rp_status rp \<in> {200, 201} \<Longrightarrow> rp_body rp = OneBooking b \<Longrightarrow>
     booking_result lib dt (fetch_of dt rp) = Inr b"
  by (auto simp: booking_result_def fetch_of_def request_result_def read_booking_json)

lemma booking_result_error:
  "\<not> (200 \<le> rp_status rp \<and> rp_status rp \<le> 299) \<Longrightarrow> rp_body rp = ErrorBody code message \<Longrightarrow>
     booking_result lib dt (fetch_of dt rp) = Inl (ApiFailure (rp_status rp) message)"
  by (auto simp: booking_result_def fetch_of_def request_result_def field_or_def failure_of_def)

definition header_value :: "string \<Rightarrow> (string \<times> string) list \<Rightarrow> string option" where
  "header_value name hs = map_of hs name"

text \<open>
  C15. A booking reaches the page as the backend has it, and an error as the error handler made
  it: on every booking route the client's call gives the very row the controller returned, or a
  failure with the status and the message of the error that was thrown, provided that status is
  none of the 2xx.
\<close>

theorem booking_call_roundtrip:
  assumes "dates_ok dt" and "rq_route rq \<in> {ReserveRoute, GetBookingRoute, ConfirmRoute, CancelRoute}"
    and "fst (rateLimiter rd lims (Some (route_url (rq_route rq))) (rq_ip rq) st) = Inr ()"
  shows "case fst (run_handlers sc env svc su rq w) of
      Inr (n, body) \<Rightarrow> (\<exists>b. body = OneBooking b \<and>
        booking_result lib dt (fetch_of dt (fst (serve_request sc env svc rd lims su rid rq st w))) = Inr b)
    | Inl e \<Rightarrow> (let er = errorHandler (prettifyError sc) e in
        200 \<le> er_status er \<and> er_status er \<le> 299 \<or>
        booking_result lib dt (fetch_of dt (fst (serve_request sc env svc rd lims su rid rq st w)))
          = Inl (ApiFailure (er_status er) (er_message er)))"
proof (cases "fst (run_handlers sc env svc su rq w)")
  case (Inl e)
  let ?rp = "fst (serve_request sc env svc rd lims su rid rq st w)"
  let ?er = "errorHandler (prettifyError sc) e"
  have "rp_status ?rp = er_status ?er" "rp_body ?rp = ErrorBody (er_code ?er) (er_message ?er)"
    using Inl by (simp_all add: serve_when_allowed [OF assms(3)] send_def Let_def)
  with Inl booking_result_error [of ?rp] show ?thesis
    by (auto simp: Let_def)
next
  case (Inr nb)
  then obtain n body where nb: "fst (run_handlers sc env svc su rq w) = Inr (n, body)" by (cases nb) auto
  have "\<exists>b. body = OneBooking b"
    using nb assms(2) by (auto simp: run_handlers_def handler_defs split: sum.splits prod.splits)
  moreover have "n \<in> {200, 201}"
    using run_handlers_typed [of dt rq sc env svc su w] nb by (simp add: body_ok_def)
  ultimately show ?thesis
    using nb booking_result_ok [OF assms(1)] by (auto simp: serve_when_allowed [OF assms(3)] send_def Let_def)
qed

definition demo_dates :: dates where
  "demo_dates = \<lparr>to_iso = show_int, of_iso = (\<lambda>s. Some (read_int s))\<rparr>"

lemma demo_dates_ok: "dates_ok demo_dates"
  by (simp add: dates_ok_def demo_dates_def)

theorem booking_call_roundtrip_witness:
  "booking_result page_lib demo_dates (fetch_of demo_dates (fst (serve_request demo_schemas demo_env quiet_services
     plain_redis demo_limits demo_surroundings ''r'' (demo_request GetBookingRoute ''1'' None)
     (\<lambda>_. 0, \<lambda>_. None) (demo_world demo_held)))) = Inl (ApiFailure 401 default_unauthorized)"
  using booking_call_roundtrip [OF demo_dates_ok, where rq = "demo_request GetBookingRoute ''1'' None" and rd = plain_redis
      and lims = demo_limits and st = "(\<lambda>_. 0, \<lambda>_. None)" and sc = demo_schemas and env = demo_env
      and svc = quiet_services and su = demo_surroundings and w = "demo_world demo_held" and lib = page_lib and rid = "''r''"]
  by (simp add: demo_request_def demo_rate run_handlers_def requireAuth_def UnauthorizedError_def)

text \<open>
  The token of a login opens the booking routes: the header that the client sends with the
  token the backend signed for a user is accepted by \<open>requireAuth\<close> as that user, and a client
  without a token sends no such header and is refused. (The token library accepts what it signed;
  no token is the empty text.)
\<close>

theorem token_header_roundtrip:
  assumes "tokens_verify env" and "signAuthToken env userId \<noteq> ''''"
  shows "requireAuth env (header_value ''Authorization'' (request_headers has_body (Some (signAuthToken env userId)) []))
      = Inr userId \<and>
    requireAuth env (header_value ''Authorization'' (request_headers has_body None [])) =
      Inl (UnauthorizedError default_unauthorized)"
  using assms
  by (simp add: header_value_def request_headers_def requireAuth_def verifyAuthToken_def tokens_verify_def signAuthToken_def)

definition open_env :: auth_env where
  "open_env = demo_env\<lparr>au_verify := (\<lambda>t. Inr (JwtObject (NumberClaim (read_int t))))\<rparr>"

lemma open_env_ok: "tokens_verify open_env" "signAuthToken open_env 7 \<noteq> ''''"
  by (simp_all add: tokens_verify_def open_env_def demo_env_def signAuthToken_def) (simp add: show_int_def show_nat.simps)

theorem token_header_roundtrip_witness:
  "requireAuth open_env (header_value ''Authorization'' (request_headers True (Some (signAuthToken open_env 7)) [])) = Inr 7"
  using token_header_roundtrip [OF open_env_ok] by blast

end
