(* ===== verification/Buyer_Journey.thy ===== *)
theory Buyer_Journey
  imports Wire Realtime
begin

text \<open>
  The frontend on the backend: the client's calls as requests that the backend serves, and what a
  buyer gets who picks seats, reserves them, reviews the bookings and confirms them.
\<close>

subsection \<open>The client's calls\<close>

text \<open>
  A deployment: the parameters of the backend and of the client. The \<open>n\<close>-th call is served in
  the surroundings \<open>si_surroundings n\<close> (its times, its salt). The state is Redis, the world and the
  number of calls made.
\<close>

record ('q, 'k, 'r, 'c) site =
  si_schemas :: schemas
  si_env :: auth_env
  si_services :: "('q, 'k) services"
  si_redis :: "'r redis"
  si_limits :: limits
  si_surroundings :: "nat \<Rightarrow> 'c surroundings"
  si_lib :: js_lib
  si_dates :: dates
  si_ip :: string

type_synonym ('q, 'k, 'r) backend = "'r \<times> ('q, 'k) world \<times> nat"

definition client_request ::
  "('q, 'k, 'r, 'c) site \<Rightarrow> string option \<Rightarrow> route \<Rightarrow> string \<Rightarrow> json option \<Rightarrow> request" where
  "client_request si token r param body =
     \<lparr>rq_route = r, rq_ip = Some (si_ip si),
      rq_authorization = header_value ''Authorization'' (request_headers (body \<noteq> None) token []),
      rq_param = param, rq_query = [], rq_body = body\<rparr>"

definition call_booking ::
  "('q, 'k, 'r, 'c::linorder) site \<Rightarrow> string option \<Rightarrow> route \<Rightarrow> string \<Rightarrow> json option \<Rightarrow> ('q, 'k, 'r) backend \<Rightarrow>
   (call_failure + booking_row) \<times> ('q, 'k, 'r) backend" where
  "call_booking si token r param body = (\<lambda>(st, w, n).
     case serve_request (si_schemas si) (si_env si) (si_services si) (si_redis si) (si_limits si)
            (si_surroundings si n) (show_nat n) (client_request si token r param body) st w of
       (rp, st', w') \<Rightarrow> (booking_result (si_lib si) (si_dates si) (fetch_of (si_dates si) rp), (st', w', Suc n)))"

text \<open>The functions of \<open>lib/api.ts\<close>; the seat picker only reads the id of the booking.\<close>

definition api_reserveSeat ::
  "('q, 'k, 'r, 'c::linorder) site \<Rightarrow> string option \<Rightarrow> int \<Rightarrow> ('q, 'k, 'r) backend \<Rightarrow>
   (call_failure + int) \<times> ('q, 'k, 'r) backend" where
  "api_reserveSeat si token seatId s =
     (case call_booking si token ReserveRoute '''' (Some (JObj [(''seatId'', json_int seatId)])) s of
        (Inl e, s') \<Rightarrow> (Inl e, s')
      | (Inr booking, s') \<Rightarrow> (Inr (bk_id booking), s'))"

definition api_getBooking :: "('q, 'k, 'r, 'c::linorder) site \<Rightarrow> string option \<Rightarrow> ('q, 'k, 'r) backend booking_call" where
  "api_getBooking si token bookingId = call_booking si token GetBookingRoute (show_int bookingId) None"

definition api_confirmBooking :: "('q, 'k, 'r, 'c::linorder) site \<Rightarrow> string option \<Rightarrow> ('q, 'k, 'r) backend booking_call" where
  "api_confirmBooking si token bookingId = call_booking si token ConfirmRoute (show_int bookingId) None"

definition api_cancelBooking :: "('q, 'k, 'r, 'c::linorder) site \<Rightarrow> string option \<Rightarrow> ('q, 'k, 'r) backend booking_call" where
  "api_cancelBooking si token bookingId = call_booking si token CancelRoute (show_int bookingId) None"

subsection \<open>What the site is assumed to do\<close>

definition schemas_read :: "schemas \<Rightarrow> bool" where
  "schemas_read sc \<longleftrightarrow> number_reads_ids (sc_lib sc)"

text \<open>The schemas let the ids through that the client sends.\<close>

lemma client_ids_pass:
  assumes "schemas_read sc" and "1 \<le> n" and "n \<le> int4_max"
  shows "reserveSeatSchema sc (Some (JObj [(''seatId'', json_int n)])) = Inr n"
    "bookingIdParamSchema sc (show_int n) = Inr n"
  using seat_body_read [OF assms(2,3)] id_param_read [OF _ assms(2,3), of sc] assms(1)
  by (simp_all add: schemas_read_def json_int_def)

definition site_ok :: "('q, 'k, 'r, 'c) site \<Rightarrow> ('r \<Rightarrow> string \<Rightarrow> int) \<Rightarrow> ('r \<Rightarrow> string \<Rightarrow> int option) \<Rightarrow> bool" where
  "site_ok si hits ttl \<longleftrightarrow> schemas_read (si_schemas si) \<and> dates_ok (si_dates si) \<and> number_reads_ids (si_lib si) \<and>
     tokens_verify (si_env si) \<and> redis_laws (si_redis si) hits ttl"

definition users_token :: "('q, 'k, 'r, 'c) site \<Rightarrow> int \<Rightarrow> string \<Rightarrow> bool" where
  "users_token si uid token \<longleftrightarrow> token = signAuthToken (si_env si) uid \<and> token \<noteq> ''''"

text \<open>
  Room for \<open>k\<close> more calls: the versions of the seats and the booking sequence stay within their
  columns, and the limiter's count stays within its bound.
\<close>

definition db_room :: "nat \<Rightarrow> int \<Rightarrow> db \<Rightarrow> bool" where
  "db_room k uid d \<longleftrightarrow> consistent d \<and> int4_ok uid \<and> uid \<in> user_id ` set (users d) \<and>
     bookings_seq d + int k \<le> int4_max \<and> (\<forall>s\<in>set (seats d). 0 \<le> seat_version s \<and> seat_version s + int k \<le> int4_max)"

definition calls_left :: "('q, 'k, 'r, 'c) site \<Rightarrow> ('r \<Rightarrow> string \<Rightarrow> int) \<Rightarrow> nat \<Rightarrow> 'r \<Rightarrow> bool" where
  "calls_left si hits k st \<longleftrightarrow> hits st (rate_key (Some (si_ip si))) + int k \<le> MAX_REQUESTS (si_limits si)"

subsection \<open>One call\<close>

lemma route_not_exempt: "\<not> exempt (Some (route_url r))"
  by (cases r) (simp_all add: exempt_def EXEMPT_ROUTES_def)

lemma allowed_call:
  assumes "site_ok si hits ttl" and "calls_left si hits (Suc k) st"
  obtains st' where "rateLimiter (si_redis si) (si_limits si) (Some (route_url r)) (Some (si_ip si)) st = (Inr (), st')"
    "calls_left si hits k st'"
proof -
  from assms(1) have "redis_laws (si_redis si) hits ttl" by (simp add: site_ok_def)
  then obtain st' where "rateLimiter (si_redis si) (si_limits si) (Some (route_url r)) (Some (si_ip si)) st =
      (if hits st (rate_key (Some (si_ip si))) + 1 > MAX_REQUESTS (si_limits si) then Inl RateLimitError else Inr (), st')"
    "hits st' = (hits st)(rate_key (Some (si_ip si)) := hits st (rate_key (Some (si_ip si))) + 1)"
    using route_not_exempt by (rule rateLimiter_step)
  with assms(2) that [of st'] show ?thesis by (simp add: calls_left_def)
qed

lemma token_accepted:
  "site_ok si hits ttl \<Longrightarrow> users_token si uid token \<Longrightarrow>
   requireAuth (si_env si) (header_value ''Authorization'' (request_headers b (Some token) [])) = Inr uid"
  by (auto simp: header_value_def request_headers_def requireAuth_def verifyAuthToken_def tokens_verify_def
      signAuthToken_def site_ok_def users_token_def)

text \<open>What the client reads of the controller's result.\<close>

definition client_view :: "schemas \<Rightarrow> (int \<times> reply_body) result \<Rightarrow> call_failure + booking_row" where
  "client_view sc res =
     (case res of
        Inr (n, OneBooking b) \<Rightarrow> Inr b
      | Inr _ \<Rightarrow> Inl OtherFailure
      | Inl e \<Rightarrow> (let er = errorHandler (prettifyError sc) e in Inl (ApiFailure (er_status er) (er_message er))))"

lemma client_view_simps [simp]:
  "client_view sc (Inr (n, OneBooking b)) = Inr b"
  "client_view sc (Inl e) = Inl (ApiFailure (er_status (errorHandler (prettifyError sc) e))
     (er_message (errorHandler (prettifyError sc) e)))"
  by (simp_all add: client_view_def Let_def)

lemma booking_result_view:
  assumes "dates_ok dt" and "case res of Inr (n, body) \<Rightarrow> n \<in> {200, 201} \<and> (\<exists>b. body = OneBooking b) | Inl e \<Rightarrow> domain_error e"
  shows "booking_result lib dt (fetch_of dt (send sc rid res)) = client_view sc res"
proof (cases res)
  case (Inl e)
  with assms(2) have "er_status (errorHandler (prettifyError sc) e) \<in> {401, 404, 409, 429}"
    by (auto simp: domain_error_def)
  then show ?thesis
    unfolding Inl by (subst booking_result_error) (auto simp: send_def Let_def)
next
  case (Inr nb)
  with assms booking_result_ok [OF assms(1)] show ?thesis
    by (auto simp: send_def Let_def)
qed

text \<open>
  One call of a buyer with calls left: it runs the controller as the user of the token.
\<close>

lemma call_booking_served:
  assumes site: "site_ok si hits ttl" and "users_token si uid token" and left: "calls_left si hits (Suc k) st"
    and r: "r \<in> {ReserveRoute, GetBookingRoute, ConfirmRoute, CancelRoute}"
    and c: "booking_controller (si_schemas si) (si_services si) (si_surroundings si n)
        (client_request si (Some token) r param body) r uid w = (res, w')"
    and ok: "case res of Inr (n, body) \<Rightarrow> n \<in> {200, 201} \<and> (\<exists>b. body = OneBooking b) | Inl e \<Rightarrow> domain_error e"
  obtains st' where "calls_left si hits k st'"
    "call_booking si (Some token) r param body (st, w, n) = (client_view (si_schemas si) res, (st', w', Suc n))"
proof -
  from allowed_call [OF site left] obtain st' where st': "calls_left si hits k st'"
    "rateLimiter (si_redis si) (si_limits si) (Some (route_url r)) (Some (si_ip si)) st = (Inr (), st')"
    by blast
  have "run_handlers (si_schemas si) (si_env si) (si_services si) (si_surroundings si n)
      (client_request si (Some token) r param body) w = (res, w')"
    using r c token_accepted [OF site assms(2)]
    by (auto simp: run_handlers_def client_request_def)
  moreover have "dates_ok (si_dates si)" using site by (simp add: site_ok_def)
  ultimately have "call_booking si (Some token) r param body (st, w, n) =
      (client_view (si_schemas si) res, (st', w', Suc n))"
    using st'(2) booking_result_view [OF _ ok]
    by (simp add: call_booking_def serve_request_def client_request_def)
  with st'(1) that show ?thesis by blast
qed


subsection \<open>The rows a call leaves\<close>

definition owned :: "int \<Rightarrow> booking_status \<Rightarrow> db \<Rightarrow> int \<Rightarrow> int \<Rightarrow> bool" where
  "owned uid st d seatId bookingId \<longleftrightarrow>
     (\<exists>b\<in>set (bookings d). bk_id b = bookingId \<and> bk_userId b = uid \<and> bk_seatId b = seatId \<and> bk_status b = st)"

lemma db_room_versions: "db_room (Suc k) uid d \<Longrightarrow> versions_room d"
  by (auto simp: db_room_def versions_room_def int4_ok_def int4_max_def)

lemma db_room_insert: "db_room (Suc k) uid d \<Longrightarrow> can_insert d sid uid"
  by (auto simp: db_room_def can_insert_def int4_ok_def int4_max_def dest!: seat_at_SomeD)

lemma db_room_mono: "db_room k uid d \<Longrightarrow> j \<le> k \<Longrightarrow> db_room j uid d"
  by (auto simp: db_room_def)

lemma db_room_move:
  assumes "db_room (Suc k) uid d" and "consistent d'" and "users d' = users d"
    and "seats d' = seats (move_seat st sid d)" and "bookings_seq d' \<le> bookings_seq d + 1"
  shows "db_room k uid d'"
  using assms by (auto simp: db_room_def seats_move_seat bump_seat_def)

text \<open>Reserving an available seat.\<close>

lemma reserve_call:
  assumes site: "site_ok si hits ttl" "users_token si uid token" and left: "calls_left si hits (Suc k) st"
    and room: "db_room (Suc k) uid (w_db w)" and sid: "1 \<le> sid" "sid \<le> int4_max"
    and at: "seat_at (w_db w) sid = Some x" "seat_status x = Available"
  obtains st' w' row where
    "api_reserveSeat si (Some token) sid (st, w, n) = (Inr (bookings_seq (w_db w)), (st', w', Suc n))"
    "calls_left si hits k st'" "db_room k uid (w_db w')" "w_db w' = reserved_db (w_db w) row"
    "bk_id row = bookings_seq (w_db w)" "bk_userId row = uid" "bk_seatId row = sid" "bk_status row = Pending"
proof -
  let ?su = "si_surroundings si n"
  let ?rq = "client_request si (Some token) ReserveRoute '''' (Some (JObj [(''seatId'', json_int sid)]))"
  let ?row = "pending_booking (w_db w) sid uid (t_hold ?su + hold_duration_ms ?su) (t_db ?su)"
  have cons: "consistent (w_db w)" using room by (simp add: db_room_def)
  have ok: "int4_ok sid" using sid by (simp add: int4_ok_def)
  have tx: "reserve_tx sid uid (t_hold ?su + hold_duration_ms ?su) (t_db ?su) (w_db w) = Inr (?row, reserved_db (w_db w) ?row)"
    using reserve_tx_hit [OF cons at db_room_insert [OF room]] .
  obtain w' where w': "reserveSeat (si_services si) (hold_duration_ms ?su) sid uid (t_hold ?su) (t_db ?su) (t_sched ?su)
      (t_event ?su) w = (Inr ?row, w')" "w_db w' = reserved_db (w_db w) ?row"
    using tx at ok by (simp add: reserveSeat_def reserve_check_eq transaction_def Let_def)
  have "reserveSeatSchema (si_schemas si) (rq_body ?rq) = Inr sid"
    using site(1) sid by (simp add: site_ok_def client_ids_pass client_request_def)
  then have c: "booking_controller (si_schemas si) (si_services si) ?su ?rq ReserveRoute uid w = (Inr (201, OneBooking ?row), w')"
    using w'(1) by (simp add: reserveSeatHandler_def parse_def)
  obtain st' where st': "calls_left si hits k st'"
    "call_booking si (Some token) ReserveRoute '''' (Some (JObj [(''seatId'', json_int sid)])) (st, w, n) =
      (client_view (si_schemas si) (Inr (201, OneBooking ?row)), (st', w', Suc n))"
    using call_booking_served [OF site left _ c] by auto
  have "consistent (w_db w')"
    using reserve_tx_consistent [OF tx cons] w'(2) by simp
  then have "db_room k uid (w_db w')"
    using room w'(2) by (intro db_room_move [OF room, where sid = sid and st = Held]) simp_all
  with st' w'(2) that [of st' w' ?row] show ?thesis
    by (simp add: api_reserveSeat_def)
qed

text \<open>Reading and confirming an own pending booking.\<close>

lemma get_call:
  assumes site: "site_ok si hits ttl" "users_token si uid token" and left: "calls_left si hits (Suc k) st"
    and room: "db_room j uid (w_db w)" and bid: "1 \<le> bid" "bid \<le> int4_max"
    and b: "b \<in> set (bookings (w_db w))" "bk_id b = bid" "bk_userId b = uid"
  obtains st' where "api_getBooking si (Some token) bid (st, w, n) = (Inr b, (st', w, Suc n))" "calls_left si hits k st'"
proof -
  let ?rq = "client_request si (Some token) GetBookingRoute (show_int bid) None"
  have cons: "consistent (w_db w)" and u: "int4_ok uid" using room by (simp_all add: db_room_def)
  have "select_bookings (\<lambda>b. bk_id b = bid \<and> bk_userId b = uid) (w_db w) = [b]"
    using filter_key_unique [OF consistentD(2) [OF cons] b(1)] b(2,3)
      filter_filter [of "\<lambda>b. bk_userId b = uid" "\<lambda>b. bk_id b = bid" "bookings (w_db w)"]
    by (simp add: select_bookings_def conj_commute)
  then have "getBooking bid uid (w_db w) = Inr b"
    using bid u by (simp add: getBooking_def select_own_booking_def int4_ok_def)
  moreover have "bookingIdParamSchema (si_schemas si) (rq_param ?rq) = Inr bid"
    using site(1) bid by (simp add: site_ok_def client_ids_pass client_request_def)
  ultimately have c: "booking_controller (si_schemas si) (si_services si) (si_surroundings si n) ?rq GetBookingRoute uid w =
      (Inr (200, OneBooking b), w)"
    by (simp add: getBookingHandler_def parse_def)
  show ?thesis
    using call_booking_served [OF site left _ c] that by (auto simp: api_getBooking_def)
qed

lemma confirm_call:
  assumes site: "site_ok si hits ttl" "users_token si uid token" and left: "calls_left si hits (Suc k) st"
    and room: "db_room (Suc k) uid (w_db w)" and bid: "1 \<le> bid" "bid \<le> int4_max"
    and b: "b \<in> set (bookings (w_db w))" "bk_id b = bid" "bk_userId b = uid" "bk_status b = Pending"
  obtains st' w' t where
    "api_confirmBooking si (Some token) bid (st, w, n) = (Inr (set_status_at Confirmed t b), (st', w', Suc n))"
    "calls_left si hits k st'" "db_room k uid (w_db w')"
    "w_db w' = move_seat Booked (bk_seatId b) (move_booking (set_status_at Confirmed t) bid (w_db w))"
proof -
  let ?rq = "client_request si (Some token) ConfirmRoute (show_int bid) None"
  let ?t = "t_db (si_surroundings si n)"
  have cons: "consistent (w_db w)" and u: "int4_ok uid" and i: "int4_ok bid"
    using room bid by (simp_all add: db_room_def int4_ok_def)
  have own: "owns (w_db w) bid uid" using b by (auto simp: owns_def)
  note tx = confirm_booking.transaction_eq [OF cons db_room_versions [OF room] i b(1,2), of ?t]
  obtain w' where w': "confirmBooking (si_services si) bid uid ?t (t_event (si_surroundings si n)) w =
      (Inr (set_status_at Confirmed ?t b), w')"
    "w_db w' = move_seat Booked (bk_seatId b) (move_booking (set_status_at Confirmed ?t) bid (w_db w))"
    using tx b(4) own i u by (simp add: confirmBooking_def owner_check_eq)
  have "bookingIdParamSchema (si_schemas si) (rq_param ?rq) = Inr bid"
    using site(1) bid by (simp add: site_ok_def client_ids_pass client_request_def)
  then have c: "booking_controller (si_schemas si) (si_services si) (si_surroundings si n) ?rq ConfirmRoute uid w =
      (Inr (200, OneBooking (set_status_at Confirmed ?t b)), w')"
    using w'(1) by (simp add: confirmBookingHandler_def parse_def)
  have "consistent (w_db w')"
    using confirmBooking_consistent [OF cons] w'(1) by (metis snd_conv)
  then have r: "db_room k uid (w_db w')"
    using w'(2) by (intro db_room_move [OF room, where sid = "bk_seatId b" and st = Booked]) (simp_all add: seats_move_seat)
  obtain st' where "calls_left si hits k st'" "call_booking si (Some token) ConfirmRoute (show_int bid) None (st, w, n) =
      (client_view (si_schemas si) (Inr (200, OneBooking (set_status_at Confirmed ?t b))), (st', w', Suc n))"
    using call_booking_served [OF site left _ c] by auto
  with r w'(2) that show ?thesis by (simp add: api_confirmBooking_def)
qed


subsection \<open>Reserving the selection\<close>

lemma reserve_phase:
  assumes site: "site_ok si hits ttl" "users_token si uid token"
    and "calls_left si hits (length sel + k) st" and "db_room (length sel + k) uid (w_db w)"
    and "\<forall>s\<in>set sel. 1 \<le> seat_id s \<and> seat_id s \<le> int4_max \<and>
      (\<exists>x. seat_at (w_db w) (seat_id s) = Some x \<and> seat_status x = Available)"
    and "distinct (map seat_id sel)"
  shows "\<exists>st' w'. call_results (api_reserveSeat si (Some token)) sel (st, w, n) =
      (map (\<lambda>i. Inr (bookings_seq (w_db w) + int i)) [0..<length sel], (st', w', n + length sel)) \<and>
    calls_left si hits k st' \<and> db_room k uid (w_db w') \<and> set (bookings (w_db w)) \<subseteq> set (bookings (w_db w')) \<and>
    (\<forall>i<length sel. owned uid Pending (w_db w') (seat_id (sel ! i)) (bookings_seq (w_db w) + int i))"
  using assms(3-)
proof (induction sel arbitrary: st w n)
  case Nil
  then show ?case by simp
next
  case (Cons s sel)
  from Cons.prems(3) obtain x where x: "seat_at (w_db w) (seat_id s) = Some x" "seat_status x = Available"
    "1 \<le> seat_id s" "seat_id s \<le> int4_max" by auto
  have left: "calls_left si hits (Suc (length sel + k)) st" and room: "db_room (Suc (length sel + k)) uid (w_db w)"
    using Cons.prems(1,2) by simp_all
  obtain st1 w1 row where call: "api_reserveSeat si (Some token) (seat_id s) (st, w, n) =
      (Inr (bookings_seq (w_db w)), (st1, w1, Suc n))"
    and one: "calls_left si hits (length sel + k) st1" "db_room (length sel + k) uid (w_db w1)"
      "w_db w1 = reserved_db (w_db w) row"
    and row: "bk_id row = bookings_seq (w_db w)" "bk_userId row = uid" "bk_seatId row = seat_id s" "bk_status row = Pending"
    using reserve_call [OF site left room x(3,4,1,2), of n] by blast
  have others: "\<forall>t\<in>set sel. 1 \<le> seat_id t \<and> seat_id t \<le> int4_max \<and>
      (\<exists>x. seat_at (w_db w1) (seat_id t) = Some x \<and> seat_status x = Available)"
    using Cons.prems(3,4) row(3) by (auto simp: one(3) seat_at_move_seat image_iff)
  have "distinct (map seat_id sel)" using Cons.prems(4) by simp
  from Cons.IH [OF one(1,2) others this, of "Suc n"] obtain st' w' where
    rest: "call_results (api_reserveSeat si (Some token)) sel (st1, w1, Suc n) =
        (map (\<lambda>i. Inr (bookings_seq (w_db w1) + int i)) [0..<length sel], (st', w', Suc n + length sel))"
      "calls_left si hits k st'" "db_room k uid (w_db w')" "set (bookings (w_db w1)) \<subseteq> set (bookings (w_db w'))"
      "\<forall>i<length sel. owned uid Pending (w_db w') (seat_id (sel ! i)) (bookings_seq (w_db w1) + int i)"
    by blast
  have first: "owned uid Pending (w_db w') (seat_id s) (bookings_seq (w_db w))"
    using rest(4) row by (auto simp: owned_def one(3))
  have "owned uid Pending (w_db w') (seat_id ((s # sel) ! i)) (bookings_seq (w_db w) + int i)" if "i < length (s # sel)" for i
    using first rest(5) that by (cases i) (simp_all add: one(3) algebra_simps)
  moreover have "map (\<lambda>i. Inr (bookings_seq (w_db w) + int i)) [0..<length (s # sel)] =
      (Inr (bookings_seq (w_db w)) :: call_failure + int) #
        map (\<lambda>i. Inr (bookings_seq (w_db w1) + int i)) [0..<length sel]"
    by (simp only: length_Cons map_upt_Suc) (simp add: one(3) algebra_simps)
  ultimately show ?case
    using call rest(1-4) by (intro exI [of _ st'] exI [of _ w']) (simp add: one(3) del: upt_Suc)
qed

subsection \<open>Calls made at once\<close>

lemma run_calls_fst: "map fst (fst (run_calls call xs s)) = xs"
  by (induction xs arbitrary: s) (simp_all split: prod.splits, metis fst_conv)

lemma settle_all_pointwise:
  assumes run: "run_calls (\<lambda>i. call (args ! i)) order s = (rs, s')" and "\<forall>(i, r)\<in>set rs. P i r"
    and "set order = {..<length args}"
  obtains results where "settle_all call order args s = (results, s')" "length results = length args"
    "\<forall>i<length args. P i (results ! i)"
proof -
  let ?results = "map (\<lambda>i. the (map_of rs i)) [0..<length args]"
  have "P i (?results ! i)" if "i < length args" for i
  proof -
    have "i \<in> fst ` set rs"
      using run_calls_fst [of "\<lambda>i. call (args ! i)" order s] run assms(3) that by (metis fst_conv lessThan_iff set_map)
    then obtain r where "map_of rs i = Some r" by (metis map_of_eq_None_iff not_None_eq)
    with assms(2) that show ?thesis by (auto dest: map_of_SomeD)
  qed
  with run that [of ?results] show ?thesis by (simp add: settle_all_def)
qed

lemma get_phase:
  assumes site: "site_ok si hits ttl" "users_token si uid token" and room: "db_room 0 uid (w_db w)"
    and "calls_left si hits (length order + k) st"
    and "\<forall>i\<in>set order. 1 \<le> ids ! i \<and> ids ! i \<le> int4_max \<and>
      f i \<in> set (bookings (w_db w)) \<and> bk_id (f i) = ids ! i \<and> bk_userId (f i) = uid"
  shows "\<exists>rs st'. run_calls (\<lambda>i. api_getBooking si (Some token) (ids ! i)) order (st, w, n) = (rs, (st', w, n + length order)) \<and>
    calls_left si hits k st' \<and> (\<forall>(i, r)\<in>set rs. r = Inr (f i))"
  using assms(4-)
proof (induction order arbitrary: st n)
  case Nil
  then show ?case by simp
next
  case (Cons i order)
  have left: "calls_left si hits (Suc (length order + k)) st" using Cons.prems(1) by simp
  have i: "1 \<le> ids ! i" "ids ! i \<le> int4_max" "f i \<in> set (bookings (w_db w))" "bk_id (f i) = ids ! i" "bk_userId (f i) = uid"
    using Cons.prems(2) by simp_all
  obtain st1 where call: "api_getBooking si (Some token) (ids ! i) (st, w, n) = (Inr (f i), (st1, w, Suc n))"
    and left1: "calls_left si hits (length order + k) st1"
    using get_call [OF site left room i, of n] by blast
  from Cons.IH [OF left1, of "Suc n"] Cons.prems(2) obtain rs st' where
    "run_calls (\<lambda>i. api_getBooking si (Some token) (ids ! i)) order (st1, w, Suc n) = (rs, (st', w, Suc n + length order))"
    "calls_left si hits k st'" "\<forall>(i, r)\<in>set rs. r = Inr (f i)" by auto
  with call show ?case
    by (intro exI [of _ "(i, Inr (f i)) # rs"] exI [of _ st']) simp
qed


lemma confirm_phase:
  assumes site: "site_ok si hits ttl" "users_token si uid token"
    and "calls_left si hits (length order + k) st" and "db_room (length order + k) uid (w_db w)"
    and "\<forall>i\<in>set order. 1 \<le> ids ! i \<and> ids ! i \<le> int4_max \<and> owned uid Pending (w_db w) (sids i) (ids ! i)"
    and "distinct order" and "inj_on (\<lambda>i. ids ! i) (set order)"
  shows "\<exists>rs st' w'. run_calls (\<lambda>i. api_confirmBooking si (Some token) (ids ! i)) order (st, w, n) =
      (rs, (st', w', n + length order)) \<and>
    calls_left si hits k st' \<and> db_room k uid (w_db w') \<and> (\<forall>(i, r)\<in>set rs. \<not> rejected r) \<and>
    (\<forall>i\<in>set order. owned uid Confirmed (w_db w') (sids i) (ids ! i)) \<and>
    (\<forall>b\<in>set (bookings (w_db w)). bk_id b \<notin> (\<lambda>i. ids ! i) ` set order \<longrightarrow> b \<in> set (bookings (w_db w')))"
  using assms(3-)
proof (induction order arbitrary: st w n)
  case Nil
  then show ?case by simp
next
  case (Cons i order)
  have left: "calls_left si hits (Suc (length order + k)) st" and room: "db_room (Suc (length order + k)) uid (w_db w)"
    using Cons.prems(1,2) by simp_all
  obtain b where b: "b \<in> set (bookings (w_db w))" "bk_id b = ids ! i" "bk_userId b = uid" "bk_status b = Pending"
    "bk_seatId b = sids i" "1 \<le> ids ! i" "ids ! i \<le> int4_max"
    using Cons.prems(3) by (auto simp: owned_def)
  obtain st1 w1 t where call: "api_confirmBooking si (Some token) (ids ! i) (st, w, n) =
      (Inr (set_status_at Confirmed t b), (st1, w1, Suc n))"
    and one: "calls_left si hits (length order + k) st1" "db_room (length order + k) uid (w_db w1)"
      "w_db w1 = move_seat Booked (bk_seatId b) (move_booking (set_status_at Confirmed t) (ids ! i) (w_db w))"
    using confirm_call [OF site left room b(6,7,1-4), of n] by blast
  have keep: "c \<in> set (bookings (w_db w1))" if "c \<in> set (bookings (w_db w))" "bk_id c \<noteq> ids ! i" for c
    using that by (auto simp: one(3) bookings_move_booking image_iff)
  have now: "set_status_at Confirmed t b \<in> set (bookings (w_db w1))"
    using b(1,2) by (auto simp: one(3) bookings_move_booking)
  have ne: "ids ! j \<noteq> ids ! i" if "j \<in> set order" for j
    using Cons.prems(4,5) that by (auto simp: inj_on_def)
  have pending: "\<forall>j\<in>set order. 1 \<le> ids ! j \<and> ids ! j \<le> int4_max \<and> owned uid Pending (w_db w1) (sids j) (ids ! j)"
    using Cons.prems(3) keep ne by (fastforce simp: owned_def)
  have dist: "distinct order" and inj: "inj_on (\<lambda>i. ids ! i) (set order)"
    using Cons.prems(4,5) by (simp_all add: inj_on_def)
  from Cons.IH [OF one(1,2) pending dist inj, of "Suc n"] obtain rs st' w' where
    rest: "run_calls (\<lambda>i. api_confirmBooking si (Some token) (ids ! i)) order (st1, w1, Suc n) = (rs, (st', w', Suc n + length order))"
      "calls_left si hits k st'" "db_room k uid (w_db w')" "\<forall>(i, r)\<in>set rs. \<not> rejected r"
      "\<forall>i\<in>set order. owned uid Confirmed (w_db w') (sids i) (ids ! i)"
      "\<forall>b\<in>set (bookings (w_db w1)). bk_id b \<notin> (\<lambda>i. ids ! i) ` set order \<longrightarrow> b \<in> set (bookings (w_db w'))"
    by blast
  have "bk_id (set_status_at Confirmed t b) \<notin> (\<lambda>i. ids ! i) ` set order"
    using ne b(2) by (auto simp: set_status_at_def) (metis ne)
  with rest(6) now have "set_status_at Confirmed t b \<in> set (bookings (w_db w'))"
    by blast
  then have first: "owned uid Confirmed (w_db w') (sids i) (ids ! i)"
    using b by (intro bexI [of _ "set_status_at Confirmed t b", THEN owned_def [THEN iffD2]]) (simp_all add: set_status_at_def)
  have frame: "\<forall>c\<in>set (bookings (w_db w)). bk_id c \<notin> (\<lambda>i. ids ! i) ` set (i # order) \<longrightarrow> c \<in> set (bookings (w_db w'))"
    using rest(6) keep by auto
  show ?case
    using call rest(1-5) first frame
    by (intro exI [of _ "(i, Inr (set_status_at Confirmed t b)) # rs"] exI [of _ st'] exI [of _ w'])
      (simp add: rejected_def)
qed


subsection \<open>From the seat map to the ticket\<close>

lemma booked_ids_Inr: "booked_ids (map (\<lambda>i. Inr (f i)) xs) = map f xs"
  by (induction xs) (simp_all add: booked_ids_def)

lemma failed_labels_Inr: "failed_labels sel (map (\<lambda>i. Inr (f i)) xs) = []"
  by (auto simp: failed_labels_def dest!: set_zip_rightD)

lemma order_length: "distinct order \<Longrightarrow> set order = {..<n} \<Longrightarrow> length order = n"
  using distinct_card [of order] by simp

definition fresh_multi :: multi_page where
  "fresh_multi = \<lparr>mc_bookings = None, mc_error = None, mc_busy = False\<rparr>"

text \<open>Loading the checkout of one's own pending bookings.\<close>

lemma loaded_page:
  assumes site: "site_ok si hits ttl" "users_token si uid token" and "db_room j uid (w_db w)"
    and "calls_left si hits (length ids + k) st"
    and own: "\<forall>i<length ids. 1 \<le> ids ! i \<and> ids ! i \<le> int4_max \<and> owned uid Pending (w_db w) (sids i) (ids ! i)"
    and order: "distinct order" "set order = {..<length ids}"
  obtains loaded st' bs where "settle_all (api_getBooking si (Some token)) order ids (st, w, n) = (loaded, (st', w, n + length ids))"
    "calls_left si hits k st'" "multi_load loaded fresh_multi = \<lparr>mc_bookings = Some bs, mc_error = None, mc_busy = False\<rparr>"
    "map bk_id bs = ids" "\<forall>b\<in>set bs. bk_status b = Pending"
proof -
  have "\<forall>i. \<exists>b. i < length ids \<longrightarrow> b \<in> set (bookings (w_db w)) \<and> bk_id b = ids ! i \<and> bk_userId b = uid \<and> bk_status b = Pending"
    using own by (auto simp: owned_def)
  then obtain f where f: "\<And>i. i < length ids \<Longrightarrow>
      f i \<in> set (bookings (w_db w)) \<and> bk_id (f i) = ids ! i \<and> bk_userId (f i) = uid \<and> bk_status (f i) = Pending"
    by metis
  have room: "db_room 0 uid (w_db w)" using assms(3) by (rule db_room_mono) simp
  have len: "length order = length ids" using order by (rule order_length)
  have pre: "\<forall>i\<in>set order. 1 \<le> ids ! i \<and> ids ! i \<le> int4_max \<and>
      f i \<in> set (bookings (w_db w)) \<and> bk_id (f i) = ids ! i \<and> bk_userId (f i) = uid"
    using f own order(2) by simp
  have "calls_left si hits (length order + k) st" using assms(4) len by simp
  from get_phase [OF site room this pre, of n] obtain rs st' where
    run: "run_calls (\<lambda>i. api_getBooking si (Some token) (ids ! i)) order (st, w, n) = (rs, (st', w, n + length ids))"
      "calls_left si hits k st'" "\<forall>(i, r)\<in>set rs. r = Inr (f i)"
    unfolding len by blast
  from settle_all_pointwise [OF run(1,3) order(2)] obtain loaded where
    loaded: "settle_all (api_getBooking si (Some token)) order ids (st, w, n) = (loaded, (st', w, n + length ids))"
      "length loaded = length ids" "\<forall>i<length ids. loaded ! i = Inr (f i)" by blast
  have all: "loaded = map (\<lambda>i. Inr (f i)) [0..<length ids]"
    using loaded(2,3) by (intro nth_equalityI) simp_all
  show ?thesis
  proof (rule that [OF loaded(1) run(2)])
    show "multi_load loaded fresh_multi = \<lparr>mc_bookings = Some (map f [0..<length ids]), mc_error = None, mc_busy = False\<rparr>"
      by (auto simp: all multi_load_def fresh_multi_def list_ex_iff rejected_def comp_def)
    show "map bk_id (map f [0..<length ids]) = ids"
      using f by (intro nth_equalityI) simp_all
    show "\<forall>b\<in>set (map f [0..<length ids]). bk_status b = Pending"
      using f by auto
  qed
qed

lemma confirm_all_page:
  assumes site: "site_ok si hits ttl" "users_token si uid token"
    and "db_room (length ids + k) uid (w_db w)" and "calls_left si hits (length ids + k) st"
    and own: "\<forall>i<length ids. 1 \<le> ids ! i \<and> ids ! i \<le> int4_max \<and> owned uid Pending (w_db w) (sids i) (ids ! i)"
    and order: "distinct order" "set order = {..<length ids}" and ids: "distinct ids" "ids \<noteq> []"
    and page: "map bk_id bs = ids" "\<forall>b\<in>set bs. bk_status b = Pending"
  obtains st' w' where "handleConfirmAll (api_confirmBooking si (Some token)) order
      \<lparr>mc_bookings = Some bs, mc_error = None, mc_busy = False\<rparr> (st, w, n) =
      ((\<lparr>mc_bookings = Some bs, mc_error = None, mc_busy = False\<rparr>, ToTicket (Some (hd ids))), (st', w', n + length ids))"
    "db_room k uid (w_db w')" "\<forall>i<length ids. owned uid Confirmed (w_db w') (sids i) (ids ! i)"
proof -
  have len: "length order = length ids" using order by (rule order_length)
  have inj: "inj_on (\<lambda>i. ids ! i) (set order)"
    using ids(1) order(2) by (auto simp: inj_on_def nth_eq_iff_index_eq)
  have pre: "\<forall>i\<in>set order. 1 \<le> ids ! i \<and> ids ! i \<le> int4_max \<and> owned uid Pending (w_db w) (sids i) (ids ! i)"
    using own order(2) by simp
  from confirm_phase [OF site _ _ pre order(1) inj, of k st n] assms(3,4) obtain rs st' w' where
    run: "run_calls (\<lambda>i. api_confirmBooking si (Some token) (ids ! i)) order (st, w, n) = (rs, (st', w', n + length ids))"
      "db_room k uid (w_db w')" "\<forall>(i, r)\<in>set rs. \<not> rejected r"
      "\<forall>i\<in>set order. owned uid Confirmed (w_db w') (sids i) (ids ! i)"
    unfolding len by blast
  from settle_all_pointwise [OF run(1,3) order(2)] obtain results where
    r: "settle_all (api_confirmBooking si (Some token)) order ids (st, w, n) = (results, (st', w', n + length ids))"
      "length results = length ids" "\<forall>i<length ids. \<not> rejected (results ! i)" by blast
  have none: "filter rejected results = []"
    using r(2,3) by (auto simp: filter_empty_conv in_set_conv_nth)
  have pending: "pending_of \<lparr>mc_bookings = Some bs, mc_error = None, mc_busy = False\<rparr> = bs"
    using page(2) by (auto simp: pending_of_def intro: filter_True)
  obtain b bs' where bs: "bs = b # bs'" "hd ids = bk_id b"
    using page(1) ids(2) by (cases bs) auto
  have "handleConfirmAll (api_confirmBooking si (Some token)) order
      \<lparr>mc_bookings = Some bs, mc_error = None, mc_busy = False\<rparr> (st, w, n) =
      ((\<lparr>mc_bookings = Some bs, mc_error = None, mc_busy = False\<rparr>, ToTicket (Some (hd ids))), (st', w', n + length ids))"
    unfolding handleConfirmAll_def pending Let_def page(1) r(1) by (simp add: none bs)
  with run(2,4) order(2) that show ?thesis by simp
qed

lemma checkout_url_read:
  assumes "number_reads_ids lib" and "ids \<noteq> []" and "\<forall>i\<in>set ids. 1 \<le> i \<and> i \<le> int4_max"
  shows "checkout_ids lib (Some (checkout_query ids)) = ids"
proof -
  have "text_number lib (show_int i) = Some (of_int i)" if "i \<in> set ids" for i
    using that assms(1,3) unfolding number_reads_ids_def by auto
  moreover have "0 < i" if "i \<in> set ids" for i using that assms(3) by auto
  ultimately show ?thesis using assms(2) by (intro read_checkout_query)
qed

lemma reserved_page:
  assumes site: "site_ok si hits ttl" "users_token si uid token"
    and left: "calls_left si hits (3 * length (pk_selected p)) st" and room: "db_room (3 * length (pk_selected p)) uid (w_db w)"
    and sel: "pk_selected p \<noteq> []" "distinct (map seat_id (pk_selected p))"
      "\<forall>s\<in>set (pk_selected p). 1 \<le> seat_id s \<and> seat_id s \<le> int4_max \<and>
         (\<exists>x. seat_at (w_db w) (seat_id s) = Some x \<and> seat_status x = Available)"
  obtains ids q st1 w1 where
    "handleReserve True ev (api_reserveSeat si (Some token)) meanwhile p (st, w, n) =
      ((q, if length ids = 1 then ToReview (hd ids) else ToCheckout (checkout_query ids) None, False),
       (st1, w1, n + length (pk_selected p)))"
    "length ids = length (pk_selected p)" "ids \<noteq> []" "distinct ids"
    "checkout_ids (si_lib si) (Some (checkout_query ids)) = ids"
    "calls_left si hits (length ids + length (pk_selected p)) st1"
    "db_room (length (pk_selected p) + length (pk_selected p)) uid (w_db w1)"
    "\<forall>i<length ids. 1 \<le> ids ! i \<and> ids ! i \<le> int4_max \<and> owned uid Pending (w_db w1) (seat_id (pk_selected p ! i)) (ids ! i)"
proof -
  let ?sel = "pk_selected p"
  let ?n = "length ?sel"
  define ids where "ids = map (\<lambda>i. bookings_seq (w_db w) + int i) [0..<?n]"
  let ?seat = "\<lambda>i. seat_id (?sel ! i)"
  have three: "?n + (?n + ?n) = 3 * ?n" by simp
  from reserve_phase [OF site, of ?sel "?n + ?n" st w n] left room sel(2,3) obtain st1 w1 where
    one: "call_results (api_reserveSeat si (Some token)) ?sel (st, w, n) = (map (\<lambda>i. Inr (bookings_seq (w_db w) + int i)) [0..<?n],
        (st1, w1, n + ?n))"
      "calls_left si hits (?n + ?n) st1" "db_room (?n + ?n) uid (w_db w1)"
      "\<forall>i<?n. owned uid Pending (w_db w1) (?seat i) (bookings_seq (w_db w) + int i)"
    unfolding three by blast
  have ids: "length ids = ?n" "ids \<noteq> []" "distinct ids"
    using sel(1) by (simp_all add: ids_def distinct_map inj_on_def)
  have "1 \<le> bookings_seq (w_db w)" "bookings_seq (w_db w) + int (3 * ?n) \<le> int4_max"
    using room consistentD(6) by (simp_all add: db_room_def)
  then have range: "1 \<le> i \<and> i \<le> int4_max" if "i \<in> set ids" for i
    using that by (auto simp: ids_def)
  have own: "\<forall>i<length ids. 1 \<le> ids ! i \<and> ids ! i \<le> int4_max \<and> owned uid Pending (w_db w1) (?seat i) (ids ! i)"
  proof (intro allI impI)
    fix i assume i: "i < length ids"
    then have "ids ! i = bookings_seq (w_db w) + int i" by (simp add: ids_def)
    with one(4) i ids(1) have "owned uid Pending (w_db w1) (?seat i) (ids ! i)" by simp
    with range [OF nth_mem [OF i]] show "1 \<le> ids ! i \<and> ids ! i \<le> int4_max \<and> owned uid Pending (w_db w1) (?seat i) (ids ! i)"
      by simp
  qed
  let ?q = "(meanwhile (p\<lparr>pk_reserving := True, pk_error := None\<rparr>))\<lparr>pk_reserving := False\<rparr>"
  let ?nav = "if length ids = 1 then ToReview (hd ids) else ToCheckout (checkout_query ids) None"
  have reserve: "handleReserve True ev (api_reserveSeat si (Some token)) meanwhile p (st, w, n) =
      ((?q, ?nav, False), (st1, w1, n + ?n))"
    using sel(1) by (simp add: handleReserve_def reserve_selected_eq one(1) booked_ids_Inr failed_labels_Inr finish_reserve_def Let_def ids_def)
  have url: "checkout_ids (si_lib si) (Some (checkout_query ids)) = ids"
    using site(1) ids(2) range by (intro checkout_url_read) (auto simp: site_ok_def)
  have "calls_left si hits (length ids + ?n) st1" using one(2) ids(1) by simp
  with reserve ids url own one(3) show thesis by (intro that)
qed

text \<open>Loading the checkout and confirming everything on it.\<close>

lemma checked_out:
  assumes site: "site_ok si hits ttl" "users_token si uid token"
    and room: "db_room (length ids + length ids) uid (w_db w)" and left: "calls_left si hits (length ids + length ids) st"
    and own: "\<forall>i<length ids. 1 \<le> ids ! i \<and> ids ! i \<le> int4_max \<and> owned uid Pending (w_db w) (sids i) (ids ! i)"
    and ids: "distinct ids" "ids \<noteq> []"
    and orders: "distinct o1" "set o1 = {..<length ids}" "distinct o2" "set o2 = {..<length ids}"
  shows "\<exists>loaded s2 page st' w'. settle_all (api_getBooking si (Some token)) o1 ids (st, w, n) = (loaded, s2) \<and>
    handleConfirmAll (api_confirmBooking si (Some token)) o2 (multi_load loaded fresh_multi) s2 =
      ((page, ToTicket (Some (hd ids))), (st', w', n + 2 * length ids)) \<and>
    mc_error page = None \<and> consistent (w_db w') \<and> (\<forall>i<length ids. owned uid Confirmed (w_db w') (sids i) (ids ! i))"
proof -
  obtain loaded st2 bs where load: "settle_all (api_getBooking si (Some token)) o1 ids (st, w, n) = (loaded, (st2, w, n + length ids))"
    "calls_left si hits (length ids) st2" "multi_load loaded fresh_multi = \<lparr>mc_bookings = Some bs, mc_error = None, mc_busy = False\<rparr>"
    "map bk_id bs = ids" "\<forall>b\<in>set bs. bk_status b = Pending"
    by (rule loaded_page [OF site room left own orders(1,2)])
  have room2: "db_room (length ids + 0) uid (w_db w)" and left2: "calls_left si hits (length ids + 0) st2"
    using db_room_mono [OF room, of "length ids"] load(2) by simp_all
  obtain st3 w3 where confirm: "handleConfirmAll (api_confirmBooking si (Some token)) o2
      \<lparr>mc_bookings = Some bs, mc_error = None, mc_busy = False\<rparr> (st2, w, n + length ids) =
      ((\<lparr>mc_bookings = Some bs, mc_error = None, mc_busy = False\<rparr>, ToTicket (Some (hd ids))),
       (st3, w3, n + length ids + length ids))"
    "db_room 0 uid (w_db w3)" "\<forall>i<length ids. owned uid Confirmed (w_db w3) (sids i) (ids ! i)"
    by (rule confirm_all_page [OF site room2 left2 own orders(3,4) ids load(4,5)])
  have "n + length ids + length ids = n + 2 * length ids" by simp
  note page = confirm(1) [unfolded this, folded load(3)]
  have "consistent (w_db w3)" "mc_error (multi_load loaded fresh_multi) = None"
    using confirm(2) load(3) by (simp_all add: db_room_def)
  with load(1) page confirm(3) show ?thesis by blast
qed


definition demo_site :: "(hold_job list, kafka_message list, plain_redis, nat) site" where
  "demo_site = \<lparr>si_schemas = demo_schemas, si_env = open_env, si_services = quiet_services,
     si_redis = plain_redis, si_limits = demo_limits, si_surroundings = (\<lambda>n. demo_surroundings),
     si_lib = page_lib, si_dates = demo_dates, si_ip = ''10.0.0.1''\<rparr>"

lemma demo_site_ok: "site_ok demo_site fst snd"
  using page_lib_reads demo_dates_ok open_env_ok(1) plain_redis_laws
  by (simp add: site_ok_def demo_site_def schemas_read_def demo_schemas_def)

lemma demo_users_token: "users_token demo_site 1 ''1''"
  by (simp add: users_token_def demo_site_def signAuthToken_def open_env_def demo_env_def show_int_def show_nat.simps digit_def)

definition demo_picker :: picker where
  "demo_picker = \<lparr>pk_seats = None, pk_error = None, pk_selected = [demo_seat 1 Available 0, demo_seat 2 Available 0],
     pk_reserving = False\<rparr>"


subsection \<open>A change of a seat reaches the seat map\<close>

text \<open>The payload of a broadcast, \<open>JSON.stringify(msg)\<close>, as the value it is the text of.\<close>

definition frame_json :: "seat_update \<Rightarrow> json" where
  "frame_json msg = JObj
     [(''type'', JStr ''seat.updated''), (''seatId'', case su_seatId msg of None \<Rightarrow> JNull | Some q \<Rightarrow> JNum (Some q)),
      (''eventId'', JNum (Some (su_eventId msg))), (''status'', JStr (su_status msg))]"

definition read_seat_status :: "json \<Rightarrow> seat_status option" where
  "read_seat_status v = (case v of
      JStr s \<Rightarrow> List.find (\<lambda>st. seat_status_text st = s) [Available, Held, Booked]
    | _ \<Rightarrow> None)"

text \<open>
  A frame at the page: \<open>onUpdate\<close> is the page's \<open>handleLiveUpdate\<close>. The backend sends whole seat
  ids and the three status words only; other values are left out here.
\<close>

definition receive_live :: "js_lib \<Rightarrow> string \<Rightarrow> picker \<Rightarrow> picker" where
  "receive_live lib data p =
     (case on_live_message lib data of
        Some (Some seatId, Some status) \<Rightarrow>
          (case (read_num seatId, read_seat_status status) of
             (Some i, Some st) \<Rightarrow> handleLiveUpdate i st p
           | _ \<Rightarrow> p)
      | _ \<Rightarrow> p)"

lemma read_seat_status_text [simp]: "read_seat_status (JStr (seat_status_text st)) = Some st"
  by (cases st) (simp_all add: read_seat_status_def)

lemma on_live_message_frame:
  "JSON_parse lib data = Some (frame_json msg) \<Longrightarrow> on_live_message lib data =
     Some (Some (case su_seatId msg of None \<Rightarrow> JNull | Some q \<Rightarrow> JNum (Some q)), Some (JStr (su_status msg)))"
  by (simp add: on_live_message_def frame_json_def)

lemma receive_live_frame:
  assumes "JSON_parse lib data = Some (frame_json \<lparr>su_seatId = Some (of_int i), su_eventId = ev, su_status = seat_status_text st\<rparr>)"
  shows "receive_live lib data p = handleLiveUpdate i st p"
proof -
  have "read_num (JNum (Some (of_int i))) = Some i"
    using read_json_int [of i] unfolding json_int_def .
  then show ?thesis
    unfolding receive_live_def on_live_message_frame [OF assms]
    by (simp only: option.case prod.case seat_update.simps read_seat_status_text)
qed

text \<open>
  C16. A broadcast of a seat's new status shows on a page that has loaded its seats: that seat has
  the new status on the map and the other seats are as they were; when the seat is no longer
  available it leaves the selection, which is otherwise the same, and clicking it does nothing.
\<close>

theorem broadcast_updates_picker:
  assumes "JSON_parse lib data = Some (frame_json \<lparr>su_seatId = Some (of_int i), su_eventId = ev, su_status = seat_status_text st\<rparr>)"
    and "pk_seats p = Some rows"
  shows "let p' = receive_live lib data p
    in pk_seats p' = Some (map (\<lambda>s. if seat_id s = i then s\<lparr>seat_status := st\<rparr> else s) rows) \<and>
       pk_selected p' = (if st = Available then pk_selected p else filter (\<lambda>s. seat_id s \<noteq> i) (pk_selected p)) \<and>
       (st \<noteq> Available \<longrightarrow> (\<forall>s\<in>set (the (pk_seats p')). seat_id s = i \<longrightarrow> toggleSeat s p' = p'))"
proof -
  show ?thesis
    unfolding Let_def receive_live_frame [OF assms(1)] handleLiveUpdate_seats assms(2) option.map option.sel
    by (intro conjI refl handleLiveUpdate_selected impI ballI toggleSeat_idle) (simp only: live_row_status not_False_eq_True)
qed

definition frame_lib :: js_lib where
  "frame_lib = page_lib\<lparr>JSON_parse :=
     (\<lambda>s. Some (frame_json \<lparr>su_seatId = Some (of_int 2), su_eventId = 1, su_status = seat_status_text Held\<rparr>))\<rparr>"

theorem broadcast_updates_picker_witness:
  "pk_selected (receive_live frame_lib ''{}'' (seats_loaded [demo_seat 1 Available 0, demo_seat 2 Available 0] demo_picker))
     = [demo_seat 1 Available 0]"
proof -
  have "JSON_parse frame_lib ''{}'' =
      Some (frame_json \<lparr>su_seatId = Some (of_int 2), su_eventId = 1, su_status = seat_status_text Held\<rparr>)"
    by (simp add: frame_lib_def)
  from broadcast_updates_picker [OF this,
      of "seats_loaded [demo_seat 1 Available 0, demo_seat 2 Available 0] demo_picker"
        "[demo_seat 1 Available 0, demo_seat 2 Available 0]"]
  show ?thesis by (simp add: seats_loaded_def demo_picker_def demo_seat_def Let_def)
qed

end
