(* ===== verification/Scripts.thy ===== *)
theory Scripts
  imports Demo Complex_Main
begin

text \<open>
  The scripts beside the backend: the seed of the load test (\<open>backend/scripts/seed.ts\<close>), the
  baseline of the migrations (\<open>backend/scripts/baseline-migrations.ts\<close>) and the user pool of the
  load tests (\<open>load-test/*.js\<close>). Ids that a sequence draws, the hash and the outcome of a request
  are parameters.
\<close>

subsection \<open>The seed\<close>

definition SECTIONS :: nat where "SECTIONS = 100"
definition ROWS :: nat where "ROWS = 100"
definition SEATS_PER_ROW :: nat where "SEATS_PER_ROW = 40"
definition VENUE_NAME :: string where "VENUE_NAME = ''Load Test Arena''"
definition EVENT_NAME :: string where "EVENT_NAME = ''Load Test Event''"

text \<open>
  INSERT ... WHERE NOT EXISTS ... RETURNING id, then the id returned or the id of the first row with
  that name. \<open>i\<close> is the next value of the sequence.
\<close>

definition seed_venue :: "int \<Rightarrow> int \<Rightarrow> db \<Rightarrow> int \<times> db" where
  "seed_venue i now d =
     (case first_row (filter (\<lambda>v. venue_name v = VENUE_NAME) (venues d)) of
        Some v \<Rightarrow> (venue_id v, d)
      | None \<Rightarrow> (i, d\<lparr>venues := venues d @
          [\<lparr>venue_id = i, venue_name = VENUE_NAME, venue_city = ''Test City'', venue_createdAt = now\<rparr>]\<rparr>))"

definition seed_event :: "int \<Rightarrow> int \<Rightarrow> int \<Rightarrow> db \<Rightarrow> int \<times> db" where
  "seed_event i venueId now d =
     (case first_row (filter (\<lambda>e. event_name e = EVENT_NAME) (events d)) of
        Some e \<Rightarrow> (event_id e, d)
      | None \<Rightarrow> (i, d\<lparr>events := events d @
          [\<lparr>event_id = i, event_venueId = venueId, event_name = EVENT_NAME,
            event_startsAt = now + 30 * 86400000, event_status = Scheduled, event_createdAt = now\<rparr>]\<rparr>))"

text \<open>The rows of the CROSS JOIN, and INSERT ... ON CONFLICT DO NOTHING on the position of a seat.\<close>

definition seed_positions :: "nat \<Rightarrow> nat \<Rightarrow> nat \<Rightarrow> (string \<times> string \<times> int) list" where
  "seed_positions secs rows per =
     [(CHR ''S'' # show_nat sec, CHR ''R'' # show_nat row, int n). sec \<leftarrow> [1..<Suc secs], row \<leftarrow> [1..<Suc rows], n \<leftarrow> [1..<Suc per]]"

definition seat_position :: "seat_row \<Rightarrow> int \<times> string \<times> string \<times> int" where
  "seat_position s = (seat_eventId s, seat_section s, seat_rowLabel s, seat_seatNumber s)"

fun insert_seats :: "(nat \<Rightarrow> int) \<Rightarrow> int \<Rightarrow> int \<Rightarrow> (string \<times> string \<times> int) list \<Rightarrow> nat \<Rightarrow> seat_row list \<Rightarrow> nat \<times> seat_row list" where
  "insert_seats ids ev now [] k rows = (0, rows)"
| "insert_seats ids ev now ((sec, row, n) # ps) k rows =
     (if (ev, sec, row, n) \<in> seat_position ` set rows then insert_seats ids ev now ps (Suc k) rows
      else (case insert_seats ids ev now ps (Suc k)
                   (rows @ [\<lparr>seat_id = ids k, seat_eventId = ev, seat_section = sec, seat_rowLabel = row,
                     seat_seatNumber = n, seat_status = Available, seat_version = 0, seat_createdAt = now\<rparr>]) of
              (c, rows') \<Rightarrow> (Suc c, rows')))"

text \<open>The script: the number of seats inserted and the database it leaves.\<close>

definition seed :: "int \<Rightarrow> int \<Rightarrow> (nat \<Rightarrow> int) \<Rightarrow> int \<Rightarrow> db \<Rightarrow> nat \<times> db" where
  "seed vi ei ids now d =
     (case seed_venue vi now d of (venueId, d1) \<Rightarrow>
        (case seed_event ei venueId now d1 of (eventId, d2) \<Rightarrow>
           (case insert_seats ids eventId now (seed_positions SECTIONS ROWS SEATS_PER_ROW) 0 (seats d2) of
              (c, rows) \<Rightarrow> (c, d2\<lparr>seats := rows\<rparr>))))"

subsection \<open>What the seed inserts\<close>

lemma seed_positions_length: "length (seed_positions secs rows per) = secs * rows * per"
  by (simp add: seed_positions_def length_concat sum_list_triv comp_def)

lemma distinct_concat_map:
  "distinct xs \<Longrightarrow> (\<And>x. x \<in> set xs \<Longrightarrow> distinct (f x)) \<Longrightarrow>
   (\<And>x y. x \<in> set xs \<Longrightarrow> y \<in> set xs \<Longrightarrow> x \<noteq> y \<Longrightarrow> set (f x) \<inter> set (f y) = {}) \<Longrightarrow> distinct (concat (map f xs))"
  by (induction xs) auto

lemma seed_positions_distinct: "distinct (seed_positions secs rows per)"
  unfolding seed_positions_def
  by (intro distinct_concat_map distinct_upt) (auto simp: distinct_map inj_on_def dest: show_nat_inj)

lemma insert_seats_spec:
  assumes "distinct ps" and "insert_seats ids ev now ps k rows = (c, rows')"
  shows "\<exists>new. rows' = rows @ new \<and> c = length new \<and>
      map (\<lambda>s. (seat_section s, seat_rowLabel s, seat_seatNumber s)) new =
        filter (\<lambda>p. (ev, p) \<notin> seat_position ` set rows) ps \<and>
      (\<forall>s\<in>set new. seat_eventId s = ev \<and> seat_status s = Available \<and> seat_version s = 0) \<and>
      (\<exists>js. map seat_id new = map ids js \<and> distinct js \<and> set js \<subseteq> {k..<k + length ps})"
  using assms
proof (induction ps arbitrary: k rows c rows')
  case Nil
  then show ?case by simp
next
  case (Cons p ps)
  obtain sec row n where p: "p = (sec, row, n)" by (cases p) auto
  show ?case
  proof (cases "(ev, sec, row, n) \<in> seat_position ` set rows")
    case True
    with Cons.prems have "insert_seats ids ev now ps (Suc k) rows = (c, rows')" "distinct ps" by (simp_all add: p)
    from Cons.IH [OF this(2,1)] obtain new js where "rows' = rows @ new" "c = length new"
      "map (\<lambda>s. (seat_section s, seat_rowLabel s, seat_seatNumber s)) new =
        filter (\<lambda>p. (ev, p) \<notin> seat_position ` set rows) ps"
      "\<forall>s\<in>set new. seat_eventId s = ev \<and> seat_status s = Available \<and> seat_version s = 0"
      "map seat_id new = map ids js" "distinct js" "set js \<subseteq> {Suc k..<Suc k + length ps}" by blast
    with True show ?thesis
      by (intro exI [of _ new] conjI exI [of _ js]) (auto simp: p)
  next
    case False
    let ?s = "\<lparr>seat_id = ids k, seat_eventId = ev, seat_section = sec, seat_rowLabel = row,
                     seat_seatNumber = n, seat_status = Available, seat_version = 0, seat_createdAt = now\<rparr>"
    from False Cons.prems(2) obtain c' where c': "insert_seats ids ev now ps (Suc k) (rows @ [?s]) = (c', rows')" "c = Suc c'"
      by (auto simp: p split: prod.splits)
    have "distinct ps" "p \<notin> set ps" using Cons.prems(1) by simp_all
    from Cons.IH [OF this(1) c'(1)] obtain new js where new: "rows' = (rows @ [?s]) @ new" "c' = length new"
      "map (\<lambda>s. (seat_section s, seat_rowLabel s, seat_seatNumber s)) new =
        filter (\<lambda>p. (ev, p) \<notin> seat_position ` set (rows @ [?s])) ps"
      "\<forall>s\<in>set new. seat_eventId s = ev \<and> seat_status s = Available \<and> seat_version s = 0"
      "map seat_id new = map ids js" "distinct js" "set js \<subseteq> {Suc k..<Suc k + length ps}" by blast
    have "filter (\<lambda>p. (ev, p) \<notin> seat_position ` set (rows @ [?s])) ps =
        filter (\<lambda>p. (ev, p) \<notin> seat_position ` set rows) ps"
      using \<open>p \<notin> set ps\<close> by (intro filter_cong refl) (auto simp: p seat_position_def)
    with new False c'(2) show ?thesis
      by (intro exI [of _ "?s # new"] conjI exI [of _ "k # js"]) (auto simp: p)
  qed
qed


lemma insert_seats_covers:
  assumes "distinct ps" and "insert_seats ids ev now ps k rows = (c, rows')" and "p \<in> set ps"
  shows "(ev, p) \<in> seat_position ` set rows'"
proof -
  from insert_seats_spec [OF assms(1,2)] obtain new where new: "rows' = rows @ new"
    "map (\<lambda>s. (seat_section s, seat_rowLabel s, seat_seatNumber s)) new = filter (\<lambda>p. (ev, p) \<notin> seat_position ` set rows) ps"
    "\<forall>s\<in>set new. seat_eventId s = ev" by blast
  show ?thesis
  proof (cases "(ev, p) \<in> seat_position ` set rows")
    case False
    with assms(3) have "p \<in> set (map (\<lambda>s. (seat_section s, seat_rowLabel s, seat_seatNumber s)) new)"
      unfolding new(2) by simp
    with new(3) show ?thesis unfolding new(1) by (fastforce simp: seat_position_def)
  qed (auto simp: new(1))
qed

lemma insert_seats_covered:
  "\<forall>p\<in>set ps. (ev, p) \<in> seat_position ` set rows \<Longrightarrow> insert_seats ids ev now ps k rows = (0, rows)"
  by (induction ps arbitrary: k) auto

lemma seed_venue_again:
  assumes "seed_venue vi now d = (v, d1)"
  shows "seats d1 = seats d \<and> bookings d1 = bookings d \<and> users d1 = users d \<and> bookings_seq d1 = bookings_seq d \<and>
    events d1 = events d \<and> (\<forall>d'. venues d' = venues d1 \<longrightarrow> seed_venue vi' now' d' = (v, d'))"
  using assms by (auto simp: seed_venue_def split: option.splits)

lemma seed_event_again:
  assumes "seed_event ei v now d = (e, d2)"
  shows "seats d2 = seats d \<and> bookings d2 = bookings d \<and> users d2 = users d \<and> bookings_seq d2 = bookings_seq d \<and>
    venues d2 = venues d \<and> (\<forall>d'. events d' = events d2 \<longrightarrow> seed_event ei' v' now' d' = (e, d'))"
  using assms by (auto simp: seed_event_def split: option.splits)

lemma seed_unfold:
  obtains v d1 e d2 c rows where "seed_venue vi now d = (v, d1)" "seed_event ei v now d1 = (e, d2)"
    "insert_seats ids e now (seed_positions SECTIONS ROWS SEATS_PER_ROW) 0 (seats d2) = (c, rows)"
    "seed vi ei ids now d = (c, d2\<lparr>seats := rows\<rparr>)"
proof -
  obtain v d1 where v: "seed_venue vi now d = (v, d1)" by (cases "seed_venue vi now d")
  obtain e d2 where e: "seed_event ei v now d1 = (e, d2)" by (cases "seed_event ei v now d1")
  obtain c rows where i: "insert_seats ids e now (seed_positions SECTIONS ROWS SEATS_PER_ROW) 0 (seats d2) = (c, rows)"
    by (cases "insert_seats ids e now (seed_positions SECTIONS ROWS SEATS_PER_ROW) 0 (seats d2)")
  show ?thesis by (rule that [OF v e i]) (simp only: seed_def v e i prod.case)
qed

lemma seed_size: "length (seed_positions SECTIONS ROWS SEATS_PER_ROW) = 400000"
  by (simp add: seed_positions_length SECTIONS_def ROWS_def SEATS_PER_ROW_def)

text \<open>
  Seeding is idempotent: whatever is in the database, a second run, with whatever ids and at
  whatever time, inserts no seat and leaves the database as the first run left it.
\<close>

theorem seed_idempotent:
  "seed vi' ei' ids' now' (snd (seed vi ei ids now d)) = (0, snd (seed vi ei ids now d))"
proof -
  obtain v d1 e d2 c rows where s: "seed_venue vi now d = (v, d1)" "seed_event ei v now d1 = (e, d2)"
    "insert_seats ids e now (seed_positions SECTIONS ROWS SEATS_PER_ROW) 0 (seats d2) = (c, rows)"
    "seed vi ei ids now d = (c, d2\<lparr>seats := rows\<rparr>)" by (rule seed_unfold)
  let ?d = "d2\<lparr>seats := rows\<rparr>"
  have v: "seed_venue vi' now' ?d = (v, ?d)"
    using seed_venue_again [OF s(1)] seed_event_again [OF s(2)] by simp
  have e: "seed_event ei' v now' ?d = (e, ?d)"
    using seed_event_again [OF s(2)] by simp
  have "insert_seats ids' e now' (seed_positions SECTIONS ROWS SEATS_PER_ROW) 0 rows = (0, rows)"
    using insert_seats_covers [OF seed_positions_distinct s(3)] by (intro insert_seats_covered) blast
  then show ?thesis
    unfolding s(4) snd_conv by (simp add: seed_def v e)
qed

text \<open>
  The first run on a database without the load test's event inserts the 400 000 seats, all
  available, and keeps the bookings and the seats consistent, provided the sequence of the seats
  draws fresh ids that fit their column.
\<close>

theorem seed_inserts_all:
  assumes "consistent d" and "\<forall>e\<in>set (events d). event_name e \<noteq> EVENT_NAME" and "\<forall>s\<in>set (seats d). seat_eventId s \<noteq> ei"
    and "inj ids" and "\<forall>k. int4_ok (ids k) \<and> ids k \<notin> seat_id ` set (seats d) \<or> 400000 \<le> k"
  shows "fst (seed vi ei ids now d) = 400000 \<and> consistent (snd (seed vi ei ids now d)) \<and>
    (\<exists>new. seats (snd (seed vi ei ids now d)) = seats d @ new \<and> length new = 400000 \<and>
       (\<forall>s\<in>set new. seat_eventId s = ei \<and> seat_status s = Available \<and> seat_version s = 0))"
proof -
  obtain v d1 e d2 c rows where s: "seed_venue vi now d = (v, d1)" "seed_event ei v now d1 = (e, d2)"
    "insert_seats ids e now (seed_positions SECTIONS ROWS SEATS_PER_ROW) 0 (seats d2) = (c, rows)"
    "seed vi ei ids now d = (c, d2\<lparr>seats := rows\<rparr>)" by (rule seed_unfold)
  let ?ps = "seed_positions SECTIONS ROWS SEATS_PER_ROW"
  have frame: "seats d2 = seats d" "bookings d2 = bookings d" "users d2 = users d" "bookings_seq d2 = bookings_seq d"
    and ev: "events d1 = events d"
    using seed_venue_again [OF s(1)] seed_event_again [OF s(2)] by simp_all
  have "filter (\<lambda>e. event_name e = EVENT_NAME) (events d1) = []"
    using assms(2) by (simp add: ev filter_empty_conv)
  with s(2) have e: "e = ei" by (simp add: seed_event_def)
  from insert_seats_spec [OF seed_positions_distinct s(3)] obtain new js where new: "rows = seats d @ new" "c = length new"
    "map (\<lambda>s. (seat_section s, seat_rowLabel s, seat_seatNumber s)) new = filter (\<lambda>p. (e, p) \<notin> seat_position ` set (seats d)) ?ps"
    "\<forall>s\<in>set new. seat_eventId s = e \<and> seat_status s = Available \<and> seat_version s = 0"
    "map seat_id new = map ids js" "distinct js" "set js \<subseteq> {0..<length ?ps}"
    unfolding frame by auto
  have "filter (\<lambda>p. (e, p) \<notin> seat_position ` set (seats d)) ?ps = ?ps"
    using assms(3) by (intro filter_True) (auto simp: e seat_position_def)
  with new(3) have "map (\<lambda>s. (seat_section s, seat_rowLabel s, seat_seatNumber s)) new = ?ps" by (simp only:)
  then have len: "length new = 400000"
    using seed_size by (metis length_map)
  have js: "int4_ok (ids k) \<and> ids k \<notin> seat_id ` set (seats d)" if "k \<in> set js" for k
  proof -
    have "k < 400000" using that new(7) unfolding seed_size by auto
    with assms(5) show ?thesis by (meson not_less)
  qed
  have "fresh_seat d x" if "x \<in> set new" for x
  proof -
    have "seat_id x \<in> set (map ids js)" using that unfolding new(5) [symmetric] by simp
    then obtain k where "k \<in> set js" "seat_id x = ids k" by auto
    with js [of k] new(4) that show ?thesis by (force simp: fresh_seat_def image_iff)
  qed
  moreover have "distinct (map seat_id new)"
    unfolding new(5) using new(6) assms(4) by (simp add: distinct_map inj_on_subset [OF assms(4)])
  ultimately have "consistent (d\<lparr>seats := seats d @ new\<rparr>)" by (intro consistent_new_seats [OF assms(1)]) simp_all
  then have "consistent (d2\<lparr>seats := rows\<rparr>)"
    by (simp add: consistent_def distinct_seats_def references_ok_def seat_matches_def live_bookings_def frame new(1))
  with new(1,2,4) len show ?thesis by (auto simp: s(4) e)
qed


theorem seed_inserts_all_witness:
  "fst (seed 9 9 (\<lambda>k. int k + 10) 0 demo_db) = 400000"
proof -
  have "\<forall>e\<in>set (events demo_db). event_name e \<noteq> EVENT_NAME" "\<forall>s\<in>set (seats demo_db). seat_eventId s \<noteq> 9"
    by (simp_all add: demo_defs demo_event_def EVENT_NAME_def)
  moreover have "inj (\<lambda>k. int k + 10)" by (simp add: inj_on_def)
  moreover have "\<forall>k. int4_ok (int k + 10) \<and> int k + 10 \<notin> seat_id ` set (seats demo_db) \<or> 400000 \<le> k"
    by (auto simp: demo_defs int4_ok_def int4_max_def)
  ultimately show ?thesis
    using seed_inserts_all [OF demo_consistent(1)] by blast
qed

subsection \<open>The baseline of the migrations\<close>

text \<open>
  The journal's entries, the rows of \<open>drizzle.__drizzle_migrations\<close> and the loop of the script.
  \<open>read_sql\<close> is the file of a tag (\<open>None\<close>: \<open>readFileSync\<close> throws), \<open>sha256\<close> the hash; the flag of
  the result says that the loop ran to the end.
\<close>

record journal_entry =
  je_tag :: string
  je_when :: int

record migration_row =
  mg_hash :: string
  mg_created_at :: int

fun baseline ::
  "(string \<Rightarrow> string option) \<Rightarrow> (string \<Rightarrow> string) \<Rightarrow> journal_entry list \<Rightarrow> migration_row list \<Rightarrow>
   string list \<times> bool \<times> migration_row list" where
  "baseline read_sql sha256 [] rows = ([], True, rows)"
| "baseline read_sql sha256 (entry # rest) rows =
     (case read_sql (je_tag entry) of
        None \<Rightarrow> ([], False, rows)
      | Some sql \<Rightarrow>
          (let hash = sha256 sql;
               inserted = hash \<notin> mg_hash ` set rows;
               rows' = (if inserted then rows @ [\<lparr>mg_hash = hash, mg_created_at = je_when entry\<rparr>] else rows);
               line = (if inserted then ''baselined '' @ je_tag entry @ '' (already-applied)''
                       else ''already baselined: '' @ je_tag entry)
           in case baseline read_sql sha256 rest rows' of (lines, ok, rows'') \<Rightarrow> (line # lines, ok, rows'')))"

text \<open>
  What the script relies on of drizzle's migrator, as its comment states it: an entry is applied
  again when the latest \<open>created_at\<close> of the table is older than the entry's \<open>when\<close>.
\<close>

definition migrator_applies :: "migration_row list \<Rightarrow> journal_entry \<Rightarrow> bool" where
  "migrator_applies rows entry \<longleftrightarrow> (\<forall>r\<in>set rows. mg_created_at r < je_when entry)"

lemma baseline_records:
  assumes "baseline read_sql sha256 es rows = (lines, True, rows')"
  shows "set rows \<subseteq> set rows' \<and> (distinct (map mg_hash rows) \<longrightarrow> distinct (map mg_hash rows')) \<and>
    length lines = length es \<and>
    (\<forall>e\<in>set es. \<exists>sql. read_sql (je_tag e) = Some sql \<and> sha256 sql \<in> mg_hash ` set rows') \<and>
    mg_hash ` set rows' = mg_hash ` set rows \<union> {sha256 sql |sql e. e \<in> set es \<and> read_sql (je_tag e) = Some sql}"
  using assms
proof (induction es arbitrary: rows lines)
  case (Cons e es)
  then obtain sql lines' where sql: "read_sql (je_tag e) = Some sql" "length lines = Suc (length lines')"
    "baseline read_sql sha256 es
       (if sha256 sql \<notin> mg_hash ` set rows then rows @ [\<lparr>mg_hash = sha256 sql, mg_created_at = je_when e\<rparr>] else rows)
       = (lines', True, rows')"
    by (auto simp: Let_def split: option.splits prod.splits)
  from Cons.IH [OF sql(3)] sql(1,2) show ?case
    by (auto split: if_splits)
qed simp

lemma baseline_append:
  "baseline read_sql sha256 (es @ fs) rows = (lines, True, rows') \<Longrightarrow>
     \<exists>l1 r1. baseline read_sql sha256 es rows = (l1, True, r1) \<and> fst (snd (baseline read_sql sha256 fs r1)) \<and>
       rows' = snd (snd (baseline read_sql sha256 fs r1))"
  by (induction es arbitrary: rows lines) (fastforce simp: Let_def split: option.splits prod.splits if_splits)+

lemma baseline_done:
  "\<forall>e\<in>set es. \<exists>sql. read_sql (je_tag e) = Some sql \<and> sha256 sql \<in> mg_hash ` set rows \<Longrightarrow>
   baseline read_sql sha256 es rows = (map (\<lambda>e. ''already baselined: '' @ je_tag e) es, True, rows)"
  by (induction es) auto

text \<open>
  A baseline that runs to its end leaves the migrator nothing to do and can be repeated: no
  entry of the journal is applied again, each file's hash is recorded, once when it was so before,
  and a second run reports every entry as already baselined and leaves the table alone. The last
  entry's file must not have the hash of a file that was recorded before.
\<close>

theorem baseline_settles:
  assumes "baseline read_sql sha256 (es @ [e]) rows = (lines, True, rows')"
    and "\<forall>x\<in>set es. je_when x \<le> je_when e"
    and "\<forall>x\<in>set es. map_option sha256 (read_sql (je_tag x)) \<noteq> map_option sha256 (read_sql (je_tag e))"
    and "\<forall>r\<in>set rows. Some (mg_hash r) = map_option sha256 (read_sql (je_tag e)) \<longrightarrow> je_when e \<le> mg_created_at r"
  shows "(\<forall>x\<in>set (es @ [e]). \<not> migrator_applies rows' x) \<and>
    (distinct (map mg_hash rows) \<longrightarrow> distinct (map mg_hash rows')) \<and>
    baseline read_sql sha256 (es @ [e]) rows' = (map (\<lambda>x. ''already baselined: '' @ je_tag x) (es @ [e]), True, rows')"
proof -
  obtain l1 r1 where first: "baseline read_sql sha256 es rows = (l1, True, r1)"
    and last: "fst (snd (baseline read_sql sha256 [e] r1))" "rows' = snd (snd (baseline read_sql sha256 [e] r1))"
    using baseline_append [OF assms(1)] by blast
  from last obtain sql where sql: "read_sql (je_tag e) = Some sql" by (auto split: option.splits)
  note all = baseline_records [OF assms(1)] and r1 = baseline_records [OF first]
  have "\<exists>r\<in>set rows'. je_when e \<le> mg_created_at r"
  proof (cases "sha256 sql \<in> mg_hash ` set rows")
    case True
    then obtain r where "r \<in> set rows" "mg_hash r = sha256 sql" by auto
    with assms(4) sql all show ?thesis by auto
  next
    case False
    moreover have "sha256 sql \<noteq> sha256 sql'" if "x \<in> set es" "read_sql (je_tag x) = Some sql'" for x sql'
      using assms(3) sql that by fastforce
    ultimately have "sha256 sql \<notin> mg_hash ` set r1"
      using r1 by auto
    with last(2) sql show ?thesis by (simp add: Let_def)
  qed
  then have "\<not> migrator_applies rows' x" if "x \<in> set (es @ [e])" for x
    using assms(2) that by (fastforce simp: migrator_applies_def)
  moreover have "baseline read_sql sha256 (es @ [e]) rows' = (map (\<lambda>x. ''already baselined: '' @ je_tag x) (es @ [e]), True, rows')"
    using all by (intro baseline_done) blast
  ultimately show ?thesis using all by blast
qed

theorem baseline_settles_witness:
  "\<not> migrator_applies (snd (snd (baseline Some id [\<lparr>je_tag = ''a'', je_when = 5\<rparr>, \<lparr>je_tag = ''b'', je_when = 9\<rparr>] [])))
     \<lparr>je_tag = ''b'', je_when = 9\<rparr>"
proof -
  have "baseline Some id ([\<lparr>je_tag = ''a'', je_when = 5\<rparr>] @ [\<lparr>je_tag = ''b'', je_when = 9\<rparr>]) [] =
      ([''baselined a (already-applied)'', ''baselined b (already-applied)''], True,
       [\<lparr>mg_hash = ''a'', mg_created_at = 5\<rparr>, \<lparr>mg_hash = ''b'', mg_created_at = 9\<rparr>])"
    by (simp add: Let_def)
  from baseline_settles [OF this] this show ?thesis by simp
qed

subsection \<open>The users of a load test\<close>

definition REGISTER_CONCURRENCY :: nat where
  "REGISTER_CONCURRENCY = 20"

definition load_test_email :: "int \<Rightarrow> nat \<Rightarrow> string" where
  "load_test_email runId i = ''loadtest-'' @ show_int runId @ ''-'' @ show_nat i @ ''@example.com''"

text \<open>
  The array of tokens, the shared \<open>next\<close> and the index each worker is registering; \<open>up_asked\<close> is the
  history of the registrations, by email. A registration answers with a token (\<open>register\<close>); one
  that fails throws and ends the script, which is not a step.
\<close>

record user_pool =
  up_tokens :: "string option list"
  up_next :: nat
  up_waiting :: "nat \<rightharpoonup> nat"
  up_asked :: "string list"

definition pool_start :: "nat \<Rightarrow> user_pool" where
  "pool_start n = \<lparr>up_tokens = replicate n None, up_next = 0, up_waiting = Map.empty, up_asked = []\<rparr>"

inductive pool_step :: "nat \<Rightarrow> int \<Rightarrow> (string \<Rightarrow> string) \<Rightarrow> user_pool \<Rightarrow> user_pool \<Rightarrow> bool"
  for n :: nat and runId :: int and register :: "string \<Rightarrow> string" where
  ask: "w < REGISTER_CONCURRENCY \<Longrightarrow> up_waiting u w = None \<Longrightarrow> up_next u < n \<Longrightarrow>
     pool_step n runId register u
       (u\<lparr>up_next := up_next u + 1, up_waiting := (up_waiting u)(w \<mapsto> up_next u),
          up_asked := up_asked u @ [load_test_email runId (up_next u)]\<rparr>)"
| answer: "up_waiting u w = Some i \<Longrightarrow>
     pool_step n runId register u
       (u\<lparr>up_tokens := (up_tokens u)[i := Some (register (load_test_email runId i))], up_waiting := (up_waiting u)(w := None)\<rparr>)"

text \<open>
  \<open>setupClient\<close>: the connection takes the token of the cursor, modulo the number of tokens, and
  the next seat; every response makes it ask for the next one.
\<close>

definition client_token :: "'a list \<Rightarrow> nat \<Rightarrow> 'a" where
  "client_token tokens tokenCursor = tokens ! (tokenCursor mod length tokens)"

definition pool_inv :: "nat \<Rightarrow> int \<Rightarrow> (string \<Rightarrow> string) \<Rightarrow> user_pool \<Rightarrow> bool" where
  "pool_inv n runId register u \<longleftrightarrow>
     length (up_tokens u) = n \<and> up_next u \<le> n \<and> up_asked u = map (load_test_email runId) [0..<up_next u] \<and>
     ran (up_waiting u) \<subseteq> {..<up_next u} \<and>
     (\<forall>i<n. up_tokens u ! i =
        (if i < up_next u \<and> i \<notin> ran (up_waiting u) then Some (register (load_test_email runId i)) else None)) \<and>
     inj_on (up_waiting u) (dom (up_waiting u))"

lemma ran_upd_None: "inj_on m (dom m) \<Longrightarrow> m w = Some i \<Longrightarrow> ran (m(w := None)) = ran m - {i}"
  by (auto simp: ran_def inj_on_def dom_def split: if_splits) (metis option.inject)+

lemma pool_inv_step: "pool_step n runId register u u' \<Longrightarrow> pool_inv n runId register u \<Longrightarrow> pool_inv n runId register u'"
proof (induction rule: pool_step.induct)
  case (ask w u)
  then have "ran ((up_waiting u)(w \<mapsto> up_next u)) = insert (up_next u) (ran (up_waiting u))"
    by (simp add: ran_map_upd)
  moreover have "inj_on ((up_waiting u)(w \<mapsto> up_next u)) (dom ((up_waiting u)(w \<mapsto> up_next u)))"
    using ask by (auto simp: pool_inv_def inj_on_def ran_def dom_def)
  ultimately show ?case
    using ask by (auto simp: pool_inv_def less_Suc_eq)
next
  case (answer u w i)
  then have ran: "ran ((up_waiting u)(w := None)) = ran (up_waiting u) - {i}" and i: "i \<in> ran (up_waiting u)"
    by (auto simp: pool_inv_def ran_upd_None intro: ranI)
  moreover have "inj_on ((up_waiting u)(w := None)) (dom ((up_waiting u)(w := None)))"
    using answer by (auto simp: pool_inv_def inj_on_def)
  moreover have "i < up_next u" using i answer by (auto simp: pool_inv_def)
  ultimately show ?case
    using answer by (auto simp: pool_inv_def nth_list_update)
qed

interpretation pool_workers: invariant_system "\<lambda>u. u = pool_start n" "pool_step n runId register" "pool_inv n runId register"
    for n runId register
  by unfold_locales (simp add: pool_inv_def pool_start_def, erule pool_inv_step)

lemma load_test_email_inj: "inj (load_test_email runId)"
  by (rule injI) (simp add: load_test_email_def show_nat_inj)

text \<open>
  The pool of a load test is complete and has no account twice: in every interleaving of the
  workers each user is asked for once, under an email of its own; and when the workers have
  stopped, slot \<open>i\<close> holds the token of user \<open>i\<close>, so each of the first \<open>n\<close> connections drives
  another user.
\<close>

theorem user_pool_complete:
  assumes "reachable_from (\<lambda>u. u = pool_start n) (pool_step n runId register) u"
    and "n \<le> up_next u" and "up_waiting u = Map.empty"
  shows "up_tokens u = map (\<lambda>i. Some (register (load_test_email runId i))) [0..<n] \<and>
    distinct (up_asked u) \<and> length (up_asked u) = n \<and>
    (\<forall>c<n. client_token (up_tokens u) c = Some (register (load_test_email runId c)))"
proof -
  have inv: "pool_inv n runId register u"
    using assms(1) by (rule pool_workers.reachable_inv)
  with assms(2,3) have tokens: "up_tokens u = map (\<lambda>i. Some (register (load_test_email runId i))) [0..<n]"
    by (intro nth_equalityI) (auto simp: pool_inv_def)
  with inv assms(2) show ?thesis
    by (auto simp: pool_inv_def client_token_def distinct_map intro: inj_on_subset [OF load_test_email_inj])
qed

theorem user_pool_complete_witness:
  "client_token [Some (''t'' @ load_test_email 5 0)] 0 = Some (''t'' @ load_test_email 5 0)"
proof -
  let ?R = "reachable_from (\<lambda>u. u = pool_start 1) (pool_step 1 5 (\<lambda>e. ''t'' @ e))"
  have "?R (pool_start 1)" by (rule reach_init) simp
  from reach_step [OF this ask [of 0]] have "?R \<lparr>up_tokens = [None], up_next = 1, up_waiting = [0 \<mapsto> 0], up_asked = [load_test_email 5 0]\<rparr>"
    by (simp add: pool_start_def REGISTER_CONCURRENCY_def)
  from reach_step [OF this answer [of _ 0]] have "?R \<lparr>up_tokens = [Some (''t'' @ load_test_email 5 0)], up_next = 1,
      up_waiting = Map.empty, up_asked = [load_test_email 5 0]\<rparr>"
    by simp
  from user_pool_complete [OF this] show ?thesis by simp
qed

end
