(* ===== verification/Screens.thy ===== *)
theory Screens
  imports Wire
begin

text \<open>
  What the pages draw (the JSX of \<open>frontend/src/pages/*.tsx\<close> and \<open>components/*.tsx\<close>): for every
  state of a page, the tree of its texts, links, fields and buttons, each button with the handler
  it calls and whether it is disabled. Class names and styles are left out except where the code
  computes them, purely decorative boxes too; characters beyond ASCII are written with ASCII ones.
  The locale's date and time texts are a parameter.
\<close>

subsection \<open>The tree\<close>

text \<open>The handlers the buttons call.\<close>

datatype press =
    PressMode login_mode
  | PressSubmit
  | PressSeat seat_row
  | PressReserve
  | PressConfirm
  | PressCancel
  | PressConfirmAll
  | PressReleaseAll
  | PressLogOut

text \<open>
  \<open>Button press disabled label\<close>; \<open>SeatBox\<close> is the button of a seat in the map with its title;
  \<open>Field\<close> has its type, its least length and its value; \<open>Choice\<close> its options and its value.
\<close>

datatype view =
    Txt string
  | Pill string string
  | Link string "view list"
  | Button press bool "view list"
  | SeatBox seat_row string seat_button
  | Field string nat string
  | Choice "(string \<times> string) list" string
  | Box "view list"

fun links :: "view \<Rightarrow> string list" where
  "links (Link url vs) = url # concat (map links vs)"
| "links (Button p off vs) = concat (map links vs)"
| "links (Box vs) = concat (map links vs)"
| "links _ = []"

text \<open>The handlers the user can call now: a disabled button calls nothing.\<close>

fun presses :: "view \<Rightarrow> press list" where
  "presses (Link url vs) = concat (map presses vs)"
| "presses (Button p off vs) = (if off then [] else [p])"
| "presses (SeatBox seat title b) = (if sb_disabled b then [] else [PressSeat seat])"
| "presses (Box vs) = concat (map presses vs)"
| "presses _ = []"

fun texts :: "view \<Rightarrow> string list" where
  "texts (Txt t) = [t]"
| "texts (Pill style t) = [t]"
| "texts (Link url vs) = concat (map texts vs)"
| "texts (Button p off vs) = concat (map texts vs)"
| "texts (Box vs) = concat (map texts vs)"
| "texts _ = []"

text \<open>\<open>c && <x>\<close>, and the same on a text that may be missing: an empty text draws nothing.\<close>

definition when_true :: "bool \<Rightarrow> view list \<Rightarrow> view list" where
  "when_true c vs = (if c then vs else [])"

definition has_text :: "string option \<Rightarrow> bool" where
  "has_text t = (case t of None \<Rightarrow> False | Some s \<Rightarrow> s \<noteq> '''')"

definition error_line :: "string option \<Rightarrow> view list" where
  "error_line error = when_true (has_text error) [Txt (the error)]"

definition loading_line :: "bool \<Rightarrow> string option \<Rightarrow> view list" where
  "loading_line loaded error = when_true (\<not> loaded \<and> \<not> has_text error) [Txt ''Loading...'']"

definition error_or_loading :: "string option \<Rightarrow> view" where
  "error_or_loading error = Txt (case error of None \<Rightarrow> ''Loading...'' | Some e \<Rightarrow> e)"

lemmas view_defs = when_true_def error_line_def loading_line_def error_or_loading_def

record formats =
  fmt_day :: "int \<Rightarrow> string"             \<comment> \<open>\<open>toLocaleDateString\<close> with weekday, month, day\<close>
  fmt_day_time :: "int \<Rightarrow> string"        \<comment> \<open>\<open>toLocaleString\<close> with weekday to minute\<close>
  fmt_date :: "int \<Rightarrow> string"            \<comment> \<open>\<open>toLocaleDateString()\<close>\<close>
  fmt_time :: "int \<Rightarrow> string"            \<comment> \<open>\<open>toLocaleString()\<close>\<close>

subsection \<open>The frame\<close>

text \<open>\<open>StatusPill\<close>.\<close>

definition StatusPill :: "string \<Rightarrow> view" where
  "StatusPill status = Pill (pill_style status) status"

definition NavBar :: "session \<Rightarrow> view" where
  "NavBar se = Box
     ([Link ''/'' [Txt ''FlashSeat''],
       Box ([Link ''/events'' [Txt ''Browse'']] @
            when_true (se_user se \<noteq> None) [Link ''/bookings'' [Txt ''My bookings'']])] @
      (if se_user se \<noteq> None then [Button PressLogOut False [Txt ''Log out'']]
       else [Link ''/login'' [Txt ''Log in'']]))"

definition handleLogout :: "session \<Rightarrow> session \<times> page_move" where
  "handleLogout se = (logout se, ToPath ''/'')"

subsection \<open>Home, catalogue and event\<close>

definition event_path :: "int \<Rightarrow> string" where
  "event_path i = ''/events/'' @ show_int i"

definition HomePage :: "formats \<Rightarrow> event_listing list option \<Rightarrow> string option \<Rightarrow> view" where
  "HomePage fmt loaded error = Box
     ([Txt (''Tonight'' @ [CHR 0x27] @ ''s stage is waiting.''),
       Txt (''Find a seat before it'' @ [CHR 0x27] @ ''s someone else'' @ [CHR 0x27] @
            ''s -- live shows, real-time availability, held for a few minutes while you decide.''),
       Link ''/events'' [Txt ''Browse events''],
       Txt ''live tonight'',
       Txt ''Upcoming''] @
      error_line error @
      loading_line (loaded \<noteq> None) error @
      when_true (loaded = Some []) [Txt ''No events on sale right now.''] @
      map (\<lambda>ev. Link (event_path (le_id ev))
             [Txt (le_name ev), Txt (le_venueName ev @ '' - '' @ le_venueCity ev), Txt (fmt_day fmt (le_startsAt ev))])
          (case loaded of None \<Rightarrow> [] | Some evs \<Rightarrow> evs))"

definition CatalogPage :: "formats \<Rightarrow> event_listing list option \<Rightarrow> string option \<Rightarrow> string \<Rightarrow> view" where
  "CatalogPage fmt loaded error city = Box
     ([Txt ''All events'',
       Choice ((''all'', ''All cities'') # map (\<lambda>c. (c, c)) (cities loaded)) city] @
      error_line error @
      loading_line (loaded \<noteq> None) error @
      when_true (loaded \<noteq> None \<and> filtered_events city loaded = [])
        [Txt (''No events'' @ (if city \<noteq> ''all'' then '' in '' @ city else '''') @ '' right now.'')] @
      map (\<lambda>ev. Link (event_path (le_id ev))
             [Txt (le_name ev), Txt (le_venueCity ev), Txt (fmt_day fmt (le_startsAt ev))])
          (filtered_events city loaded))"

text \<open>
  The event's page: \<open>event\<close> is \<open>None\<close> while it loads and \<open>Some None\<close> when no event has the id; then
  nothing is drawn and the address is replaced.
\<close>

definition EventDetailPage ::
  "formats \<Rightarrow> event_listing option option \<Rightarrow> int option \<Rightarrow> view list \<times> page_move" where
  "EventDetailPage fmt event available =
     (case event of
        Some None \<Rightarrow> ([], ToNotFound)
      | None \<Rightarrow> ([Txt ''Loading...''], Stay)
      | Some (Some ev) \<Rightarrow>
          ([Txt (le_name ev), Txt (fmt_day_time fmt (le_startsAt ev)),
            Txt (le_venueName ev @ '', '' @ le_venueCity ev)] @
           (case available_text available of None \<Rightarrow> [] | Some t \<Rightarrow> [Txt t]) @
           [Txt ''Status'', Txt (event_status_text (le_status ev)),
            Link (event_path (le_id ev) @ ''/seats'') [Txt ''Select seats'']], Stay))"

definition NotFoundPage :: view where
  "NotFoundPage = Box
     [Txt ''404'',
      Txt (''This seat doesn'' @ [CHR 0x27] @ ''t exist. The event may have ended or the link'' @ [CHR 0x27] @ ''s wrong.''),
      Link ''/events'' [Txt ''Back to events'']]"

subsection \<open>Login\<close>

definition LoginPage :: "login_page \<Rightarrow> view" where
  "LoginPage p = Box
     ([Txt ''FlashSeat'',
       Button (PressMode LoginMode) False [Txt ''Log in''],
       Button (PressMode RegisterMode) False [Txt ''Register''],
       Txt ''Email'', Field ''email'' 1 (lp_email p),
       Txt ''Password'', Field ''password'' 8 (lp_password p)] @
      error_line (lp_error p) @
      [Button PressSubmit (lp_submitting p)
         [Txt (if lp_submitting p then ''Please wait...''
               else if lp_mode p = LoginMode then ''Log in'' else ''Create account'')],
       Link ''/'' [Txt ''Back to home'']])"

subsection \<open>The seat picker\<close>

definition seat_title :: "seat_row \<Rightarrow> bool \<Rightarrow> string" where
  "seat_title seat isSelected =
     seatLabel seat @ '' -- '' @ (if isSelected then ''selected'' else seat_status_text (seat_status seat))"

definition seat_view :: "picker \<Rightarrow> seat_row \<Rightarrow> view" where
  "seat_view p seat = (let b = draw_seat p seat in SeatBox seat (seat_title seat (sb_pressed b)) b)"

definition row_view :: "picker \<Rightarrow> string \<times> seat_row list \<Rightarrow> view" where
  "row_view p = (\<lambda>(rowLabel, rowSeats). Box (Txt rowLabel # map (seat_view p) (drawn_row rowSeats)))"

definition section_view ::
  "picker \<Rightarrow> nat \<Rightarrow> string \<times> (string \<times> seat_row list) list \<Rightarrow> view" where
  "section_view p n = (\<lambda>(section, rows). Box
     (when_true (n > 1) [Txt (''Section '' @ section)] @ map (row_view p) rows))"

definition picker_legend :: view where
  "picker_legend = Box [Txt ''Available'', Txt ''Selected'', Txt ''Held'', Txt ''Booked'']"

definition reserve_label :: "picker \<Rightarrow> string" where
  "reserve_label p =
     (if pk_reserving p then ''Reserving...''
      else ''Reserve '' @ (if length (pk_selected p) > 1 then show_nat (length (pk_selected p)) @ '' seats'' else ''seat''))"

definition summary_bar :: "picker \<Rightarrow> view" where
  "summary_bar p = Box
     [Box (Txt (''Selected '' @ (if length (pk_selected p) > 0
              then ''('' @ show_nat (length (pk_selected p)) @ ''/'' @ show_nat MAX_SELECTION @ '')'' else '''')) #
        (if length (pk_selected p) > 0
         then map (\<lambda>seat. Button (PressSeat seat) False
                [Txt (seat_rowLabel seat @ show_int (seat_seatNumber seat) @ '' x'')]) (pk_selected p)
         else [Txt ''Tap available seats to select them''])),
      Button PressReserve (length (pk_selected p) = 0 \<or> pk_reserving p) [Txt (reserve_label p)]]"

definition SeatPickerPage :: "(string \<Rightarrow> 'c::linorder) \<Rightarrow> picker \<Rightarrow> view" where
  "SeatPickerPage collate p =
     (let secs = sections collate (pk_seats p) in Box
       ([picker_legend, Txt ''STAGE''] @
        error_line (pk_error p) @
        loading_line (pk_seats p \<noteq> None) (pk_error p) @
        when_true (more_banner p)
          [Txt (''Showing the first '' @ show_nat SEAT_PAGE_SIZE @ '' seats -- this event has more.'')] @
        map (section_view p (length secs)) secs @
        [summary_bar p]))"

subsection \<open>Checkout and bookings\<close>

definition Countdown :: "int option \<Rightarrow> int \<Rightarrow> view" where
  "Countdown target now = Txt (countdown_text (useCountdown target now))"

text \<open>\<open>CheckoutPage\<close>, the review of one booking.\<close>

definition CheckoutPage :: "booking_page \<Rightarrow> int \<Rightarrow> view" where
  "CheckoutPage p now =
     (case bp_booking p of
        None \<Rightarrow> error_or_loading (bp_error p)
      | Some booking \<Rightarrow>
          (let off = (bp_busy p \<or> bk_status booking \<noteq> Pending) in Box
            ([Txt ''Review your booking'',
              Txt ''Seat'', Txt (CHR ''#'' # show_int (bk_seatId booking)),
              Txt ''Status'', StatusPill (booking_status_text (bk_status booking)),
              Txt ''Hold expires'', Txt (countdown_text (useCountdown (bk_holdExpiresAt booking) now))] @
             error_line (bp_error p) @
             [Button PressConfirm off [Txt ''Confirm booking''],
              Button PressCancel off [Txt ''Release seat'']])))"

definition order_row :: "int \<Rightarrow> booking_row \<Rightarrow> view" where
  "order_row now b = Box
     [Txt (''Seat #'' @ show_int (bk_seatId b)), StatusPill (booking_status_text (bk_status b)),
      Countdown (if bk_status b = Pending then bk_holdExpiresAt b else None) now]"

definition MultiCheckoutPage :: "int list \<Rightarrow> string option \<Rightarrow> multi_page \<Rightarrow> int \<Rightarrow> view" where
  "MultiCheckoutPage ids warning p now =
     (if ids = [] then Txt ''No bookings to review.''
      else case mc_bookings p of
        None \<Rightarrow> error_or_loading (mc_error p)
      | Some bs \<Rightarrow>
          (let pending = pending_of p in Box
            ([Txt ''Review your booking'', Txt (show_nat (length bs) @ '' seats in this order'')] @
             error_line warning @
             error_line (mc_error p) @
             map (order_row now) bs @
             (if length pending > 0
              then [Button PressConfirmAll (mc_busy p)
                      [Txt (''Confirm '' @ (if length pending > 1 then ''all '' @ show_nat (length pending) else ''booking''))],
                    Button PressReleaseAll (mc_busy p)
                      [Txt (''Release '' @ (if length pending > 1 then ''all'' else ''seat''))]]
              else [Txt ''Nothing left pending on this order.'']))))"

definition BookingDetailPage :: "formats \<Rightarrow> booking_page \<Rightarrow> int \<Rightarrow> view" where
  "BookingDetailPage fmt p now =
     (case bp_booking p of
        None \<Rightarrow> error_or_loading (bp_error p)
      | Some booking \<Rightarrow> Box
          ([Txt (''Seat #'' @ show_int (bk_seatId booking)), StatusPill (booking_status_text (bk_status booking)),
            Txt ''Booked'', Txt (fmt_time fmt (bk_createdAt booking))] @
           (case useCountdown (bk_holdExpiresAt booking) now of
              None \<Rightarrow> []
            | Some c \<Rightarrow> when_true (bk_status booking = Pending)
                [Txt ''Hold expires'', Txt (countdown_text (Some c))]) @
           [Txt ''Last updated'', Txt (fmt_time fmt (bk_updatedAt booking))] @
           error_line (bp_error p) @
           when_true (snd (detail_buttons booking))
             (when_true (fst (detail_buttons booking))
                [Button PressConfirm (bp_busy p) [Txt ''Confirm booking'']] @
              [Button PressCancel (bp_busy p) [Txt ''Cancel'']])))"

definition booking_path :: "int \<Rightarrow> string" where
  "booking_path i = ''/bookings/'' @ show_int i"

definition BookingsListPage :: "formats \<Rightarrow> booking_row list option \<times> string option \<Rightarrow> view" where
  "BookingsListPage fmt = (\<lambda>(loaded, error). Box
     (Txt ''My bookings'' #
      error_line error @
      loading_line (loaded \<noteq> None) error @
      when_true (loaded = Some []) [Txt ''No bookings yet. '', Link ''/events'' [Txt ''Browse events'']] @
      map (\<lambda>b. Box
             [Txt (''Seat #'' @ show_int (bk_seatId b)), Txt (''Booked '' @ fmt_date fmt (bk_createdAt b)),
              StatusPill (booking_status_text (bk_status b)),
              Link (booking_path (bk_id b)) [Txt ''View'']])
          (case loaded of None \<Rightarrow> [] | Some bs \<Rightarrow> bs)))"

definition TicketPage :: "formats \<Rightarrow> booking_row option \<Rightarrow> view" where
  "TicketPage fmt shown =
     (case shown of
        None \<Rightarrow> Txt ''Loading...''
      | Some booking \<Rightarrow>
          (let ref = bookingRef (bk_id booking) in Box
            [Txt ''Booking confirmed'', Txt (''Seat #'' @ show_int (bk_seatId booking)),
             Txt (''Booked '' @ fmt_time fmt (bk_createdAt booking)),
             Txt ''Booking ref'', Txt ref, Txt ''Seat'', Txt (CHR ''#'' # show_int (bk_seatId booking)),
             Txt ref,
             Link ''/bookings'' [Txt ''Back to my bookings'']]))"

subsection \<open>What the seat map shows\<close>

fun seat_boxes :: "view \<Rightarrow> seat_row list" where
  "seat_boxes (SeatBox seat title b) = [seat]"
| "seat_boxes (Box vs) = concat (map seat_boxes vs)"
| "seat_boxes _ = []"

lemma tree_maps [simp]:
  "concat (map presses (error_line e)) = []" "concat (map presses (loading_line l e)) = []"
  "concat (map seat_boxes (error_line e)) = []" "concat (map seat_boxes (loading_line l e)) = []"
  "concat (map links (error_line e)) = []" "concat (map links (loading_line l e)) = []"
  by (simp_all add: view_defs)

lemma concat_map_when [simp]: "concat (map f (when_true c vs)) = (if c then concat (map f vs) else [])"
  by (simp add: when_true_def)

lemma seat_boxes_row [simp]: "seat_boxes (row_view p (label, row)) = drawn_row row"
  by (simp add: row_view_def seat_view_def Let_def comp_def)

text \<open>A part of the page whose only buttons are the boxes of available seats.\<close>

definition boxes_only :: "view \<Rightarrow> bool" where
  "boxes_only v \<longleftrightarrow> set (presses v) = PressSeat ` {s \<in> set (seat_boxes v). seat_status s = Available}"

lemma boxes_only_Box: "(\<And>v. v \<in> set vs \<Longrightarrow> boxes_only v) \<Longrightarrow> boxes_only (Box vs)"
  by (simp add: boxes_only_def) blast

lemma boxes_only_Txt [simp]: "boxes_only (Txt t)"
  by (simp add: boxes_only_def)

lemma boxes_only_row: "boxes_only (row_view p r)"
  by (auto simp: row_view_def seat_view_def draw_seat_def Let_def boxes_only_def split: prod.splits if_splits)

lemma boxes_only_section: "boxes_only (section_view p n sec)"
  by (cases sec) (auto simp: section_view_def when_true_def intro!: boxes_only_Box boxes_only_row)

lemma presses_summary:
  "set (presses (summary_bar p)) = PressSeat ` set (pk_selected p) \<union>
     (if pk_selected p \<noteq> [] \<and> \<not> pk_reserving p then {PressReserve} else {})"
  by (auto simp: summary_bar_def)

lemma seat_boxes_page:
  "seat_boxes (SeatPickerPage collate p) =
     concat (map (\<lambda>(_, byRow). concat (map (\<lambda>(_, row). drawn_row row) byRow)) (sections collate (pk_seats p)))"
proof -
  have "seat_boxes (section_view p n sec) = (case sec of (_, byRow) \<Rightarrow> concat (map (\<lambda>(_, row). drawn_row row) byRow))"
    for n sec
    by (auto simp: section_view_def comp_def split: prod.splits intro!: arg_cong [where f = concat])
  then show ?thesis
    by (simp add: SeatPickerPage_def Let_def picker_legend_def summary_bar_def comp_def)
qed

lemma presses_page:
  "set (presses (SeatPickerPage collate p)) =
     PressSeat ` {s \<in> set (seat_boxes (SeatPickerPage collate p)). seat_status s = Available} \<union>
     set (presses (summary_bar p))"
proof -
  let ?secs = "map (section_view p (length (sections collate (pk_seats p)))) (sections collate (pk_seats p))"
  have "boxes_only (Box ?secs)"
    by (rule boxes_only_Box) (auto intro: boxes_only_section)
  then have "set (concat (map presses ?secs)) =
      PressSeat ` {s \<in> set (concat (map seat_boxes ?secs)). seat_status s = Available}"
    by (simp add: boxes_only_def del: set_concat)
  moreover have "seat_boxes (SeatPickerPage collate p) = concat (map seat_boxes ?secs)"
    by (simp add: SeatPickerPage_def Let_def picker_legend_def summary_bar_def comp_def)
  moreover have "presses (SeatPickerPage collate p) = concat (map presses ?secs) @ presses (summary_bar p)"
    by (simp add: SeatPickerPage_def Let_def picker_legend_def)
  ultimately show ?thesis by (simp del: set_concat)
qed

lemma mset_concat_map: "mset (concat (map f xs)) = sum_list (map (\<lambda>x. mset (f x)) xs)"
  by (induction xs) simp_all

text \<open>
  C19. The seat map is complete and its buttons are right: every loaded seat is drawn exactly
  once; the seats that can be clicked are the available ones and, in the summary, the selected
  ones; the Reserve button works when something is selected and no reservation is running.
\<close>

theorem seat_map_complete:
  assumes "pk_seats p = Some rows"
  shows "mset (seat_boxes (SeatPickerPage collate p)) = mset rows \<and>
    (\<forall>s. PressSeat s \<in> set (presses (SeatPickerPage collate p)) \<longleftrightarrow>
       s \<in> set rows \<and> seat_status s = Available \<or> s \<in> set (pk_selected p)) \<and>
    (PressReserve \<in> set (presses (SeatPickerPage collate p)) \<longleftrightarrow> pk_selected p \<noteq> [] \<and> \<not> pk_reserving p)"
proof -
  have m: "mset (seat_boxes (SeatPickerPage collate p)) = mset rows"
    using sections_partition [of collate rows]
    by (simp add: seat_boxes_page assms mset_concat_map case_prod_unfold Let_def)
  then have "set (seat_boxes (SeatPickerPage collate p)) = set rows" by (rule mset_eq_setD)
  with m show ?thesis by (auto simp: presses_page presses_summary)
qed

theorem seat_map_complete_witness:
  "mset (seat_boxes (SeatPickerPage length (seats_loaded [demo_pick 2, demo_pick 1] empty_picker))) =
     {#demo_pick 1, demo_pick 2#}"
  using seat_map_complete [of "seats_loaded [demo_pick 2, demo_pick 1] empty_picker" "[demo_pick 2, demo_pick 1]" length]
  by (simp add: seats_loaded_def add_mset_commute)

subsection \<open>The buttons of a booking\<close>

lemma presses_detail:
  "set (presses (BookingDetailPage fmt p now)) = (case bp_booking p of
     None \<Rightarrow> {}
   | Some b \<Rightarrow> (if bp_busy p then {} else
       (if bk_status b = Pending then {PressConfirm} else {}) \<union> (if live (bk_status b) then {PressCancel} else {})))"
  by (auto simp: BookingDetailPage_def detail_buttons_def live_def StatusPill_def error_or_loading_def
      when_true_def split: option.splits if_splits)

lemma presses_checkout:
  "set (presses (CheckoutPage p now)) = (case bp_booking p of
     None \<Rightarrow> {}
   | Some b \<Rightarrow> (if \<not> bp_busy p \<and> bk_status b = Pending then {PressConfirm, PressCancel} else {}))"
  by (auto simp: CheckoutPage_def StatusPill_def Let_def error_or_loading_def split: option.splits)

lemma presses_multi:
  "set (presses (MultiCheckoutPage ids warning p now)) =
     (if ids \<noteq> [] \<and> pending_of p \<noteq> [] \<and> \<not> mc_busy p then {PressConfirmAll, PressReleaseAll} else {})"
proof -
  have "presses (order_row now b) = []" for b
    by (simp add: order_row_def StatusPill_def Countdown_def)
  then show ?thesis
    by (auto simp: MultiCheckoutPage_def Let_def pending_of_def error_or_loading_def comp_def split: option.splits)
qed

definition confirm_accepted :: "('q, 'k) services \<Rightarrow> int \<Rightarrow> int \<Rightarrow> int \<Rightarrow> booking_row \<Rightarrow> ('q, 'k) world \<Rightarrow> bool" where
  "confirm_accepted svc uid t t' b w \<longleftrightarrow> (case fst (confirmBooking svc (bk_id b) uid t t' w) of Inl e \<Rightarrow> False | Inr r \<Rightarrow> True)"

definition cancel_accepted :: "('q, 'k) services \<Rightarrow> int \<Rightarrow> int \<Rightarrow> int \<Rightarrow> booking_row \<Rightarrow> ('q, 'k) world \<Rightarrow> bool" where
  "cancel_accepted svc uid t t' b w \<longleftrightarrow> (case fst (cancelBooking svc (bk_id b) uid t t' w) of Inl e \<Rightarrow> False | Inr r \<Rightarrow> True)"

lemma accepted_iff:
  assumes "consistent (w_db w)" "versions_room (w_db w)" "int4_ok (bk_id b)" "int4_ok uid"
    and b: "b \<in> set (bookings (w_db w))" "bk_userId b = uid"
  shows "confirm_accepted svc uid t t' b w \<longleftrightarrow> bk_status b = Pending"
    and "cancel_accepted svc uid t t' b w \<longleftrightarrow> live (bk_status b)"
proof -
  have own: "owns (w_db w) (bk_id b) uid" using b by (auto simp: owns_def)
  show "confirm_accepted svc uid t t' b w \<longleftrightarrow> bk_status b = Pending"
    using confirm_booking.transaction_eq [OF assms(1-3) b(1) refl, of t]
    by (simp add: confirm_accepted_def confirmBooking_def owner_check_eq [OF assms(3,4)] own)
  show "cancel_accepted svc uid t t' b w \<longleftrightarrow> live (bk_status b)"
    using cancel_booking.transaction_eq [OF assms(1-3) b(1) refl, of t]
    by (auto simp: cancel_accepted_def cancelBooking_def owner_check_eq [OF assms(3,4)] own live_def)
qed

text \<open>
  C20. The buttons of a booking are the transitions the server accepts: while the page shows the
  booking as the database has it and no call is running, the booking's page offers Confirm and
  Cancel exactly when the server would carry them out, whatever the countdown says (also when it
  reads "expired": only the expiry job ends a hold); the review page offers both exactly when the
  server would confirm; while a call is running neither offers anything.
\<close>

theorem buttons_match_server:
  assumes "consistent (w_db w)" "versions_room (w_db w)" "int4_ok (bk_id b)" "int4_ok uid"
    and "b \<in> set (bookings (w_db w))" "bk_userId b = uid" and "bp_booking p = Some b"
  shows "(\<not> bp_busy p \<longrightarrow>
      (PressConfirm \<in> set (presses (BookingDetailPage fmt p now)) \<longleftrightarrow> confirm_accepted svc uid t t' b w) \<and>
      (PressCancel \<in> set (presses (BookingDetailPage fmt p now)) \<longleftrightarrow> cancel_accepted svc uid t t' b w) \<and>
      (PressConfirm \<in> set (presses (CheckoutPage p now)) \<longleftrightarrow> confirm_accepted svc uid t t' b w) \<and>
      (PressCancel \<in> set (presses (CheckoutPage p now)) \<longleftrightarrow> confirm_accepted svc uid t t' b w)) \<and>
    (bp_busy p \<longrightarrow> presses (BookingDetailPage fmt p now) = [] \<and> presses (CheckoutPage p now) = [])"
  unfolding accepted_iff [OF assms(1-6)] set_empty [symmetric] presses_detail presses_checkout assms(7)
  by simp

definition demo_formats :: formats where
  "demo_formats = \<lparr>fmt_day = show_int, fmt_day_time = show_int, fmt_date = show_int, fmt_time = show_int\<rparr>"

theorem buttons_match_server_witness:
  "confirm_accepted quiet_services 1 0 0 demo_booking (demo_world demo_held) \<and>
   PressConfirm \<in> set (presses (CheckoutPage \<lparr>bp_booking = Some demo_booking, bp_error = None, bp_busy = False\<rparr> 300001))"
proof -
  let ?p = "\<lparr>bp_booking = Some demo_booking, bp_error = None, bp_busy = False\<rparr>"
  have "PressConfirm \<in> set (presses (CheckoutPage ?p 300001))"
    unfolding presses_checkout by (simp add: demo_booking_def)
  moreover have "PressConfirm \<in> set (presses (CheckoutPage ?p 300001)) \<longleftrightarrow>
      confirm_accepted quiet_services 1 0 0 demo_booking (demo_world demo_held)"
    using buttons_match_server [of "demo_world demo_held" demo_booking 1 ?p]
    by (simp add: demo_facts demo_booking_def del: set_empty)
  ultimately show ?thesis by blast
qed

end
