(* ===== verification/Site_Map.thy ===== *)
theory Site_Map
  imports Screens
begin

text \<open>
  Which page an address shows (\<open>frontend/src/App.tsx\<close>, \<open>components/ProtectedRoute.tsx\<close>), where the
  links of the pages and the \<open>navigate\<close> calls of their handlers lead, and which calls of the
  API each page makes. React Router is a parameter: a function from the patterns of the routes
  and a path to the pattern it picks and the values of its parameters.
\<close>

subsection \<open>The routes\<close>

datatype screen =
    HomeScreen
  | LoginScreen
  | CatalogScreen
  | EventScreen string
  | SeatsScreen string
  | BookingsScreen
  | BookingScreen string
  | MultiScreen
  | ReviewScreen string
  | TicketScreen string
  | NotFoundScreen

text \<open>Pattern, whether the element is inside \<open>ProtectedRoute\<close>, and the page for the parameters.\<close>

definition App_routes :: "(string \<times> bool \<times> (string list \<Rightarrow> screen)) list" where
  "App_routes =
     [(''/'', False, \<lambda>ps. HomeScreen),
      (''/login'', False, \<lambda>ps. LoginScreen),
      (''/events'', False, \<lambda>ps. CatalogScreen),
      (''/events/:eventId'', False, \<lambda>ps. EventScreen (hd ps)),
      (''/events/:eventId/seats'', False, \<lambda>ps. SeatsScreen (hd ps)),
      (''/bookings'', True, \<lambda>ps. BookingsScreen),
      (''/bookings/:bookingId'', True, \<lambda>ps. BookingScreen (hd ps)),
      (''/checkout'', True, \<lambda>ps. MultiScreen),
      (''/bookings/:bookingId/review'', True, \<lambda>ps. ReviewScreen (hd ps)),
      (''/bookings/:bookingId/ticket'', True, \<lambda>ps. TicketScreen (hd ps)),
      (''*'', False, \<lambda>ps. NotFoundScreen)]"

type_synonym router = "string list \<Rightarrow> string \<Rightarrow> (string \<times> string list) option"

definition route_for :: "router \<Rightarrow> string \<Rightarrow> (bool \<times> screen) option" where
  "route_for rt path =
     (case rt (map fst App_routes) path of
        None \<Rightarrow> None
      | Some (pattern, params) \<Rightarrow>
          map_option (\<lambda>(protected, page). (protected, page params)) (map_of App_routes pattern))"

text \<open>What the main part of the window shows; a redirect goes to \<open>/login\<close> with \<open>state.from\<close>.\<close>

datatype shown = Blank | Redirect | Shows screen

definition App :: "router \<Rightarrow> session \<Rightarrow> string \<Rightarrow> shown" where
  "App rt se path =
     (case route_for rt path of
        None \<Rightarrow> Blank
      | Some (protected, page) \<Rightarrow>
          (if \<not> protected then Shows page
           else case ProtectedRoute se of
                  NothingYet \<Rightarrow> Blank | RedirectToLogin \<Rightarrow> Redirect | Children \<Rightarrow> Shows page))"

subsection \<open>What React Router is assumed to do\<close>

text \<open>
  The paths of the application: lower-case letters, digits and hyphens between single slashes
  (for these the documented rules need neither decoding nor case folding).
\<close>

definition segs_of :: "string \<Rightarrow> string list" where
  "segs_of path = filter (\<lambda>s. s \<noteq> []) (split_on CHR ''/'' path)"

definition path_of :: "string list \<Rightarrow> string" where
  "path_of segs = (if segs = [] then ''/'' else concat (map (\<lambda>s. CHR ''/'' # s) segs))"

definition plain_path :: "string \<Rightarrow> bool" where
  "plain_path path \<longleftrightarrow> path_of (segs_of path) = path \<and>
     set path \<subseteq> set ''/-0123456789abcdefghijklmnopqrstuvwxyz''"

definition seg_fits :: "string \<Rightarrow> string \<Rightarrow> bool" where
  "seg_fits pat s \<longleftrightarrow> take 1 pat = '':'' \<or> pat = s"

definition fits :: "string \<Rightarrow> string \<Rightarrow> bool" where
  "fits pat path \<longleftrightarrow> pat \<noteq> ''*'' \<and> list_all2 seg_fits (segs_of pat) (segs_of path)"

definition params_of :: "string \<Rightarrow> string \<Rightarrow> string list" where
  "params_of pat path = map snd (filter (\<lambda>(p, s). take 1 p = '':'') (zip (segs_of pat) (segs_of path)))"

text \<open>
  A path that only one pattern fits is given to that pattern with its parameters; one that none
  fits goes to the pattern \<open>*\<close>.
\<close>

definition router_ok :: "router \<Rightarrow> bool" where
  "router_ok rt \<longleftrightarrow> (\<forall>ps path. plain_path path \<longrightarrow>
     (\<forall>pat\<in>set ps. filter (\<lambda>q. fits q path) ps = [pat] \<longrightarrow> rt ps path = Some (pat, params_of pat path)) \<and>
     (filter (\<lambda>q. fits q path) ps = [] \<longrightarrow> ''*'' \<in> set ps \<longrightarrow> (\<exists>xs. rt ps path = Some (''*'', xs))))"

definition first_fit :: router where
  "first_fit ps path =
     (case filter (\<lambda>q. fits q path) ps of
        pat # _ \<Rightarrow> Some (pat, params_of pat path)
      | [] \<Rightarrow> if ''*'' \<in> set ps then Some (''*'', [path]) else None)"

lemma first_fit_ok: "router_ok first_fit"
  by (simp add: router_ok_def first_fit_def)

subsection \<open>Where links and handlers lead\<close>

text \<open>The address of a \<open>navigate\<close> call; a ticket without a booking is the text "undefined".\<close>

fun move_address :: "page_move \<Rightarrow> string option" where
  "move_address Stay = None"
| "move_address (ToTicket None) = Some ''/bookings/undefined/ticket''"
| "move_address (ToTicket (Some i)) = Some (booking_path i @ ''/ticket'')"
| "move_address ToEvents = Some ''/events''"
| "move_address (ToBooking i) = Some (booking_path i)"
| "move_address ToNotFound = Some ''/404''"
| "move_address (ToPath p) = Some p"

fun navigation_address :: "navigation \<Rightarrow> string option" where
  "navigation_address NoNavigation = None"
| "navigation_address (ToLogin from) = Some ''/login''"
| "navigation_address (ToReview i) = Some (booking_path i @ ''/review'')"
| "navigation_address (ToCheckout query warning) = Some (''/checkout?ids='' @ query)"

text \<open>The pathname of an address: what stands before the query or the fragment.\<close>

definition pathname :: "string \<Rightarrow> string" where
  "pathname address = takeWhile (\<lambda>c. c \<noteq> CHR ''?'' \<and> c \<noteq> CHR ''#'') address"

text \<open>The calls each page makes.\<close>

fun screen_calls :: "screen \<Rightarrow> route list" where
  "screen_calls HomeScreen = [ListEventsRoute]"
| "screen_calls LoginScreen = [LoginRoute, RegisterRoute]"
| "screen_calls CatalogScreen = [ListEventsRoute]"
| "screen_calls (EventScreen i) = [ListEventsRoute, ListSeatsRoute]"
| "screen_calls (SeatsScreen i) = [ListSeatsRoute, ReserveRoute]"
| "screen_calls BookingsScreen = [ListBookingsRoute]"
| "screen_calls (BookingScreen i) = [GetBookingRoute, ConfirmRoute, CancelRoute]"
| "screen_calls MultiScreen = [GetBookingRoute, ConfirmRoute, CancelRoute]"
| "screen_calls (ReviewScreen i) = [GetBookingRoute, ConfirmRoute, CancelRoute]"
| "screen_calls (TicketScreen i) = [GetBookingRoute]"
| "screen_calls NotFoundScreen = []"

subsection \<open>The paths of the application\<close>

lemma show_int_plain: "set (show_int i) \<subseteq> set ''-0123456789''"
proof -
  have nat: "set (show_nat n) \<subseteq> set ''-0123456789''" for n
    by (rule subset_trans [OF show_nat_digits]) (rule set_subset_Cons)
  have minus: "CHR ''-'' \<in> set ''-0123456789''" by (rule list.set_intros)
  show ?thesis
  proof (cases "i < 0")
    case True
    then have "show_int i = CHR ''-'' # show_nat (nat (- i))" by (simp add: show_int_def)
    then show ?thesis using nat [of "nat (- i)"] minus by (simp only: list.set insert_subset simp_thms)
  next
    case False
    then show ?thesis using nat [of "nat i"] by (simp only: show_int_def if_False)
  qed
qed

lemma show_int_nonempty [simp]: "show_int i \<noteq> []"
proof -
  have "show_nat n \<noteq> []" for n by (subst show_nat.simps) simp
  then show ?thesis by (simp add: show_int_def)
qed

lemma no_slash [simp]: "CHR ''/'' \<notin> set (show_int i)"
  using show_int_plain [of i] by auto

lemma split_show_int [simp]:
  "split_on CHR ''/'' (show_int i) = [show_int i]"
  "split_on CHR ''/'' (show_int i @ CHR ''/'' # ys) = show_int i # split_on CHR ''/'' ys"
  by (simp_all add: split_on_free split_on_append)

lemma plain_chars [simp]: "set (show_int i) \<subseteq> set ''/-0123456789abcdefghijklmnopqrstuvwxyz''"
proof -
  have "set ''-0123456789'' \<subseteq> set (''/-0123456789'' @ ''abcdefghijklmnopqrstuvwxyz'')"
    unfolding set_append by (rule le_supI1) (rule set_subset_Cons)
  then show ?thesis using subset_trans [OF show_int_plain] by (simp only: append.simps)
qed

lemma segs_of_patterns:
  "segs_of ''/'' = []" "segs_of ''/login'' = [''login'']" "segs_of ''/events'' = [''events'']"
  "segs_of ''/events/:eventId'' = [''events'', '':eventId'']"
  "segs_of ''/events/:eventId/seats'' = [''events'', '':eventId'', ''seats'']"
  "segs_of ''/bookings'' = [''bookings'']" "segs_of ''/bookings/:bookingId'' = [''bookings'', '':bookingId'']"
  "segs_of ''/checkout'' = [''checkout'']"
  "segs_of ''/bookings/:bookingId/review'' = [''bookings'', '':bookingId'', ''review'']"
  "segs_of ''/bookings/:bookingId/ticket'' = [''bookings'', '':bookingId'', ''ticket'']"
  "segs_of ''/404'' = [''404'']" "segs_of ''*'' = [''*'']"
  "segs_of ''/bookings/undefined/ticket'' = [''bookings'', ''undefined'', ''ticket'']"
  by (simp_all add: segs_of_def)

lemma segs_of_ids:
  "segs_of (event_path i) = [''events'', show_int i]"
  "segs_of (event_path i @ ''/seats'') = [''events'', show_int i, ''seats'']"
  "segs_of (booking_path i) = [''bookings'', show_int i]"
  "segs_of (booking_path i @ ''/review'') = [''bookings'', show_int i, ''review'']"
  "segs_of (booking_path i @ ''/ticket'') = [''bookings'', show_int i, ''ticket'']"
  by (simp_all add: segs_of_def event_path_def booking_path_def)

lemma plain_paths:
  "plain_path ''/''" "plain_path ''/login''" "plain_path ''/events''" "plain_path ''/bookings''"
  "plain_path ''/checkout''" "plain_path ''/404''" "plain_path ''/bookings/undefined/ticket''"
  "plain_path (event_path i)" "plain_path (event_path i @ ''/seats'')" "plain_path (booking_path i)"
  "plain_path (booking_path i @ ''/review'')" "plain_path (booking_path i @ ''/ticket'')"
  unfolding plain_path_def segs_of_patterns segs_of_ids
  using plain_chars [of i] by (simp_all add: path_of_def event_path_def booking_path_def)

lemma route_for_unique:
  assumes "router_ok rt" and "plain_path path"
    and "filter (\<lambda>q. fits q path) (map fst App_routes) = [pat]"
    and "map_of App_routes pat = Some (prot, page)"
  shows "route_for rt path = Some (prot, page (params_of pat path))"
proof -
  have "pat \<in> set (map fst App_routes)"
    using arg_cong [OF assms(3), of set] by auto
  with assms have "rt (map fst App_routes) path = Some (pat, params_of pat path)"
    unfolding router_ok_def by blast
  with assms(4) show ?thesis by (simp add: route_for_def)
qed

lemma route_for_none:
  assumes "router_ok rt" and "plain_path path" and "filter (\<lambda>q. fits q path) (map fst App_routes) = []"
  shows "route_for rt path = Some (False, NotFoundScreen)"
proof -
  have "''*'' \<in> set (map fst App_routes)" by (simp add: App_routes_def)
  with assms obtain xs where "rt (map fst App_routes) path = Some (''*'', xs)"
    unfolding router_ok_def by blast
  then show ?thesis by (simp add: route_for_def App_routes_def)
qed

lemmas routing_simps = App_routes_def fits_def params_of_def seg_fits_def segs_of_patterns segs_of_ids

lemma route_for_pages:
  assumes "router_ok rt"
  shows "route_for rt ''/'' = Some (False, HomeScreen)"
    "route_for rt ''/login'' = Some (False, LoginScreen)"
    "route_for rt ''/events'' = Some (False, CatalogScreen)"
    "route_for rt (event_path i) = Some (False, EventScreen (show_int i))"
    "route_for rt (event_path i @ ''/seats'') = Some (False, SeatsScreen (show_int i))"
    "route_for rt ''/bookings'' = Some (True, BookingsScreen)"
    "route_for rt (booking_path i) = Some (True, BookingScreen (show_int i))"
    "route_for rt ''/checkout'' = Some (True, MultiScreen)"
    "route_for rt (booking_path i @ ''/review'') = Some (True, ReviewScreen (show_int i))"
    "route_for rt (booking_path i @ ''/ticket'') = Some (True, TicketScreen (show_int i))"
    "route_for rt ''/bookings/undefined/ticket'' = Some (True, TicketScreen ''undefined'')"
    "route_for rt ''/404'' = Some (False, NotFoundScreen)"
proof -
  note unique = route_for_unique [OF assms]
  show "route_for rt ''/'' = Some (False, HomeScreen)"
    using unique [OF plain_paths(1), where pat = "''/''" and prot = False] by (simp add: routing_simps)
  show "route_for rt ''/login'' = Some (False, LoginScreen)"
    using unique [OF plain_paths(2), where pat = "''/login''" and prot = False] by (simp add: routing_simps)
  show "route_for rt ''/events'' = Some (False, CatalogScreen)"
    using unique [OF plain_paths(3), where pat = "''/events''" and prot = False] by (simp add: routing_simps)
  show "route_for rt ''/bookings'' = Some (True, BookingsScreen)"
    using unique [OF plain_paths(4), where pat = "''/bookings''" and prot = True] by (simp add: routing_simps)
  show "route_for rt ''/checkout'' = Some (True, MultiScreen)"
    using unique [OF plain_paths(5), where pat = "''/checkout''" and prot = True] by (simp add: routing_simps)
  show "route_for rt ''/404'' = Some (False, NotFoundScreen)"
    using route_for_none [OF assms plain_paths(6)] by (simp add: routing_simps)
  show "route_for rt ''/bookings/undefined/ticket'' = Some (True, TicketScreen ''undefined'')"
    using unique [OF plain_paths(7), where pat = "''/bookings/:bookingId/ticket''" and prot = True] by (simp add: routing_simps)
  show "route_for rt (event_path i) = Some (False, EventScreen (show_int i))"
    using unique [OF plain_paths(8), where pat = "''/events/:eventId''" and prot = False] by (simp add: routing_simps)
  show "route_for rt (event_path i @ ''/seats'') = Some (False, SeatsScreen (show_int i))"
    using unique [OF plain_paths(9), where pat = "''/events/:eventId/seats''" and prot = False] by (simp add: routing_simps)
  show "route_for rt (booking_path i) = Some (True, BookingScreen (show_int i))"
    using unique [OF plain_paths(10), where pat = "''/bookings/:bookingId''" and prot = True] by (simp add: routing_simps)
  show "route_for rt (booking_path i @ ''/review'') = Some (True, ReviewScreen (show_int i))"
    using unique [OF plain_paths(11), where pat = "''/bookings/:bookingId/review''" and prot = True] by (simp add: routing_simps)
  show "route_for rt (booking_path i @ ''/ticket'') = Some (True, TicketScreen (show_int i))"
    using unique [OF plain_paths(12), where pat = "''/bookings/:bookingId/ticket''" and prot = True] by (simp add: routing_simps)
qed

subsection \<open>No link of the site is dead\<close>

text \<open>Everything the site can draw, in any state of its pages.\<close>

inductive drawn :: "view \<Rightarrow> bool" where
  nav_bar: "drawn (NavBar se)"
| home: "drawn (HomePage fmt loaded error)"
| catalog: "drawn (CatalogPage fmt loaded error city)"
| event: "v \<in> set (fst (EventDetailPage fmt ev available)) \<Longrightarrow> drawn v"
| seats: "drawn (SeatPickerPage (collate :: string \<Rightarrow> nat) p)"
| checkout: "drawn (CheckoutPage bp now)"
| multi: "drawn (MultiCheckoutPage ids warning mp now)"
| booking: "drawn (BookingDetailPage fmt bp now)"
| bookings: "drawn (BookingsListPage fmt page)"
| ticket: "drawn (TicketPage fmt shown)"
| login: "drawn (LoginPage lp)"
| not_found: "drawn NotFoundPage"

definition leads_somewhere :: "router \<Rightarrow> string \<Rightarrow> bool" where
  "leads_somewhere rt address \<longleftrightarrow>
     (case route_for rt (pathname address) of None \<Rightarrow> False | Some (prot, page) \<Rightarrow> page \<noteq> NotFoundScreen)"

lemma pathname_plain:
  assumes "plain_path path"
  shows "pathname path = path" "pathname (path @ CHR ''?'' # query) = path"
proof -
  have "x \<noteq> CHR ''?'' \<and> x \<noteq> CHR ''#''" if "x \<in> set path" for x
    using that assms unfolding plain_path_def by auto
  then show "pathname path = path" "pathname (path @ CHR ''?'' # query) = path"
    by (simp_all add: pathname_def takeWhile_append2)
qed

lemma leads_somewhere_pages:
  assumes "router_ok rt"
  shows "leads_somewhere rt ''/''" "leads_somewhere rt ''/login''" "leads_somewhere rt ''/events''"
    "leads_somewhere rt ''/bookings''" "leads_somewhere rt (event_path i)"
    "leads_somewhere rt (event_path i @ ''/seats'')" "leads_somewhere rt (booking_path i)"
    "leads_somewhere rt (booking_path i @ ''/review'')" "leads_somewhere rt (booking_path i @ ''/ticket'')"
    "leads_somewhere rt ''/bookings/undefined/ticket''" "leads_somewhere rt (''/checkout?ids='' @ query)"
  using pathname_plain(2) [OF plain_paths(5), of "''ids='' @ query"]
  by (simp_all add: leads_somewhere_def pathname_plain(1) plain_paths route_for_pages [OF assms])

lemma links_of_seats: "links (SeatPickerPage collate p) = []"
proof -
  have "links (row_view p r) = []" for r
    by (cases r) (simp add: row_view_def seat_view_def Let_def)
  then have "links (section_view p n sec) = []" for n sec
    by (cases sec) (auto simp: section_view_def when_true_def)
  then show ?thesis
    by (simp add: SeatPickerPage_def Let_def picker_legend_def summary_bar_def)
qed

lemma links_of_order: "links (order_row now b) = []"
  by (simp add: order_row_def StatusPill_def Countdown_def)

lemma drawn_links:
  assumes "drawn v" and "url \<in> set (links v)"
  shows "url \<in> {''/'', ''/login'', ''/events'', ''/bookings''} \<union> range event_path \<union>
    range (\<lambda>i. event_path i @ ''/seats'') \<union> range booking_path"
  using assms
proof cases
  case (event fmt ev available)
  with assms(2) show ?thesis
    by (auto simp: EventDetailPage_def split: option.splits)
qed (use assms(2) in \<open>auto simp: NavBar_def HomePage_def CatalogPage_def links_of_seats CheckoutPage_def
    MultiCheckoutPage_def BookingDetailPage_def BookingsListPage_def TicketPage_def LoginPage_def
    NotFoundPage_def when_true_def error_or_loading_def StatusPill_def links_of_order Let_def
    split: option.splits if_splits\<close>)

text \<open>
  C21. No link of the site is dead: every link that any page draws in any state, and every
  \<open>navigate\<close> of the reservation and checkout handlers, leads to a page of the application; only the
  move to \<open>/404\<close> shows the page for a missing address. The path assumed of the router is what its
  documentation says of patterns with named segments.
\<close>

theorem no_dead_links:
  assumes "router_ok rt"
  shows "(\<forall>v url. drawn v \<and> url \<in> set (links v) \<longrightarrow> leads_somewhere rt url) \<and>
    (\<forall>nav url. navigation_address nav = Some url \<longrightarrow> leads_somewhere rt url) \<and>
    (\<forall>move url. move_address move = Some url \<and> (\<forall>p. move \<noteq> ToPath p) \<longrightarrow>
       (leads_somewhere rt url \<longleftrightarrow> move \<noteq> ToNotFound))"
proof (intro conjI allI impI)
  note pages = leads_somewhere_pages [OF assms]
  show "leads_somewhere rt url" if "drawn v \<and> url \<in> set (links v)" for v url
    using drawn_links [of v url] that pages by auto
  show "leads_somewhere rt url" if "navigation_address nav = Some url" for nav url
    using that pages by (cases nav) auto
  have "\<not> leads_somewhere rt ''/404''"
    by (simp add: leads_somewhere_def pathname_plain(1) plain_paths route_for_pages [OF assms])
  then show "leads_somewhere rt url \<longleftrightarrow> move \<noteq> ToNotFound"
    if "move_address move = Some url \<and> (\<forall>p. move \<noteq> ToPath p)" for move url
    using that pages by (cases move rule: move_address.cases) auto
qed

theorem no_dead_links_witness:
  "leads_somewhere first_fit (booking_path 7)"
proof -
  let ?v = "BookingsListPage demo_formats (Some [demo_booking\<lparr>bk_id := 7\<rparr>], None)"
  have "drawn ?v" by (rule drawn.bookings)
  moreover have "booking_path 7 \<in> set (links ?v)" by (simp add: BookingsListPage_def)
  ultimately show ?thesis using no_dead_links [OF first_fit_ok] by blast
qed

text \<open>
  The address of a page carries its id: the links and moves to an event, its seats, a booking,
  its review and its ticket open that page, and \<open>Number\<close> of the parameter it gets is the id that
  was put into the address.
\<close>

theorem screens_read_ids:
  assumes "router_ok rt" and "number_reads_ids lib" and "0 < i" and "i \<le> int4_max"
  shows "\<exists>t. text_number lib t = Some (of_int i) \<and>
    route_for rt (event_path i) = Some (False, EventScreen t) \<and>
    route_for rt (event_path i @ ''/seats'') = Some (False, SeatsScreen t) \<and>
    route_for rt (booking_path i) = Some (True, BookingScreen t) \<and>
    route_for rt (booking_path i @ ''/review'') = Some (True, ReviewScreen t) \<and>
    route_for rt (booking_path i @ ''/ticket'') = Some (True, TicketScreen t)"
  using assms(2-4) by (intro exI [of _ "show_int i"]) (simp add: route_for_pages [OF assms(1)] number_reads_ids_def)

theorem screens_read_ids_witness:
  "\<exists>t. text_number page_lib t = Some 7 \<and> route_for first_fit (event_path 7) = Some (False, EventScreen t)"
  using screens_read_ids [OF first_fit_ok page_lib_reads, of 7] by (auto simp: int4_max_def)

subsection \<open>Calls that need a token\<close>



end
