(* ===== verification/Environment.thy ===== *)
theory Environment
  imports Config Zod
begin

text \<open>
  The environment schema (\<open>config/env.ts\<close>), what the Redis settings make of it
  (\<open>config/redis.ts\<close>) and the start-up sequence of the service (\<open>index.ts\<close>, \<open>start\<close>). A
  missing variable takes its default where there is one, all issues are collected, and a value is
  produced only without issues. \<open>Number\<close> is the field \<open>text_number\<close> of \<open>js_lib\<close>, the URL check of
  zod the parameter \<open>valid_url\<close>.
\<close>

subsection \<open>The fields\<close>

definition coerce_number :: "js_lib \<Rightarrow> string \<Rightarrow> zod_issues + rat" where
  "coerce_number lib s = finite_number (text_number lib s)"

definition positive_int :: "js_lib \<Rightarrow> string \<Rightarrow> zod_issues + int" where
  "positive_int lib s = int_in None (text_number lib s)"

subsection \<open>The schema\<close>

record env =
  en_NODE_ENV :: string
  en_PORT :: rat
  en_DATABASE_URL :: string
  en_REDIS_URL :: string
  en_HOLD_DURATION_MS :: int
  en_TRUST_PROXY_ADDRESSES :: string
  en_RATE_LIMIT_MAX_REQUESTS :: int
  en_RATE_LIMIT_WINDOW_SECONDS :: int
  en_KAFKA_BROKERS :: "string list"
  en_KAFKA_CLIENT_ID :: string
  en_KAFKA_CDC_GROUP_ID :: string
  en_KAFKA_CDC_TOPIC :: string
  en_JWT_SECRET :: string
  en_JWT_EXPIRES_IN :: string
  en_CORS_ORIGINS :: "string list"

definition secret_message :: string where
  "secret_message = ''JWT_SECRET must be at least 32 characters''"

definition envSchema :: "js_lib \<Rightarrow> (string \<Rightarrow> bool) \<Rightarrow> (string \<Rightarrow> string option) \<Rightarrow> zod_issues + env" where
  "envSchema lib valid_url vars =
     (let NODE_ENV = field_default ''development'' (text_enum [''development'', ''staging'', ''production'']) (vars ''NODE_ENV'');
          PORT = field_default 3000 (coerce_number lib) (vars ''PORT'');
          DATABASE_URL = field_required (url_text valid_url) (vars ''DATABASE_URL'');
          REDIS_URL = field_required (url_text valid_url) (vars ''REDIS_URL'');
          HOLD_DURATION_MS = field_default (5 * 60 * 1000) (positive_int lib) (vars ''HOLD_DURATION_MS'');
          TRUST_PROXY_ADDRESSES = field_default ''loopback'' any_text (vars ''TRUST_PROXY_ADDRESSES'');
          RATE_LIMIT_MAX_REQUESTS = field_default 100 (positive_int lib) (vars ''RATE_LIMIT_MAX_REQUESTS'');
          RATE_LIMIT_WINDOW_SECONDS = field_default 60 (positive_int lib) (vars ''RATE_LIMIT_WINDOW_SECONDS'');
          BROKERS = KAFKA_BROKERS (vars ''KAFKA_BROKERS'');
          CLIENT_ID = field_default ''booking-system-backend'' any_text (vars ''KAFKA_CLIENT_ID'');
          GROUP_ID = field_default ''booking-system-cdc-consumer'' any_text (vars ''KAFKA_CDC_GROUP_ID'');
          TOPIC = field_default ''booking-system.public.seats'' any_text (vars ''KAFKA_CDC_TOPIC'');
          JWT_SECRET = field_required (min_text 32 secret_message) (vars ''JWT_SECRET'');
          JWT_EXPIRES_IN = field_default ''15m'' any_text (vars ''JWT_EXPIRES_IN'');
          issues = issues_of NODE_ENV @ issues_of PORT @ issues_of DATABASE_URL @ issues_of REDIS_URL @
            issues_of HOLD_DURATION_MS @ issues_of RATE_LIMIT_MAX_REQUESTS @ issues_of RATE_LIMIT_WINDOW_SECONDS @
            issues_of BROKERS @ issues_of JWT_SECRET
      in if issues = []
         then Inr \<lparr>en_NODE_ENV = projr NODE_ENV, en_PORT = projr PORT, en_DATABASE_URL = projr DATABASE_URL,
                en_REDIS_URL = projr REDIS_URL, en_HOLD_DURATION_MS = projr HOLD_DURATION_MS,
                en_TRUST_PROXY_ADDRESSES = projr TRUST_PROXY_ADDRESSES,
                en_RATE_LIMIT_MAX_REQUESTS = projr RATE_LIMIT_MAX_REQUESTS,
                en_RATE_LIMIT_WINDOW_SECONDS = projr RATE_LIMIT_WINDOW_SECONDS,
                en_KAFKA_BROKERS = projr BROKERS, en_KAFKA_CLIENT_ID = projr CLIENT_ID,
                en_KAFKA_CDC_GROUP_ID = projr GROUP_ID, en_KAFKA_CDC_TOPIC = projr TOPIC,
                en_JWT_SECRET = projr JWT_SECRET, en_JWT_EXPIRES_IN = projr JWT_EXPIRES_IN,
                en_CORS_ORIGINS = CORS_ORIGINS (vars ''CORS_ORIGINS'')\<rparr>
         else Inl issues)"

text \<open>
  The module: the settings, or the process ends with code 1 before anything else of the service
  is loaded.
\<close>

definition load_env :: "js_lib \<Rightarrow> (string \<Rightarrow> bool) \<Rightarrow> (string \<Rightarrow> string option) \<Rightarrow> int + env" where
  "load_env lib valid_url vars = (case envSchema lib valid_url vars of Inl issues \<Rightarrow> Inl 1 | Inr e \<Rightarrow> Inr e)"

text \<open>
  \<open>bullMQConnection\<close>: host and port of the Redis URL; \<open>Number(port) || 6379\<close>. A URL is given by the
  parts the code reads.
\<close>

definition bull_port :: "js_lib \<Rightarrow> string \<Rightarrow> rat" where
  "bull_port lib port =
     (case text_number lib port of None \<Rightarrow> 6379 | Some q \<Rightarrow> if q = 0 then 6379 else q)"

subsection \<open>Starting\<close>

text \<open>
  \<open>start\<close>: five steps, each of which may throw; the first that does ends the process with code 1.
  The names of the steps that were started are returned.
\<close>

record 's boot_deps =
  connectProducer :: "'s \<Rightarrow> js_error option \<times> 's"
  startCdcConsumer :: "'s \<Rightarrow> js_error option \<times> 's"
  startWorker :: "'s \<Rightarrow> js_error option \<times> 's"
  installHandlers :: "'s \<Rightarrow> js_error option \<times> 's"
  listen_on :: "rat \<Rightarrow> 's \<Rightarrow> js_error option \<times> 's"

fun run_boot :: "(string \<times> ('s \<Rightarrow> js_error option \<times> 's)) list \<Rightarrow> 's \<Rightarrow> string list \<times> int option \<times> 's" where
  "run_boot [] s = ([], None, s)"
| "run_boot ((name, run) # steps) s =
     (case run s of
        (Some err, s') \<Rightarrow> ([name], Some 1, s')
      | (None, s') \<Rightarrow> (case run_boot steps s' of (names, code, s'') \<Rightarrow> (name # names, code, s'')))"

definition boot_steps :: "'s boot_deps \<Rightarrow> rat \<Rightarrow> (string \<times> ('s \<Rightarrow> js_error option \<times> 's)) list" where
  "boot_steps deps port =
     [(''producer'', connectProducer deps), (''cdc-consumer'', startCdcConsumer deps),
      (''hold-expiry-worker'', startWorker deps), (''shutdown-handlers'', installHandlers deps),
      (''listen'', listen_on deps port)]"

definition start :: "'s boot_deps \<Rightarrow> env \<Rightarrow> 's \<Rightarrow> string list \<times> int option \<times> 's" where
  "start deps e s = run_boot (boot_steps deps (en_PORT e)) s"

subsection \<open>Which settings are accepted\<close>

definition int_setting_ok :: "js_lib \<Rightarrow> string option \<Rightarrow> bool" where
  "int_setting_ok lib v \<longleftrightarrow>
     (\<forall>s. v = Some s \<longrightarrow> (\<exists>n. text_number lib s = Some (of_int n) \<and> 1 \<le> n \<and> n \<le> max_safe))"

lemma positive_int_ok:
  "positive_int lib s = Inr n \<longleftrightarrow> text_number lib s = Some (of_int n) \<and> 1 \<le> n \<and> n \<le> max_safe"
  by (simp add: positive_int_def zod_ok)

lemma positive_int_issues: "issues_of (positive_int lib s) = [] \<longleftrightarrow> (\<exists>n. positive_int lib s = Inr n)"
  by (simp add: positive_int_def int_in_issues)

lemma issues_int:
  "issues_of (field_default d (positive_int lib) v) = [] \<longleftrightarrow> int_setting_ok lib v"
  by (cases v) (auto simp: field_default_def int_setting_ok_def positive_int_issues positive_int_ok)

lemma issues_enum: "issues_of (field_default d (text_enum opts) v) = [] \<longleftrightarrow> (\<forall>s. v = Some s \<longrightarrow> s \<in> set opts)"
  by (cases v) (auto simp: field_default_def text_enum_def)

lemma issues_number: "issues_of (field_default d (coerce_number lib) v) = [] \<longleftrightarrow> (\<forall>s. v = Some s \<longrightarrow> text_number lib s \<noteq> None)"
  by (cases v) (auto simp: field_default_def coerce_number_def finite_number_def split: option.splits)

lemma issues_url: "issues_of (field_required (url_text ok) v) = [] \<longleftrightarrow> (\<exists>s. v = Some s \<and> ok s)"
  by (cases v) (auto simp: field_required_def url_text_def)

lemma issues_min: "issues_of (field_required (min_text n m) v) = [] \<longleftrightarrow> (\<exists>s. v = Some s \<and> n \<le> length s)"
  by (cases v) (auto simp: field_required_def min_text_def)

lemma issues_brokers: "issues_of (KAFKA_BROKERS v) = [] \<longleftrightarrow> (\<exists>s. v = Some s \<and> comma_list s \<noteq> [])"
proof -
  have "comma_list '''' = []" by (simp add: comma_list_def trim_def)
  then show ?thesis
    by (cases v) (auto simp: KAFKA_BROKERS_def)
qed

lemmas issue_lemmas = issues_int issues_enum issues_number issues_url issues_min issues_brokers

lemma envSchema_accepts:
  "(\<exists>e. envSchema lib valid_url vars = Inr e) \<longleftrightarrow>
     (\<forall>s. vars ''NODE_ENV'' = Some s \<longrightarrow> s \<in> set [''development'', ''staging'', ''production'']) \<and>
     (\<forall>s. vars ''PORT'' = Some s \<longrightarrow> text_number lib s \<noteq> None) \<and>
     (\<exists>s. vars ''DATABASE_URL'' = Some s \<and> valid_url s) \<and> (\<exists>s. vars ''REDIS_URL'' = Some s \<and> valid_url s) \<and>
     int_setting_ok lib (vars ''HOLD_DURATION_MS'') \<and> int_setting_ok lib (vars ''RATE_LIMIT_MAX_REQUESTS'') \<and>
     int_setting_ok lib (vars ''RATE_LIMIT_WINDOW_SECONDS'') \<and>
     (\<exists>s. vars ''KAFKA_BROKERS'' = Some s \<and> comma_list s \<noteq> []) \<and>
     (\<exists>s. vars ''JWT_SECRET'' = Some s \<and> 32 \<le> length s)"
  unfolding envSchema_def Let_def append_is_Nil_conv issue_lemmas by simp

lemma int_setting_value:
  "int_setting_ok lib v \<Longrightarrow> 1 \<le> d \<Longrightarrow> 1 \<le> projr (field_default d (positive_int lib) v) \<and>
    (v = None \<longrightarrow> projr (field_default d (positive_int lib) v) = d) \<and>
    (\<forall>s. v = Some s \<longrightarrow> text_number lib s = Some (of_int (projr (field_default d (positive_int lib) v))))"
proof (cases v)
  case (Some s)
  assume "int_setting_ok lib v"
  with Some obtain n where "positive_int lib s = Inr n" by (auto simp: int_setting_ok_def positive_int_ok)
  then show ?thesis using Some positive_int_ok [of lib s n] by (simp add: field_default_def)
qed (simp add: field_default_def)

lemma envSchema_values:
  assumes "envSchema lib valid_url vars = Inr e"
  shows "en_HOLD_DURATION_MS e = projr (field_default 300000 (positive_int lib) (vars ''HOLD_DURATION_MS''))"
    "en_RATE_LIMIT_MAX_REQUESTS e = projr (field_default 100 (positive_int lib) (vars ''RATE_LIMIT_MAX_REQUESTS''))"
    "en_RATE_LIMIT_WINDOW_SECONDS e = projr (field_default 60 (positive_int lib) (vars ''RATE_LIMIT_WINDOW_SECONDS''))"
    "en_KAFKA_BROKERS e = projr (KAFKA_BROKERS (vars ''KAFKA_BROKERS''))"
    "en_JWT_SECRET e = projr (field_required (min_text 32 secret_message) (vars ''JWT_SECRET''))"
    "en_DATABASE_URL e = projr (field_required (url_text valid_url) (vars ''DATABASE_URL''))"
    "en_PORT e = projr (field_default 3000 (coerce_number lib) (vars ''PORT''))"
  using assms unfolding envSchema_def Let_def by (auto split: if_splits)


definition demo_vars :: "string \<Rightarrow> string option" where
  "demo_vars = map_of
     [(''DATABASE_URL'', ''postgres://db''), (''REDIS_URL'', ''redis://r''), (''KAFKA_BROKERS'', ''a:1''),
      (''JWT_SECRET'', replicate 32 CHR ''x'')]"


subsection \<open>How the service starts\<close>

text \<open>
  The service starts in a fixed order and listens last: producer, consumer, worker, signal
  handlers, HTTP server; the first step that throws ends the process with code 1 and nothing after
  it is started; it never listens without the signal handlers, the worker and both Kafka clients,
  and the port is the one of the settings.
\<close>

theorem start_order:
  fixes deps :: "'s boot_deps"
  assumes "start deps e s = (names, code, s')"
  shows "names \<noteq> [] \<and>
    names = take (length names) [''producer'', ''cdc-consumer'', ''hold-expiry-worker'', ''shutdown-handlers'', ''listen''] \<and>
    (code = None \<longrightarrow> length names = 5) \<and> (code \<noteq> None \<longrightarrow> code = Some 1) \<and>
    (''listen'' \<in> set names \<longrightarrow>
       (let s1 = snd (connectProducer deps s); s2 = snd (startCdcConsumer deps s1);
            s3 = snd (startWorker deps s2); s4 = snd (installHandlers deps s3)
        in fst (connectProducer deps s) = None \<and> fst (startCdcConsumer deps s1) = None \<and>
           fst (startWorker deps s2) = None \<and> fst (installHandlers deps s3) = None \<and>
           s' = snd (listen_on deps (en_PORT e) s4) \<and>
           code = (if fst (listen_on deps (en_PORT e) s4) = None then None else Some 1)))"
proof -
  obtain r1 s1 where 1: "connectProducer deps s = (r1, s1)" by fastforce
  obtain r2 s2 where 2: "startCdcConsumer deps s1 = (r2, s2)" by fastforce
  obtain r3 s3 where 3: "startWorker deps s2 = (r3, s3)" by fastforce
  obtain r4 s4 where 4: "installHandlers deps s3 = (r4, s4)" by fastforce
  obtain r5 s5 where 5: "listen_on deps (en_PORT e) s4 = (r5, s5)" by fastforce
  note run = assms [unfolded start_def boot_steps_def]
  show ?thesis
    using run 1 2 3 4 5 by (cases r1; cases r2; cases r3; cases r4; cases r5) auto
qed

definition demo_boot :: "nat boot_deps" where
  "demo_boot = \<lparr>connectProducer = (\<lambda>n. (None, n + 1)), startCdcConsumer = (\<lambda>n. (Some (PlainError ''down''), n + 1)),
     startWorker = (\<lambda>n. (None, n + 1)), installHandlers = (\<lambda>n. (None, n + 1)), listen_on = (\<lambda>p n. (None, n + 1))\<rparr>"

theorem start_order_witness:
  "\<forall>e. ''listen'' \<notin> set (fst (start demo_boot e 0)) \<and> fst (snd (start demo_boot e 0)) = Some 1"
proof
  fix e
  obtain names code s' where r: "start demo_boot e 0 = (names, code, s')" by (cases "start demo_boot e 0") auto
  have "code \<noteq> None" using r by (auto simp: start_def boot_steps_def demo_boot_def)
  moreover have "fst (startCdcConsumer demo_boot (snd (connectProducer demo_boot 0))) \<noteq> None"
    by (simp add: demo_boot_def)
  ultimately show "''listen'' \<notin> set (fst (start demo_boot e 0)) \<and> fst (snd (start demo_boot e 0)) = Some 1"
    using start_order [OF r] unfolding Let_def r fst_conv snd_conv by blast
qed

end
