(* ===== verification/Lifecycle.thy ===== *)
theory Lifecycle
  imports Environment Shutdown Metrics Hold_Expiry
begin

text \<open>
  One process from start to shutdown: \<open>start\<close> of \<open>index.ts\<close> and \<open>makeDefaultShutdownDeps\<close> of
  \<open>shutdown.ts\<close> with the functions they call (\<open>kafka/producer.ts\<close>, \<open>kafka/cdc-consumer.ts\<close>,
  \<open>queue/hold-expiry.worker.ts\<close>, \<open>queue/hold-expiry.queue.ts\<close>, \<open>database/db.ts\<close>). What the client
  libraries answer is the parameter \<open>drivers\<close>; a Kafka client whose \<open>connect\<close> or \<open>disconnect\<close>
  resolves has emitted the event of that name.
\<close>

record drivers =
  producer_connect :: "js_error option"
  producer_disconnect :: "js_error option"
  consumer_connect :: "js_error option"
  consumer_subscribe :: "js_error option"
  consumer_run :: "js_error option"
  consumer_disconnect :: "js_error option"
  new_worker :: nat
  worker_close :: "nat \<Rightarrow> js_error option"
  queue_close :: "js_error option"
  pool_end :: "js_error option"
  app_listen :: "rat \<Rightarrow> js_error option"
  app_close :: "js_error option"

text \<open>\<open>ps_server\<close> is \<open>app.server\<close>, which a stub application may lack.\<close>

record process =
  ps_producer :: connection
  ps_consumer :: connection
  ps_worker :: "nat option"
  ps_queue_open :: bool
  ps_pool_open :: bool
  ps_handlers :: bool
  ps_server :: "server option"

definition quiet_server :: server where
  "quiet_server = \<lparr>sv_listening = False, sv_draining = False, sv_busy = [], sv_idle = []\<rparr>"

definition fresh_process :: process where
  "fresh_process = \<lparr>ps_producer = disconnected, ps_consumer = disconnected, ps_worker = None,
     ps_queue_open = True, ps_pool_open = True, ps_handlers = False, ps_server = Some quiet_server\<rparr>"

subsection \<open>Starting\<close>

definition connect_producer :: "drivers \<Rightarrow> process \<Rightarrow> js_error option \<times> process" where
  "connect_producer dr p =
     (case producer_connect dr of
        Some e \<Rightarrow> (Some e, p)
      | None \<Rightarrow> (None, p\<lparr>ps_producer := on_client_event CONNECT (ps_producer p)\<rparr>))"

definition start_consumer :: "drivers \<Rightarrow> process \<Rightarrow> js_error option \<times> process" where
  "start_consumer dr p =
     (case consumer_connect dr of
        Some e \<Rightarrow> (Some e, p)
      | None \<Rightarrow>
          (let p' = p\<lparr>ps_consumer := on_client_event CONNECT (ps_consumer p)\<rparr>
           in case consumer_subscribe dr of
                Some e \<Rightarrow> (Some e, p')
              | None \<Rightarrow> (consumer_run dr, p')))"

definition start_worker :: "drivers \<Rightarrow> process \<Rightarrow> js_error option \<times> process" where
  "start_worker dr p = (None, p\<lparr>ps_worker := snd (startHoldExpiryWorker (new_worker dr) (ps_worker p))\<rparr>)"

definition install_handlers :: "process \<Rightarrow> js_error option \<times> process" where
  "install_handlers p = (None, p\<lparr>ps_handlers := True\<rparr>)"

definition app_listens :: "drivers \<Rightarrow> rat \<Rightarrow> process \<Rightarrow> js_error option \<times> process" where
  "app_listens dr port p =
     (case app_listen dr port of
        Some e \<Rightarrow> (Some e, p)
      | None \<Rightarrow> (None, p\<lparr>ps_server := map_option (\<lambda>s. s\<lparr>sv_listening := True\<rparr>) (ps_server p)\<rparr>))"

definition process_boot :: "drivers \<Rightarrow> process boot_deps" where
  "process_boot dr = \<lparr>connectProducer = connect_producer dr, startCdcConsumer = start_consumer dr,
     startWorker = start_worker dr, installHandlers = install_handlers, listen_on = app_listens dr\<rparr>"

subsection \<open>Stopping\<close>

text \<open>
  \<open>closeServer\<close>: with a server the drain begins, and when \<open>close\<close> resolves every request in flight
  has got its response.
\<close>

definition close_server :: "drivers \<Rightarrow> process \<Rightarrow> js_error option \<times> process" where
  "close_server dr p =
     (app_close dr,
      p\<lparr>ps_server := (case ps_server p of
           None \<Rightarrow> None
         | Some s \<Rightarrow> Some (case app_close dr of
               Some e \<Rightarrow> begin_drain s
             | None \<Rightarrow> fold response_finished (sv_busy s) (http_close (begin_drain s))))\<rparr>)"

definition disconnect_producer :: "drivers \<Rightarrow> process \<Rightarrow> js_error option \<times> process" where
  "disconnect_producer dr p =
     (case producer_disconnect dr of
        Some e \<Rightarrow> (Some e, p)
      | None \<Rightarrow> (None, p\<lparr>ps_producer := on_client_event DISCONNECT (ps_producer p)\<rparr>))"

definition stop_consumer :: "drivers \<Rightarrow> process \<Rightarrow> js_error option \<times> process" where
  "stop_consumer dr p =
     (if \<not> stop_disconnects (ps_consumer p) then (None, p)
      else case consumer_disconnect dr of
             Some e \<Rightarrow> (Some e, p)
           | None \<Rightarrow> (None, p\<lparr>ps_consumer := on_client_event DISCONNECT (ps_consumer p)\<rparr>))"

definition stop_worker :: "drivers \<Rightarrow> process \<Rightarrow> js_error option \<times> process" where
  "stop_worker dr p =
     (case stopHoldExpiryWorker (worker_close dr) (queue_close dr) (ps_worker p) of
        (r, calls, worker) \<Rightarrow>
          (r, p\<lparr>ps_worker := worker,
             ps_queue_open := ps_queue_open p \<and> \<not> (ClosedQueue \<in> set calls \<and> queue_close dr = None)\<rparr>))"

definition close_pool :: "drivers \<Rightarrow> process \<Rightarrow> js_error option \<times> process" where
  "close_pool dr p = (pool_end dr, p\<lparr>ps_pool_open := ps_pool_open p \<and> pool_end dr \<noteq> None\<rparr>)"

definition makeDefaultShutdownDeps :: "drivers \<Rightarrow> process shutdown_deps" where
  "makeDefaultShutdownDeps dr = \<lparr>closeServer = close_server dr, stopProducer = disconnect_producer dr,
     stopCdcConsumer = stop_consumer dr, stopWorker = stop_worker dr, closeDb = close_pool dr\<rparr>"

subsection \<open>From start to shutdown\<close>

definition running :: "process \<Rightarrow> bool" where
  "running p \<longleftrightarrow> cn_connected (ps_producer p) \<and> cn_connected (ps_consumer p) \<and> ps_worker p \<noteq> None \<and>
     ps_handlers p \<and> (\<forall>s. ps_server p = Some s \<longrightarrow> sv_listening s)"

definition server_quiet :: "process \<Rightarrow> bool" where
  "server_quiet p \<longleftrightarrow> (\<forall>s. ps_server p = Some s \<longrightarrow> \<not> sv_listening s \<and> sv_busy s = [] \<and> sv_idle s = [])"

lemma boot_step_ok:
  "connect_producer dr p = (None, q) \<Longrightarrow> q = p\<lparr>ps_producer := on_client_event CONNECT (ps_producer p)\<rparr>"
  "start_consumer dr p = (None, q) \<Longrightarrow> q = p\<lparr>ps_consumer := on_client_event CONNECT (ps_consumer p)\<rparr>"
  "app_listens dr port p = (None, q) \<Longrightarrow> q = p\<lparr>ps_server := map_option (\<lambda>s. s\<lparr>sv_listening := True\<rparr>) (ps_server p)\<rparr>"
  by (auto simp: connect_producer_def start_consumer_def app_listens_def Let_def split: option.splits)

lemma run_boot_ok:
  "run_boot ((name, run) # steps) s = (names, None, s'') \<Longrightarrow>
   \<exists>s' names'. run s = (None, s') \<and> run_boot steps s' = (names', None, s'')"
  by (auto split: prod.splits option.splits)

lemma started_running:
  assumes "start (process_boot dr) e fresh_process = (names, None, p)"
  shows "running p"
proof -
  note run = assms [unfolded start_def boot_steps_def process_boot_def boot_deps.simps]
  from run_boot_ok [OF run] obtain p1 n1 where 1: "connect_producer dr fresh_process = (None, p1)"
    and r1: "run_boot [(''cdc-consumer'', start_consumer dr), (''hold-expiry-worker'', start_worker dr),
      (''shutdown-handlers'', install_handlers), (''listen'', app_listens dr (en_PORT e))] p1 = (n1, None, p)" by blast
  from run_boot_ok [OF r1] obtain p2 n2 where 2: "start_consumer dr p1 = (None, p2)"
    and r2: "run_boot [(''hold-expiry-worker'', start_worker dr),
      (''shutdown-handlers'', install_handlers), (''listen'', app_listens dr (en_PORT e))] p2 = (n2, None, p)" by blast
  from run_boot_ok [OF r2] obtain p3 n3 where 3: "start_worker dr p2 = (None, p3)"
    and r3: "run_boot [(''shutdown-handlers'', install_handlers), (''listen'', app_listens dr (en_PORT e))] p3 = (n3, None, p)" by blast
  from run_boot_ok [OF r3] obtain p4 n4 where 4: "install_handlers p3 = (None, p4)"
    and r4: "run_boot [(''listen'', app_listens dr (en_PORT e))] p4 = (n4, None, p)" by blast
  from run_boot_ok [OF r4] obtain p5 n5 where 5: "app_listens dr (en_PORT e) p4 = (None, p5)"
    and r5: "run_boot [] p5 = (n5, None, p)" by blast
  have "p = p5" using r5 by simp
  with boot_step_ok(1) [OF 1] boot_step_ok(2) [OF 2] 3 4 boot_step_ok(3) [OF 5] show ?thesis
    by (auto simp: running_def start_worker_def install_handlers_def startHoldExpiryWorker_def fresh_process_def)
qed

lemma run_shutdown:
  "snd (gracefulShutdown message_of deps s) =
     snd (closeDb deps (snd (stopWorker deps (snd (stopCdcConsumer deps (snd (stopProducer deps
       (snd (closeServer deps s)))))))))"
  by (simp add: gracefulShutdown_def shutdown_steps_def split: prod.splits)

lemma finish_all:
  "sv_draining s \<Longrightarrow> distinct (sv_busy s) \<Longrightarrow> set cs \<subseteq> set (sv_busy s) \<Longrightarrow> distinct cs \<Longrightarrow> sv_idle s = [] \<Longrightarrow>
   let s' = fold response_finished cs s
   in sv_listening s' = sv_listening s \<and> set (sv_busy s') = set (sv_busy s) - set cs \<and> sv_idle s' = []"
proof (induction cs arbitrary: s)
  case (Cons c cs)
  let ?s = "response_finished c s"
  have "sv_draining ?s" "sv_listening ?s = sv_listening s" "sv_busy ?s = remove1 c (sv_busy s)" "sv_idle ?s = []"
    using Cons.prems by (simp_all add: response_finished_def closeIdleConnections_def Let_def)
  with Cons.IH [of ?s] Cons.prems show ?case by (auto simp: Let_def)
qed simp

lemma closed_server_quiet:
  assumes "app_close dr = None" and "\<forall>s. ps_server p = Some s \<longrightarrow> distinct (sv_busy s)"
  shows "server_quiet (snd (close_server dr p))"
proof (cases "ps_server p")
  case (Some s)
  let ?s = "http_close (begin_drain s)"
  have "sv_draining ?s" "sv_busy ?s = sv_busy s" "sv_idle ?s = []" "\<not> sv_listening ?s"
    by (simp_all add: http_close_def begin_drain_def closeIdleConnections_def)
  with finish_all [of ?s "sv_busy s"] assms Some show ?thesis
    by (simp add: server_quiet_def close_server_def Let_def)
qed (simp add: server_quiet_def close_server_def)

text \<open>What each step leaves alone, and what it does when its own call succeeds.\<close>

lemma step_frames:
  "ps_worker (snd (close_server dr p)) = ps_worker p"
  "ps_server (snd (disconnect_producer dr p)) = ps_server p" "ps_worker (snd (disconnect_producer dr p)) = ps_worker p"
  "ps_server (snd (stop_consumer dr p)) = ps_server p" "ps_worker (snd (stop_consumer dr p)) = ps_worker p"
  "ps_producer (snd (stop_consumer dr p)) = ps_producer p"
  "ps_server (snd (stop_worker dr p)) = ps_server p" "ps_producer (snd (stop_worker dr p)) = ps_producer p"
  "ps_consumer (snd (stop_worker dr p)) = ps_consumer p"
  "ps_server (snd (close_pool dr p)) = ps_server p" "ps_producer (snd (close_pool dr p)) = ps_producer p"
  "ps_consumer (snd (close_pool dr p)) = ps_consumer p" "ps_worker (snd (close_pool dr p)) = ps_worker p"
  "ps_queue_open (snd (close_pool dr p)) = ps_queue_open p"
  by (simp_all add: close_server_def disconnect_producer_def stop_consumer_def stop_worker_def close_pool_def
      split: option.split prod.split)

lemma step_effects:
  "producer_disconnect dr = None \<Longrightarrow> \<not> cn_connected (ps_producer (snd (disconnect_producer dr p)))"
  "consumer_disconnect dr = None \<Longrightarrow> \<not> cn_connected (ps_consumer (snd (stop_consumer dr p)))"
  "ps_worker (snd (stop_worker dr p)) = None"
  "queue_close dr = None \<Longrightarrow> \<forall>w. ps_worker p = Some w \<longrightarrow> worker_close dr w = None \<Longrightarrow>
     \<not> ps_queue_open (snd (stop_worker dr p))"
  "pool_end dr = None \<Longrightarrow> \<not> ps_pool_open (snd (close_pool dr p))"
  by (auto simp: disconnect_producer_def stop_consumer_def stop_disconnects_def stop_worker_def
      stopHoldExpiryWorker_def close_pool_def split: option.splits)

lemma server_quiet_frame: "ps_server p' = ps_server p \<Longrightarrow> server_quiet p \<Longrightarrow> server_quiet p'"
  by (simp add: server_quiet_def)


definition demo_drivers :: drivers where
  "demo_drivers = \<lparr>producer_connect = None, producer_disconnect = Some (PlainError ''gone''), consumer_connect = None,
     consumer_subscribe = None, consumer_run = None, consumer_disconnect = None, new_worker = 1,
     worker_close = (\<lambda>w. None), queue_close = None, pool_end = None, app_listen = (\<lambda>port. None), app_close = None\<rparr>"


end
