(* ===== verification/Bad_Requests.thy ===== *)
theory Bad_Requests
  imports Http
begin

text \<open>
  Which requests are answered with \<open>VALIDATION_ERROR\<close>. A use case never fails with an error that
  the error handler turns into status 400, so that reply says exactly that a schema of the
  controller has refused the request, and then nothing has happened.
\<close>

subsection \<open>Errors of the use cases\<close>

definition not_400 :: "js_error \<Rightarrow> bool" where
  "not_400 e \<longleftrightarrow> (\<forall>is. e \<noteq> ZodError is) \<and> (\<forall>m. e \<noteq> FastifyError m (Some 400)) \<and> (\<forall>m c. e \<noteq> AppError m 400 c)"

lemma not_400_status: "not_400 e \<Longrightarrow> er_status (errorHandler prettify e) \<noteq> 400"
  by (cases e) (auto simp: not_400_def)

lemma not_400_simps [simp]: "domain_error e \<Longrightarrow> not_400 e" "not_400 (DbError c)" "not_400 (PlainError m)"
  by (auto simp: not_400_def domain_error_def)

text \<open>A query that never fails with status 400, and how such queries compose.\<close>

definition ordinary :: "'a query \<Rightarrow> bool" where
  "ordinary m \<longleftrightarrow> (\<forall>d e. m d = Inl e \<longrightarrow> not_400 e)"

named_theorems ordinary_intros \<open>queries whose errors are not validation errors\<close>

lemma ordinary_bind [ordinary_intros]: "ordinary m \<Longrightarrow> (\<And>x. ordinary (f x)) \<Longrightarrow> ordinary (tx_bind m f)"
  by (auto simp: ordinary_def tx_bind_def split: sum.splits)

lemma ordinary_basic [ordinary_intros]:
  "ordinary (tx_return x)" "not_400 e \<Longrightarrow> ordinary (tx_throw e)" "ordinary (update_bookings f p)"
  "ordinary (update_seats to q)" "ordinary (insert_booking sid uid st h now)"
  by (auto simp: ordinary_def update_bookings_def update_seats_def insert_booking_def Let_def
      out_of_range_def sequence_exhausted_def foreign_key_violation_def split: if_splits)

lemma ordinary_first [ordinary_intros]:
  assumes "ordinary (\<lambda>d. m d)"
  shows "ordinary (\<lambda>d. if c then Inl out_of_range else m d)"
  using assms by (auto simp: ordinary_def out_of_range_def split: if_splits)

lemma ordinary_rows [ordinary_intros]:
  "ordinary (reserveSeatRow i)" "ordinary (confirmSeatRow i)" "ordinary (releaseHeldOrBookedSeatRow i)"
  "ordinary (findSeatById i)"
  by (auto simp: ordinary_def reserveSeatRow_def confirmSeatRow_def releaseHeldOrBookedSeatRow_def
      findSeatById_def update_seats_def tx_bind_def out_of_range_def split: if_splits sum.splits)

lemma ordinary_transactions:
  "ordinary (reserve_tx sid uid h now)" "ordinary (confirm_tx now bid)" "ordinary (cancel_tx now bid)"
  unfolding reserve_tx_def [abs_def] confirm_tx_def [abs_def] cancel_tx_def [abs_def] confirm_drift_def cancel_drift_def
  by (intro ordinary_intros; simp split: option.split add: ordinary_intros)+

lemma ordinary_transaction: "ordinary m \<Longrightarrow> transaction m d = (Inl e, d') \<Longrightarrow> not_400 e"
  by (auto simp: ordinary_def transaction_def split: sum.splits)

lemma booking_errors_not_400:
  "reserveSeat svc h sid uid t1 t2 t3 t4 w = (Inl e, w') \<Longrightarrow> not_400 e"
  "confirmBooking svc bid uid t1 t2 w = (Inl e, w') \<Longrightarrow> not_400 e"
  "cancelBooking svc bid uid t1 t2 w = (Inl e, w') \<Longrightarrow> not_400 e"
  "getBooking bid uid d = Inl e \<Longrightarrow> not_400 e" "listBookings uid d = Inl e \<Longrightarrow> not_400 e"
proof -
  have check: "not_400 e" if "reserve_check sid d = Inl e" for sid d e
    using that ordinary_rows(4) [of sid]
    by (auto simp: reserve_check_def ordinary_def split: sum.splits option.splits)
  have own: "not_400 e" if "owner_check bid uid d = Inl e" for bid uid d e
    using that by (auto simp: owner_check_def select_own_booking_def out_of_range_def split: sum.splits option.splits if_splits)
  show "reserveSeat svc h sid uid t1 t2 t3 t4 w = (Inl e, w') \<Longrightarrow> not_400 e"
    by (auto simp: reserveSeat_def Let_def dest: check ordinary_transaction [OF ordinary_transactions(1)]
        split: sum.splits prod.splits)
  show "confirmBooking svc bid uid t1 t2 w = (Inl e, w') \<Longrightarrow> not_400 e"
    by (auto simp: confirmBooking_def dest: own ordinary_transaction [OF ordinary_transactions(2)]
        split: sum.splits prod.splits option.splits)
  show "cancelBooking svc bid uid t1 t2 w = (Inl e, w') \<Longrightarrow> not_400 e"
    by (auto simp: cancelBooking_def dest: own ordinary_transaction [OF ordinary_transactions(3)]
        split: sum.splits prod.splits option.splits)
  show "getBooking bid uid d = Inl e \<Longrightarrow> not_400 e" "listBookings uid d = Inl e \<Longrightarrow> not_400 e"
    by (auto simp: getBooking_def listBookings_def select_own_booking_def out_of_range_def
        split: sum.splits option.splits if_splits)
qed

text \<open>The key derivation fails with errors of its own, never with those of a schema.\<close>

definition kdf_errors_plain :: "auth_env \<Rightarrow> bool" where
  "kdf_errors_plain env \<longleftrightarrow> (\<forall>p s n e. au_scrypt env p s n = Inl e \<longrightarrow> not_400 e)"

lemma public_errors_not_400:
  "kdf_errors_plain env \<Longrightarrow> registerUser env salt email password now d = (Inl e, d') \<Longrightarrow> not_400 e"
  "kdf_errors_plain env \<Longrightarrow> loginUser env email password d = Inl e \<Longrightarrow> not_400 e"
  "listSeatsForEvent coll eventId status limit d = Inl e \<Longrightarrow> not_400 e"
  by (auto simp: registerUser_def register_check_def register_insert_def createUser_def hashPassword_def
      loginUser_def verifyPassword_def listSeatsForEvent_def findEventById_def out_of_range_def
      sequence_exhausted_def unique_violation_def kdf_errors_plain_def Let_def
      split: sum.splits option.splits prod.splits if_splits)

subsection \<open>Requests the schemas accept\<close>

definition id_text :: "schemas \<Rightarrow> string \<Rightarrow> bool" where
  "id_text sc p \<longleftrightarrow> (\<exists>n. text_number (sc_lib sc) p = Some (of_int n) \<and> safe_id n)"

fun acceptable :: "schemas \<Rightarrow> request \<Rightarrow> route \<Rightarrow> bool" where
  "acceptable sc rq ReserveRoute \<longleftrightarrow>
     (\<exists>ps n. rq_body rq = Some (JObj ps) \<and> to_number (sc_lib sc) (map_of ps ''seatId'') = Some (of_int n) \<and> safe_id n)"
| "acceptable sc rq GetBookingRoute \<longleftrightarrow> id_text sc (rq_param rq)"
| "acceptable sc rq ConfirmRoute \<longleftrightarrow> id_text sc (rq_param rq)"
| "acceptable sc rq CancelRoute \<longleftrightarrow> id_text sc (rq_param rq)"
| "acceptable sc rq ListSeatsRoute \<longleftrightarrow> id_text sc (rq_param rq) \<and>
     (query_value (rq_query rq) ''status'' \<noteq> None \<longrightarrow>
        query_value (rq_query rq) ''status'' \<in> (\<lambda>st. Some (JStr (seat_status_text st))) ` {Available, Held, Booked}) \<and>
     (query_value (rq_query rq) ''limit'' \<noteq> None \<longrightarrow>
        (\<exists>n::nat. to_number (sc_lib sc) (query_value (rq_query rq) ''limit'') = Some (of_nat n) \<and> 1 \<le> n \<and> n \<le> 1000))"
| "acceptable sc rq RegisterRoute \<longleftrightarrow>
     (\<exists>ps email password. rq_body rq = Some (JObj ps) \<and> map_of ps ''email'' = Some (JStr email) \<and>
        map_of ps ''password'' = Some (JStr password) \<and> valid_email sc email \<and> 8 \<le> length password)"
| "acceptable sc rq LoginRoute \<longleftrightarrow>
     (\<exists>ps email password. rq_body rq = Some (JObj ps) \<and> map_of ps ''email'' = Some (JStr email) \<and>
        map_of ps ''password'' = Some (JStr password) \<and> valid_email sc email \<and> 8 \<le> length password)"
| "acceptable sc rq ListBookingsRoute \<longleftrightarrow> True"
| "acceptable sc rq ListEventsRoute \<longleftrightarrow> True"

lemma accepted_values:
  "(\<exists>n. reserveSeatSchema sc (rq_body rq) = Inr n) \<longleftrightarrow> acceptable sc rq ReserveRoute"
  "(\<exists>n. bookingIdParamSchema sc p = Inr n) \<longleftrightarrow> id_text sc p"
  "(\<exists>n. eventIdParamSchema sc p = Inr n) \<longleftrightarrow> id_text sc p"
  "(\<exists>x. credentialsSchema sc (rq_body rq) = Inr x) \<longleftrightarrow> acceptable sc rq LoginRoute"
  by (auto simp: reserveSeatSchema_ok idParamSchema_ok id_text_def credentialsSchema_ok)

lemma accepted_query:
  "(\<exists>x. seatsQuerySchema sc q = Inr x) \<longleftrightarrow>
     (query_value q ''status'' \<noteq> None \<longrightarrow>
        query_value q ''status'' \<in> (\<lambda>st. Some (JStr (seat_status_text st))) ` {Available, Held, Booked}) \<and>
     (query_value q ''limit'' \<noteq> None \<longrightarrow>
        (\<exists>n::nat. to_number (sc_lib sc) (query_value q ''limit'') = Some (of_nat n) \<and> 1 \<le> n \<and> n \<le> 1000))"
    (is "?l \<longleftrightarrow> ?s \<and> ?m")
proof
  assume ?l
  then obtain st limit where x: "seatsQuerySchema sc q = Inr (st, limit)" by auto
  have "st = Some a \<Longrightarrow> a \<in> {Available, Held, Booked}" for a by (cases a) auto
  with x show "?s \<and> ?m" unfolding seatsQuerySchema_ok by (cases st; cases limit) auto
next
  assume r: "?s \<and> ?m"
  obtain st where st: "query_value q ''status'' = map_option (\<lambda>s. JStr (seat_status_text s)) st"
  proof (cases "query_value q ''status''")
    case None
    with that [of None] show thesis by simp
  next
    case (Some v)
    with r that show thesis by (metis (mono_tags, lifting) imageE option.distinct(1) option.simps(9))
  qed
  show ?l
  proof (cases "query_value q ''limit''")
    case None
    with st have "seatsQuerySchema sc q = Inr (st, None)" by (simp add: seatsQuerySchema_ok)
    then show ?thesis by blast
  next
    case (Some v)
    with r obtain n :: nat where "to_number (sc_lib sc) (Some v) = Some (of_nat n)" "1 \<le> n" "n \<le> 1000" by auto
    with Some st have "seatsQuerySchema sc q = Inr (st, Some n)" by (simp add: seatsQuerySchema_ok)
    then show ?thesis by blast
  qed
qed

lemma parse_accepted: "(\<exists>x. schema v = Inr x) \<Longrightarrow> \<exists>x. parse schema v = Inr x"
  by (auto simp: parse_def)

lemma parse_refused: "\<not> (\<exists>x. schema v = Inr x) \<Longrightarrow> \<exists>is. parse schema v = Inl (ZodError is)"
  by (cases "schema v") (auto simp: parse_def)

lemma id_parsed:
  assumes "id_text sc p"
  obtains i where "parse (bookingIdParamSchema sc) p = Inr i"
  using assms parse_accepted [of "bookingIdParamSchema sc" p] accepted_values(2) [of sc p] by auto

lemma event_id_parsed:
  assumes "id_text sc p"
  obtains i where "parse (eventIdParamSchema sc) p = Inr i"
  using assms parse_accepted [of "eventIdParamSchema sc" p] accepted_values(3) [of sc p] by auto

text \<open>A controller does nothing on a refused request, and fails ordinarily on an accepted one.\<close>

definition refused :: "('q, 'k) handled \<Rightarrow> ('q, 'k) world \<Rightarrow> bool" where
  "refused r w \<longleftrightarrow> (\<exists>is. r = (Inl (ZodError is), w))"

definition fails_ordinarily :: "('q, 'k) handled \<Rightarrow> bool" where
  "fails_ordinarily r \<longleftrightarrow> (\<forall>e. fst r = Inl e \<longrightarrow> not_400 e) \<and>
     (\<forall>n b. fst r = Inr (n, b) \<longrightarrow> n \<noteq> 400)"

lemma booking_refused:
  assumes "requires_auth r" and "\<not> acceptable sc rq r"
  shows "refused (booking_controller sc svc su rq r uid w) w"
  using assms parse_refused [of "reserveSeatSchema sc" "rq_body rq"]
    parse_refused [of "bookingIdParamSchema sc" "rq_param rq"] accepted_values [of sc]
  by (cases r) (auto simp: refused_def reserveSeatHandler_def confirmBookingHandler_def
      cancelBookingHandler_def getBookingHandler_def)

lemma booking_accepted:
  assumes "requires_auth r" and "acceptable sc rq r"
  shows "fails_ordinarily (booking_controller sc svc su rq r uid w)"
proof (cases r)
  case ReserveRoute
  with assms parse_accepted [of "reserveSeatSchema sc" "rq_body rq"] accepted_values(1) [of sc rq]
  obtain i where "parse (reserveSeatSchema sc) (rq_body rq) = Inr i" by auto
  with ReserveRoute show ?thesis
    by (auto simp: fails_ordinarily_def reserveSeatHandler_def dest: booking_errors_not_400(1) split: sum.splits prod.splits)
next
  case ListBookingsRoute
  then show ?thesis
    by (auto simp: fails_ordinarily_def listBookingsHandler_def dest: booking_errors_not_400 split: sum.splits)
next
  case GetBookingRoute
  with assms obtain i where "parse (bookingIdParamSchema sc) (rq_param rq) = Inr i"
    by (auto elim: id_parsed)
  with GetBookingRoute show ?thesis
    by (auto simp: fails_ordinarily_def getBookingHandler_def dest: booking_errors_not_400 split: sum.splits)
next
  case ConfirmRoute
  with assms obtain i where "parse (bookingIdParamSchema sc) (rq_param rq) = Inr i"
    by (auto elim: id_parsed)
  with ConfirmRoute show ?thesis
    by (auto simp: fails_ordinarily_def confirmBookingHandler_def dest: booking_errors_not_400 split: sum.splits prod.splits)
next
  case CancelRoute
  with assms obtain i where "parse (bookingIdParamSchema sc) (rq_param rq) = Inr i"
    by (auto elim: id_parsed)
  with CancelRoute show ?thesis
    by (auto simp: fails_ordinarily_def cancelBookingHandler_def dest: booking_errors_not_400 split: sum.splits prod.splits)
qed (use assms in simp_all)

lemma public_refused:
  assumes "\<not> requires_auth r" and "\<not> acceptable sc rq r"
  shows "refused (public_controller sc env su rq r w) w"
proof (cases r)
  case ListSeatsRoute
  show ?thesis
  proof (cases "id_text sc (rq_param rq)")
    case True
    then obtain i where i: "parse (eventIdParamSchema sc) (rq_param rq) = Inr i" by (rule event_id_parsed)
    from True assms(2) ListSeatsRoute have "\<not> (\<exists>x. seatsQuerySchema sc (rq_query rq) = Inr x)"
      unfolding accepted_query by simp
    with parse_refused [of "seatsQuerySchema sc" "rq_query rq"] i ListSeatsRoute show ?thesis
      by (auto simp: refused_def listSeatsForEventHandler_def)
  next
    case False
    with accepted_values(3) [of sc "rq_param rq"] parse_refused [of "eventIdParamSchema sc" "rq_param rq"] ListSeatsRoute
    show ?thesis by (auto simp: refused_def listSeatsForEventHandler_def)
  qed
next
  case RegisterRoute
  with assms(2) accepted_values(4) [of sc rq] parse_refused [of "credentialsSchema sc" "rq_body rq"]
  show ?thesis by (auto simp: refused_def registerHandler_def)
next
  case LoginRoute
  with assms(2) accepted_values(4) [of sc rq] parse_refused [of "credentialsSchema sc" "rq_body rq"]
  show ?thesis by (auto simp: refused_def loginHandler_def)
qed (use assms in simp_all)

lemma public_accepted:
  assumes "\<not> requires_auth r" and "acceptable sc rq r" and "kdf_errors_plain env"
  shows "fails_ordinarily (public_controller sc env su rq r w)"
proof (cases r)
  case ListEventsRoute
  then show ?thesis by (simp add: fails_ordinarily_def listEventsHandler_def)
next
  case ListSeatsRoute
  with assms(2) obtain i where i: "parse (eventIdParamSchema sc) (rq_param rq) = Inr i"
    by (auto elim: event_id_parsed)
  from assms(2) ListSeatsRoute have "\<exists>x. seatsQuerySchema sc (rq_query rq) = Inr x"
    unfolding accepted_query by simp
  then obtain st n where "parse (seatsQuerySchema sc) (rq_query rq) = Inr (st, n)" by (auto simp: parse_def)
  with i ListSeatsRoute show ?thesis
    by (auto simp: fails_ordinarily_def listSeatsForEventHandler_def dest: public_errors_not_400(3) split: sum.splits)
next
  case RegisterRoute
  with assms(2) accepted_values(4) [of sc rq] parse_accepted [of "credentialsSchema sc" "rq_body rq"]
  obtain x where "parse (credentialsSchema sc) (rq_body rq) = Inr x" by auto
  with RegisterRoute public_errors_not_400(1) [OF assms(3)] show ?thesis
    by (cases x) (auto simp: fails_ordinarily_def registerHandler_def split: sum.splits prod.splits)
next
  case LoginRoute
  with assms(2) accepted_values(4) [of sc rq] parse_accepted [of "credentialsSchema sc" "rq_body rq"]
  obtain x where "parse (credentialsSchema sc) (rq_body rq) = Inr x" by auto
  with LoginRoute public_errors_not_400(2) [OF assms(3)] show ?thesis
    by (cases x) (auto simp: fails_ordinarily_def loginHandler_def split: sum.splits)
qed (use assms in simp_all)

lemma handlers_refuse:
  assumes "requires_auth (rq_route rq) \<longrightarrow> (\<exists>uid. requireAuth env (rq_authorization rq) = Inr uid)"
    and "\<not> acceptable sc rq (rq_route rq)"
  shows "refused (run_handlers sc env svc su rq w) w"
proof (cases "requires_auth (rq_route rq)")
  case True
  with assms(1) obtain uid where "requireAuth env (rq_authorization rq) = Inr uid" by blast
  with True booking_refused [OF True assms(2)] show ?thesis by (simp add: run_handlers_def)
next
  case False
  with public_refused [OF False assms(2)] show ?thesis by (simp add: run_handlers_def)
qed

lemma handlers_accept:
  assumes "acceptable sc rq (rq_route rq)" and "kdf_errors_plain env"
  shows "fails_ordinarily (run_handlers sc env svc su rq w)"
proof (cases "requires_auth (rq_route rq)")
  case True
  show ?thesis
  proof (cases "requireAuth env (rq_authorization rq)")
    case (Inl e)
    with True requireAuth_error [OF Inl] show ?thesis
      by (auto simp: run_handlers_def fails_ordinarily_def)
  next
    case (Inr uid)
    with True booking_accepted [OF True assms(1)] show ?thesis by (simp add: run_handlers_def)
  qed
next
  case False
  with public_accepted [OF False assms] show ?thesis by (simp add: run_handlers_def)
qed

text \<open>
  C29. Validation is exact: a request that the rate limiter lets through, with a valid token where
  the route wants one, is answered with 400 VALIDATION_ERROR exactly when its body, its id or its
  query string is not what the route takes (ids and seat numbers are integers from 1 to 2^53 - 1
  once converted, the status one of three words, the limit from 1 to 1000, an email and at least
  eight characters of password), and then neither the database nor the queue, the broker or the
  counters change.
\<close>

theorem validation_exact:
  assumes "fst (rateLimiter rd lims (Some (route_url (rq_route rq))) (rq_ip rq) st) = Inr ()"
    and "requires_auth (rq_route rq) \<longrightarrow> (\<exists>uid. requireAuth env (rq_authorization rq) = Inr uid)"
    and "kdf_errors_plain env"
    and "serve_request sc env svc rd lims su rid rq st w = (rp, st', w')"
  shows "(rp_status rp = 400 \<longleftrightarrow> \<not> acceptable sc rq (rq_route rq)) \<and>
    (rp_status rp = 400 \<longrightarrow> (\<exists>m. rp_body rp = ErrorBody ''VALIDATION_ERROR'' m) \<and> w' = w)"
proof (cases "acceptable sc rq (rq_route rq)")
  case True
  have "rp = send sc rid (fst (run_handlers sc env svc su rq w))"
    using assms(4) by (simp add: serve_when_allowed [OF assms(1)])
  with handlers_accept [OF True assms(3), of svc su w] have "rp_status rp \<noteq> 400"
    by (auto simp: send_status fails_ordinarily_def not_400_status split: sum.split)
  with True show ?thesis by simp
next
  case False
  from handlers_refuse [OF assms(2) False, of svc su w] assms(4) show ?thesis
    using False by (auto simp: serve_when_allowed [OF assms(1)] refused_def send_def Let_def)
qed

theorem validation_exact_witness:
  "rp_status (fst (serve_request demo_schemas demo_env quiet_services plain_redis demo_limits demo_surroundings ''r''
     (demo_request GetBookingRoute ''0'' (Some (''Bearer '' @ show_int 1))) (\<lambda>_. 0, \<lambda>_. None) (demo_world demo_held))) = 400"
proof -
  let ?rq = "demo_request GetBookingRoute ''0'' (Some (''Bearer '' @ show_int 1))"
  have "read_int ''0'' = 0" by (simp add: read_int_def read_nat_def undigit_def)
  then have "\<not> acceptable demo_schemas ?rq (rq_route ?rq)"
    by (simp add: demo_request_def id_text_def demo_schemas_def page_lib_def safe_id_def)
  moreover have "requires_auth (rq_route ?rq) \<longrightarrow> (\<exists>uid. requireAuth demo_env (rq_authorization ?rq) = Inr uid)"
    using demo_token by (simp add: demo_request_def)
  moreover have "kdf_errors_plain demo_env" by (simp add: kdf_errors_plain_def demo_env_def demo_kdf_def)
  ultimately show ?thesis
    using validation_exact [OF demo_rate, of ?rq demo_env demo_schemas quiet_services demo_surroundings "''r''"
        "demo_world demo_held"]
    by (metis prod.exhaust_sel)
qed

end
