(* ===== verification/Load_Tests.thy ===== *)
theory Load_Tests
  imports Scripts Auth Booking_Usecases Wire
begin

text \<open>
  The two load tests (\<open>load-test/reserve-auth-load-test.js\<close>, \<open>load-test/login-load-test.js\<close>) against
  the modelled backend: the connections that \<open>setupClient\<close> prepares, each with a token of the pool
  and the next seat as its body, and the \<open>response\<close> listener that gives it the seat after; the
  pool of credentials whose logins are measured. Autocannon is the step relation: a connection
  sends its request, waits for the answer and sends again. Its statistics are not modelled.
\<close>

subsection \<open>Connections of the reservation test\<close>

record client =
  cl_token :: string
  cl_body :: int
  cl_waiting :: bool

record load_run =
  lr_tokenCursor :: nat
  lr_seatCursor :: int
  lr_clients :: "nat \<rightharpoonup> client"
  lr_answered :: "(int \<times> bool) list"          \<comment> \<open>history: the seat asked for, and whether it was reserved\<close>

definition load_start :: "int \<Rightarrow> load_run" where
  "load_start start = \<lparr>lr_tokenCursor = 0, lr_seatCursor = start, lr_clients = Map.empty, lr_answered = []\<rparr>"

definition setupClient :: "string list \<Rightarrow> nat \<Rightarrow> load_run \<Rightarrow> load_run" where
  "setupClient tokens c r =
     r\<lparr>lr_clients := (lr_clients r)(c \<mapsto> \<lparr>cl_token = client_token tokens (lr_tokenCursor r),
          cl_body = lr_seatCursor r, cl_waiting = False\<rparr>),
       lr_tokenCursor := lr_tokenCursor r + 1, lr_seatCursor := lr_seatCursor r + 1\<rparr>"

definition send_body :: "nat \<Rightarrow> client \<Rightarrow> load_run \<Rightarrow> load_run" where
  "send_body c cl r = r\<lparr>lr_clients := (lr_clients r)(c \<mapsto> cl\<lparr>cl_waiting := True\<rparr>)\<rparr>"

definition on_client_response :: "nat \<Rightarrow> client \<Rightarrow> bool \<Rightarrow> load_run \<Rightarrow> load_run" where
  "on_client_response c cl reserved r =
     r\<lparr>lr_answered := lr_answered r @ [(cl_body cl, reserved)],
       lr_clients := (lr_clients r)(c \<mapsto> cl\<lparr>cl_body := lr_seatCursor r, cl_waiting := False\<rparr>),
       lr_seatCursor := lr_seatCursor r + 1\<rparr>"

text \<open>The server handles a request at some point while its connection waits.\<close>

inductive load_step ::
  "string list \<Rightarrow> (string \<Rightarrow> int) \<Rightarrow> ('q, 'k) services \<Rightarrow> int \<Rightarrow>
   load_run \<times> ('q, 'k) world \<Rightarrow> load_run \<times> ('q, 'k) world \<Rightarrow> bool"
  for tokens :: "string list" and user_of :: "string \<Rightarrow> int" and svc :: "('q, 'k) services" and hold_ms :: int where
  connects: "lr_clients r c = None \<Longrightarrow>
     load_step tokens user_of svc hold_ms (r, w) (setupClient tokens c r, w)"
| sends: "lr_clients r c = Some cl \<Longrightarrow> \<not> cl_waiting cl \<Longrightarrow>
     load_step tokens user_of svc hold_ms (r, w) (send_body c cl r, w)"
| answered: "lr_clients r c = Some cl \<Longrightarrow> cl_waiting cl \<Longrightarrow>
     reserveSeat svc hold_ms (cl_body cl) (user_of (cl_token cl)) t1 t2 t3 t4 w = (result, w') \<Longrightarrow>
     load_step tokens user_of svc hold_ms (r, w) (on_client_response c cl (\<not> isl result) r, w')"

definition load_ready :: "string list \<Rightarrow> (string \<Rightarrow> int) \<Rightarrow> ('q, 'k) world \<Rightarrow> bool" where
  "load_ready tokens user_of w \<longleftrightarrow> tokens \<noteq> [] \<and> consistent (w_db w) \<and> versions_room (w_db w) \<and>
     (\<forall>t\<in>set tokens. int4_ok (user_of t) \<and> user_of t \<in> user_id ` set (users (w_db w)))"

definition seat_open :: "db \<Rightarrow> int \<Rightarrow> bool" where
  "seat_open d x \<longleftrightarrow> (\<exists>s. seat_at d x = Some s \<and> seat_status s = Available)"

subsection \<open>One reservation\<close>

lemma seat_at_other: "x \<noteq> y \<Longrightarrow> seat_at (move_seat st y d) x = seat_at d x"
proof -
  assume "x \<noteq> y"
  then have "filter (\<lambda>s. seat_id s = x) (map (\<lambda>s. if seat_id s = y then bump_seat st s else s) ss) =
      filter (\<lambda>s. seat_id s = x) ss" for ss
    by (induction ss) auto
  then show ?thesis by (simp add: seat_at_def seats_move_seat)
qed

lemma reserve_effect:
  assumes "consistent (w_db w)" and "int4_ok uid" and "uid \<in> user_id ` set (users (w_db w))"
    and "bookings_seq (w_db w) \<le> int4_max" and "\<forall>s. seat_at (w_db w) x = Some s \<longrightarrow> int4_ok (seat_version s + 1)"
    and call: "reserveSeat svc h x uid t1 t2 t3 t4 w = (result, w')"
  shows "(\<not> isl result) = seat_open (w_db w) x" "consistent (w_db w')" "users (w_db w') = users (w_db w)"
    "y \<noteq> x \<Longrightarrow> seat_at (w_db w') y = seat_at (w_db w) y"
    "bookings_seq (w_db w') \<le> bookings_seq (w_db w) + 1"
proof -
  from reserveSeat_consistent [OF assms(1), of svc h x uid t1 t2 t3 t4] show "consistent (w_db w')"
    by (simp add: call)
  note db = w_db_reserveSeat [of svc h x uid t1 t2 t3 t4 w, unfolded call snd_conv]
  have "(\<not> isl result) = seat_open (w_db w) x \<and> users (w_db w') = users (w_db w) \<and>
      (y \<noteq> x \<longrightarrow> seat_at (w_db w') y = seat_at (w_db w) y) \<and> bookings_seq (w_db w') \<le> bookings_seq (w_db w) + 1"
  proof (cases "seat_open (w_db w) x")
    case True
    then obtain s where s: "seat_at (w_db w) x = Some s" "seat_status s = Available" by (auto simp: seat_open_def)
    then have ok: "int4_ok x" using consistentD(3) [OF assms(1)] by (auto dest: seat_at_SomeD)
    have "can_insert (w_db w) x uid" using assms(2-5) by (auto simp: can_insert_def)
    note hit = reserve_tx_hit [OF assms(1) s this, of "t1 + h" t2]
    then show ?thesis
      using call db True by (auto simp: reserveSeat_def reserve_check_eq [OF ok] s transaction_def Let_def seat_at_other)
  next
    case False
    then have none: "\<forall>s. seat_at (w_db w) x = Some s \<longrightarrow> seat_status s \<noteq> Available" by (auto simp: seat_open_def)
    have "\<exists>e. result = Inl e \<and> w_db w' = w_db w"
    proof (cases "int4_ok x")
      case True
      with reserve_tx_taken [OF True consistentD(1) [OF assms(1)] none, of uid "t1 + h" t2] call show ?thesis
        by (auto simp: reserveSeat_def reserve_check_eq [OF True] transaction_def Let_def split: if_splits)
    next
      case f: False
      then have "reserve_check x (w_db w) = Inl out_of_range"
        by (simp add: reserve_check_def findSeatById_def)
      with call show ?thesis by (auto simp: reserveSeat_def)
    qed
    with False show ?thesis by auto
  qed
  then show "(\<not> isl result) = seat_open (w_db w) x" "users (w_db w') = users (w_db w)"
    "y \<noteq> x \<Longrightarrow> seat_at (w_db w') y = seat_at (w_db w) y"
    "bookings_seq (w_db w') \<le> bookings_seq (w_db w) + 1" by blast+
qed

subsection \<open>The shared cursor\<close>

definition bodies :: "load_run \<Rightarrow> nat \<rightharpoonup> int" where
  "bodies r = (\<lambda>c. map_option cl_body (lr_clients r c))"

definition asked :: "load_run \<Rightarrow> int set" where
  "asked r = fst ` set (lr_answered r)"

text \<open>Every seat below the cursor is some connection's body or has been answered, exactly once.\<close>

definition cursor_inv :: "string list \<Rightarrow> int \<Rightarrow> load_run \<Rightarrow> bool" where
  "cursor_inv tokens start r \<longleftrightarrow> start \<le> lr_seatCursor r \<and> distinct (map fst (lr_answered r)) \<and>
     asked r \<inter> ran (bodies r) = {} \<and> asked r \<union> ran (bodies r) = {start..<lr_seatCursor r} \<and>
     inj_on (bodies r) (dom (bodies r)) \<and> (\<forall>cl\<in>ran (lr_clients r). cl_token cl \<in> set tokens)"

lemma bodies_simps:
  "bodies (setupClient tokens c r) = (bodies r)(c \<mapsto> lr_seatCursor r)"
  "lr_clients r c = Some cl \<Longrightarrow> bodies (send_body c cl r) = bodies r"
  "bodies (on_client_response c cl ok r) = (bodies r)(c \<mapsto> lr_seatCursor r)"
  by (auto simp: bodies_def setupClient_def send_body_def on_client_response_def)

lemma clients_simps:
  "lr_clients (setupClient tokens c r) = (lr_clients r)(c \<mapsto> \<lparr>cl_token = client_token tokens (lr_tokenCursor r),
     cl_body = lr_seatCursor r, cl_waiting = False\<rparr>)"
  "lr_clients (send_body c cl r) = (lr_clients r)(c \<mapsto> cl\<lparr>cl_waiting := True\<rparr>)"
  "lr_clients (on_client_response c cl ok r) = (lr_clients r)(c \<mapsto> cl\<lparr>cl_body := lr_seatCursor r, cl_waiting := False\<rparr>)"
  by (simp_all add: setupClient_def send_body_def on_client_response_def)

lemma ran_replace:
  assumes "inj_on m (dom m)" and "m c = Some b"
  shows "ran (m(c \<mapsto> x)) = insert x (ran m - {b})"
  using ran_upd_None [OF assms] ran_map_upd [of "m(c := None)" c x] by simp

lemma inj_replace:
  assumes "inj_on m (dom m)" and "x \<notin> ran m"
  shows "inj_on (m(c \<mapsto> x)) (dom (m(c \<mapsto> x)))"
  using assms by (auto simp: inj_on_def ran_def dom_def)

lemma client_token_in: "tokens \<noteq> [] \<Longrightarrow> client_token tokens n \<in> set tokens"
  by (simp add: client_token_def)

lemma ran_upd_subset: "\<forall>x\<in>ran m. P x \<Longrightarrow> P y \<Longrightarrow> \<forall>x\<in>ran (m(c \<mapsto> y)). P x"
  by (auto simp: ran_def split: if_splits)

lemma next_seat: "(start::int) \<le> n \<Longrightarrow> {start..<n + 1} = insert n {start..<n}"
  by auto

lemma cursor_inv_setup:
  assumes "cursor_inv tokens start r" and "lr_clients r c = None" and "tokens \<noteq> []"
  shows "cursor_inv tokens start (setupClient tokens c r)"
proof -
  let ?r = "setupClient tokens c r" and ?n = "lr_seatCursor r"
  have frame: "lr_seatCursor ?r = ?n + 1" "lr_answered ?r = lr_answered r" "asked ?r = asked r"
    by (simp_all add: setupClient_def asked_def)
  have "bodies r c = None" using assms(2) by (simp add: bodies_def)
  then have ran: "ran (bodies ?r) = insert ?n (ran (bodies r))" by (simp add: bodies_simps ran_map_upd)
  have "?n \<notin> asked r \<union> ran (bodies r)" using assms(1) by (simp add: cursor_inv_def)
  then have "inj_on (bodies ?r) (dom (bodies ?r))" "?n \<notin> asked r"
    using assms(1) inj_replace [of "bodies r" ?n c] unfolding bodies_simps by (auto simp: cursor_inv_def)
  moreover have "\<forall>cl\<in>ran (lr_clients ?r). cl_token cl \<in> set tokens"
    using assms(1) client_token_in [OF assms(3)]
    unfolding clients_simps by (intro ran_upd_subset) (simp_all add: cursor_inv_def)
  ultimately show ?thesis
    using assms(1) unfolding cursor_inv_def frame ran by (simp add: next_seat)
qed

lemma cursor_inv_response:
  assumes "cursor_inv tokens start r" and "lr_clients r c = Some cl"
  shows "cursor_inv tokens start (on_client_response c cl ok r)" "cl_body cl \<notin> asked r"
proof -
  let ?r = "on_client_response c cl ok r" and ?n = "lr_seatCursor r" and ?b = "cl_body cl"
  have frame: "lr_seatCursor ?r = ?n + 1" "lr_answered ?r = lr_answered r @ [(?b, ok)]" "asked ?r = insert ?b (asked r)"
    by (simp_all add: on_client_response_def asked_def)
  have b: "bodies r c = Some ?b" using assms(2) by (simp add: bodies_def)
  then have ranb: "?b \<in> ran (bodies r)" by (rule ranI)
  with assms(1) show new: "?b \<notin> asked r" by (auto simp: cursor_inv_def)
  have ran: "ran (bodies ?r) = insert ?n (ran (bodies r) - {?b})"
    using assms(1) b ran_replace [of "bodies r" c ?b ?n] by (simp add: bodies_simps cursor_inv_def)
  have n: "?n \<notin> asked r \<union> ran (bodies r)" using assms(1) by (simp add: cursor_inv_def)
  then have "inj_on (bodies ?r) (dom (bodies ?r))"
    using assms(1) inj_replace [of "bodies r" ?n c] unfolding bodies_simps by (auto simp: cursor_inv_def)
  moreover have "\<forall>cl\<in>ran (lr_clients ?r). cl_token cl \<in> set tokens"
    using assms(1) ranI [of "lr_clients r", OF assms(2)]
    unfolding clients_simps by (intro ran_upd_subset) (simp_all add: cursor_inv_def)
  moreover have "asked ?r \<inter> ran (bodies ?r) = {}" using assms(1) n ranb unfolding frame ran by (auto simp: cursor_inv_def)
  moreover have "asked ?r \<union> ran (bodies ?r) = {start..<?n + 1}"
  proof -
    have "asked ?r \<union> ran (bodies ?r) = insert ?n (asked r \<union> ran (bodies r))"
      unfolding frame ran using ranb by auto
    with assms(1) show ?thesis by (simp add: cursor_inv_def next_seat)
  qed
  moreover have "distinct (map fst (lr_answered ?r))"
    using assms(1) new unfolding frame by (simp add: cursor_inv_def asked_def)
  ultimately show "cursor_inv tokens start ?r"
    using assms(1) unfolding cursor_inv_def frame(1) by simp
qed

lemma cursor_inv_send:
  assumes "cursor_inv tokens start r" and "lr_clients r c = Some cl"
  shows "cursor_inv tokens start (send_body c cl r)"
proof -
  have "\<forall>cl'\<in>ran (lr_clients (send_body c cl r)). cl_token cl' \<in> set tokens"
    using assms(1) ranI [of "lr_clients r", OF assms(2)]
    unfolding clients_simps by (intro ran_upd_subset) (simp_all add: cursor_inv_def)
  moreover have "asked (send_body c cl r) = asked r" "lr_seatCursor (send_body c cl r) = lr_seatCursor r"
      "lr_answered (send_body c cl r) = lr_answered r"
    by (simp_all add: send_body_def asked_def)
  ultimately show ?thesis
    using assms by (simp add: cursor_inv_def bodies_simps(2) [OF assms(2)])
qed

subsection \<open>What the server answers\<close>

definition load_init :: "string list \<Rightarrow> (string \<Rightarrow> int) \<Rightarrow> int \<Rightarrow> ('q, 'k) world \<Rightarrow> load_run \<times> ('q, 'k) world \<Rightarrow> bool" where
  "load_init tokens user_of start w0 s \<longleftrightarrow> load_ready tokens user_of w0 \<and> s = (load_start start, w0)"

text \<open>
  \<open>answered\<close> is the history of a client that asks for each seat once. While the booking sequence
  has room for it, every seat that has not been asked for is as it was at the start.
\<close>

definition served_inv :: "('q, 'k) world \<Rightarrow> (int \<times> bool) list \<Rightarrow> ('q, 'k) world \<Rightarrow> bool" where
  "served_inv w0 answered w \<longleftrightarrow> (bookings_seq (w_db w0) + int (length answered) \<le> int4_max + 1 \<longrightarrow>
     consistent (w_db w) \<and> users (w_db w) = users (w_db w0) \<and>
     bookings_seq (w_db w) \<le> bookings_seq (w_db w0) + int (length answered) \<and>
     (\<forall>x. x \<notin> fst ` set answered \<longrightarrow> seat_at (w_db w) x = seat_at (w_db w0) x) \<and>
     (\<forall>x ok. (x, ok) \<in> set answered \<longrightarrow> ok = seat_open (w_db w0) x))"

definition load_inv :: "string list \<Rightarrow> (string \<Rightarrow> int) \<Rightarrow> int \<Rightarrow> ('q, 'k) world \<Rightarrow> load_run \<times> ('q, 'k) world \<Rightarrow> bool" where
  "load_inv tokens user_of start w0 = (\<lambda>(r, w). load_ready tokens user_of w0 \<and>
     cursor_inv tokens start r \<and> served_inv w0 (lr_answered r) w)"

lemma load_inv_init: "load_init tokens user_of start w0 s \<Longrightarrow> load_inv tokens user_of start w0 s"
  by (auto simp: load_init_def load_inv_def load_start_def load_ready_def cursor_inv_def served_inv_def
      asked_def bodies_def)

lemma served_inv_answer:
  assumes inv: "served_inv w0 answered w" and new: "x \<notin> fst ` set answered"
    and vers: "versions_room (w_db w0)" and uid: "int4_ok uid" "uid \<in> user_id ` set (users (w_db w0))"
    and call: "reserveSeat svc h x uid t1 t2 t3 t4 w = (result, w')"
  shows "served_inv w0 (answered @ [(x, \<not> isl result)]) w'"
proof (cases "bookings_seq (w_db w0) + int (length answered) + 1 \<le> int4_max + 1")
  case False
  then show ?thesis by (simp add: served_inv_def)
next
  case True
  with inv have i: "consistent (w_db w)" "users (w_db w) = users (w_db w0)"
    "bookings_seq (w_db w) \<le> bookings_seq (w_db w0) + int (length answered)"
    "\<And>x. x \<notin> fst ` set answered \<Longrightarrow> seat_at (w_db w) x = seat_at (w_db w0) x"
    "\<And>x ok. (x, ok) \<in> set answered \<Longrightarrow> ok = seat_open (w_db w0) x"
    by (simp_all add: served_inv_def)
  have seq: "bookings_seq (w_db w) \<le> int4_max" using i(3) True by simp
  have "\<forall>s. seat_at (w_db w) x = Some s \<longrightarrow> int4_ok (seat_version s + 1)"
    using vers by (auto simp: i(4) [OF new] versions_room_def dest: seat_at_SomeD)
  note step = reserve_effect [OF i(1) uid(1) uid(2) [folded i(2)] seq this call]
  have opened: "seat_open (w_db w) x = seat_open (w_db w0) x"
    by (simp add: seat_open_def i(4) [OF new])
  show ?thesis
    unfolding served_inv_def using step(1-3,5) i(2,3,5) opened by (auto simp: step(4) i(4))
qed

lemma served_inv_response:
  assumes ready: "load_ready tokens user_of w0" and cur: "cursor_inv tokens start r"
    and inv: "served_inv w0 (lr_answered r) w" and cl: "lr_clients r c = Some cl"
    and call: "reserveSeat svc h (cl_body cl) (user_of (cl_token cl)) t1 t2 t3 t4 w = (result, w')"
  shows "served_inv w0 (lr_answered (on_client_response c cl (\<not> isl result) r)) w'"
proof -
  from cur cl have "cl_token cl \<in> set tokens" by (auto simp: cursor_inv_def intro: ranI)
  with ready have "versions_room (w_db w0)" "int4_ok (user_of (cl_token cl))"
    "user_of (cl_token cl) \<in> user_id ` set (users (w_db w0))" by (auto simp: load_ready_def)
  with served_inv_answer [OF inv cursor_inv_response(2) [OF cur cl, unfolded asked_def] _ _ _ call]
  show ?thesis by (simp add: on_client_response_def)
qed

lemma load_inv_step:
  "load_step tokens user_of svc h s s' \<Longrightarrow> load_inv tokens user_of start w0 s \<Longrightarrow> load_inv tokens user_of start w0 s'"
proof (induction rule: load_step.induct)
  case (connects r c w)
  then have "tokens \<noteq> []" by (simp add: load_inv_def load_ready_def)
  with connects show ?case
    using cursor_inv_setup [of tokens start r c] by (simp add: load_inv_def served_inv_def setupClient_def asked_def)
next
  case (sends r c cl w)
  then show ?case
    using cursor_inv_send [of tokens start r c cl] by (simp add: load_inv_def served_inv_def send_body_def asked_def)
next
  case (answered r c cl t1 t2 t3 t4 w result w')
  then show ?case
    using cursor_inv_response(1) [of tokens start r c cl] served_inv_response [of tokens user_of w0 start r w c cl]
    by (simp add: load_inv_def)
qed

interpretation load_run: invariant_system "load_init tokens user_of start w0" "load_step tokens user_of svc h"
    "load_inv tokens user_of start w0" for tokens user_of start w0 svc h
  by unfold_locales (erule load_inv_init, erule load_inv_step)

text \<open>
  The load test measures what it says: at every point of a run over a consistent database
  that nobody else writes, no seat has been asked for twice, the seats asked for are consecutive
  from the start but for those the connections hold ready, and while the booking sequence has
  room a request is answered with a booking exactly when its seat was available when the test
  began, so that over free seats every request succeeds however the connections interleave.
\<close>

theorem load_test_hits:
  assumes "reachable_from (load_init tokens user_of start w0) (load_step tokens user_of svc hold_ms) (r, w)"
  shows "distinct (map fst (lr_answered r)) \<and>
    {start..<lr_seatCursor r} - asked r = {cl_body cl |cl. cl \<in> ran (lr_clients r)} \<and>
    (bookings_seq (w_db w0) + int (length (lr_answered r)) \<le> int4_max + 1 \<longrightarrow>
       consistent (w_db w) \<and> (\<forall>(x, reserved) \<in> set (lr_answered r). reserved = seat_open (w_db w0) x))"
proof -
  from load_run.reachable_inv [OF assms] have inv: "cursor_inv tokens start r" "served_inv w0 (lr_answered r) w"
    by (simp_all add: load_inv_def)
  have "ran (bodies r) = {cl_body cl |cl. cl \<in> ran (lr_clients r)}"
    by (auto simp: bodies_def ran_def)
  with inv show ?thesis by (auto simp: cursor_inv_def served_inv_def)
qed

theorem load_test_hits_witness:
  "\<not> isl (fst (reserveSeat quiet_services 300000 1 1 0 0 0 0 (demo_world demo_db)))"
proof -
  let ?w = "demo_world demo_db" and ?tokens = "[''t'']" and ?user = "\<lambda>t. 1::int"
  let ?R = "reachable_from (load_init ?tokens ?user 1 ?w) (load_step ?tokens ?user quiet_services 300000)"
  let ?cl = "\<lparr>cl_token = ''t'', cl_body = 1, cl_waiting = False\<rparr>"
  obtain result w' where call: "reserveSeat quiet_services 300000 1 1 0 0 0 0 ?w = (result, w')" by fastforce
  have "load_ready ?tokens ?user ?w"
    by (simp add: load_ready_def demo_facts) (simp add: demo_defs versions_room_def int4_ok_def int4_max_def)
  then have "?R (load_start 1, ?w)" by (intro reach_init) (simp add: load_init_def)
  from reach_step [OF this connects [where c = 0]]
  have "?R (setupClient ?tokens 0 (load_start 1), ?w)" by (simp add: load_start_def)
  from reach_step [OF this sends [where c = 0 and cl = ?cl]]
  have "?R (send_body 0 ?cl (setupClient ?tokens 0 (load_start 1)), ?w)"
    by (simp add: clients_simps load_start_def client_token_def)
  from reach_step [OF this answered [where c = 0 and cl = "?cl\<lparr>cl_waiting := True\<rparr>" and result = result]] call
  have run: "?R (on_client_response 0 (?cl\<lparr>cl_waiting := True\<rparr>) (\<not> isl result)
      (send_body 0 ?cl (setupClient ?tokens 0 (load_start 1))), w')"
    by (simp add: clients_simps)
  have answered: "lr_answered (on_client_response 0 (?cl\<lparr>cl_waiting := True\<rparr>) (\<not> isl result)
      (send_body 0 ?cl (setupClient ?tokens 0 (load_start 1)))) = [(1, \<not> isl result)]"
    by (simp add: on_client_response_def send_body_def setupClient_def load_start_def)
  have "bookings_seq demo_db + 1 \<le> int4_max + 1" "seat_open demo_db 1"
    by (simp_all add: demo_facts seat_open_def) (simp_all add: demo_defs int4_max_def)
  with load_test_hits [OF run] show ?thesis unfolding answered call by simp
qed

subsection \<open>The login test\<close>

definition login_email :: "int \<Rightarrow> nat \<Rightarrow> string" where
  "login_email runId i = ''loadtest-login-'' @ show_int runId @ ''-'' @ show_nat i @ ''@example.com''"

definition load_password :: string where
  "load_password = ''loadtest-password-123''"

text \<open>
  The registrations of the pool, in the order in which the server handles them; one that is
  refused makes the script throw. Connection \<open>c\<close> logs in with the credentials of its cursor, again
  and again.
\<close>

fun register_pool :: "auth_env \<Rightarrow> (nat \<Rightarrow> bytes) \<Rightarrow> int \<Rightarrow> int \<Rightarrow> nat list \<Rightarrow> db \<Rightarrow> db option" where
  "register_pool env salt runId now [] d = Some d"
| "register_pool env salt runId now (i # order) d =
     (case registerUser env (salt i) (login_email runId i) load_password now d of
        (Inl e, d') \<Rightarrow> None
      | (Inr r, d') \<Rightarrow> register_pool env salt runId now order d')"

definition login_credentials :: "int \<Rightarrow> nat \<Rightarrow> nat \<Rightarrow> string \<times> string" where
  "login_credentials runId n credCursor =
     (client_token (map (\<lambda>i. (login_email runId i, load_password)) [0..<n]) credCursor)"

definition can_log_in :: "auth_env \<Rightarrow> string \<Rightarrow> db \<Rightarrow> bool" where
  "can_log_in env email d \<longleftrightarrow> (\<exists>r. loginUser env email load_password d = Inr r \<and> ar_email r = email)"

definition kdf_total :: "auth_env \<Rightarrow> bool" where
  "kdf_total env \<longleftrightarrow> kdf_lengths (au_scrypt env) \<and> (\<forall>p s n. \<exists>k. au_scrypt env p s n = Inr k)"

lemma find_other_email:
  "user_email u \<noteq> email \<Longrightarrow> findUserByEmail email (d\<lparr>users := users d @ [u], users_seq := n\<rparr>) = findUserByEmail email d"
  by (simp add: findUserByEmail_def)

lemma register_one:
  assumes "kdf_total env" and "salt \<noteq> []" and "findUserByEmail email d = None" and "users_seq d \<le> int4_max"
  obtains r d' where "registerUser env salt email load_password now d = (Inr r, d')" "can_log_in env email d'"
    "users_seq d' = users_seq d + 1" "\<And>e. e \<noteq> email \<Longrightarrow> findUserByEmail e d' = findUserByEmail e d"
    "\<And>e. e \<noteq> email \<Longrightarrow> can_log_in env e d' = can_log_in env e d"
proof -
  obtain key where key: "au_scrypt env load_password salt KEY_LENGTH = Inr key"
    using assms(1) unfolding kdf_total_def by blast
  then obtain h where h: "hashPassword (au_scrypt env) salt load_password = Inr h" by (simp add: hashPassword_def)
  let ?u = "\<lparr>user_id = users_seq d, user_email = email, user_passwordHash = h, user_createdAt = now\<rparr>"
  let ?d = "d\<lparr>users := users d @ [?u], users_seq := users_seq d + 1\<rparr>"
  have run: "registerUser env salt email load_password now d = (Inr (auth_reply_of env ?u), ?d)"
    using assms(3,4) h iffD1 [OF findUserByEmail_None assms(3)]
    by (auto simp: registerUser_def register_check_def register_insert_def createUser_def Let_def)
  have "verifyPassword (au_scrypt env) load_password h = Inr True"
    using verify_hashed [OF _ assms(2) h key] assms(1) key by (simp add: kdf_total_def)
  with assms(3) have log: "can_log_in env email ?d"
    by (simp add: can_log_in_def loginUser_def login_hash_def findUserByEmail_new auth_reply_of_def)
  have find: "findUserByEmail e ?d = findUserByEmail e d" if "e \<noteq> email" for e
    using that by (intro find_other_email) simp
  have "can_log_in env e ?d = can_log_in env e d" if "e \<noteq> email" for e
    unfolding can_log_in_def loginUser_def login_hash_def find [OF that] ..
  moreover have "users_seq ?d = users_seq d + 1" by simp
  ultimately show thesis using that [OF run log] find by blast
qed

lemma login_email_inj: "login_email runId i = login_email runId j \<longleftrightarrow> i = j"
  by (auto simp: login_email_def dest: show_nat_inj)

lemma register_pool_done:
  assumes "kdf_total env" and "\<forall>i. salt i \<noteq> []"
  shows "distinct order \<Longrightarrow> \<forall>i\<in>set order. findUserByEmail (login_email runId i) d = None \<Longrightarrow>
    users_seq d + int (length order) \<le> int4_max + 1 \<Longrightarrow>
    \<exists>d'. register_pool env salt runId now order d = Some d' \<and> users_seq d' = users_seq d + int (length order) \<and>
      (\<forall>i\<in>set order. can_log_in env (login_email runId i) d') \<and>
      (\<forall>e. e \<notin> login_email runId ` set order \<longrightarrow> can_log_in env e d' = can_log_in env e d)"
proof (induction order arbitrary: d)
  case (Cons i order)
  obtain r d1 where one: "registerUser env (salt i) (login_email runId i) load_password now d = (Inr r, d1)"
    "can_log_in env (login_email runId i) d1" "users_seq d1 = users_seq d + 1"
    "\<And>e. e \<noteq> login_email runId i \<Longrightarrow> findUserByEmail e d1 = findUserByEmail e d"
    "\<And>e. e \<noteq> login_email runId i \<Longrightarrow> can_log_in env e d1 = can_log_in env e d"
    by (rule register_one [OF assms(1), of "salt i" "login_email runId i" d now])
      (use Cons.prems(2,3) assms(2) in auto)
  have "\<forall>j\<in>set order. findUserByEmail (login_email runId j) d1 = None"
    using Cons.prems(1,2) by (intro ballI, subst one(4)) (auto simp: login_email_inj)
  with Cons.IH [of d1] Cons.prems(1,3) one(3) obtain d' where
    rest: "register_pool env salt runId now order d1 = Some d'" "users_seq d' = users_seq d1 + int (length order)"
      "\<forall>j\<in>set order. can_log_in env (login_email runId j) d'"
      "\<forall>e. e \<notin> login_email runId ` set order \<longrightarrow> can_log_in env e d' = can_log_in env e d1"
    by auto
  have "login_email runId i \<notin> login_email runId ` set order" using Cons.prems(1) by (auto simp: login_email_inj)
  with rest one show ?case by auto
qed simp

text \<open>
  The login test measures logins: on a database without its accounts and with room for them,
  registering the pool in whatever order the workers' requests are handled succeeds, and then
  every connection logs in with its credentials as often as it likes, connection \<open>c\<close> as user
  \<open>c mod n\<close>; accounts that were there before log in as before.
\<close>

theorem login_load_accepted:
  assumes "kdf_total env" and "\<forall>i. salt i \<noteq> []" and "0 < n" and "mset order = mset [0..<n]"
    and "\<forall>i<n. findUserByEmail (login_email runId i) d = None" and "users_seq d + int n \<le> int4_max + 1"
  shows "\<exists>d'. register_pool env salt runId now order d = Some d' \<and>
    (\<forall>c. \<exists>r. (case login_credentials runId n c of (email, password) \<Rightarrow> loginUser env email password d') = Inr r \<and>
       ar_email r = login_email runId (c mod n)) \<and>
    (\<forall>e. (\<forall>i. e \<noteq> login_email runId i) \<longrightarrow> can_log_in env e d' = can_log_in env e d)"
proof -
  have order: "distinct order" "set order = {0..<n}" "length order = n"
    using assms(4) mset_eq_setD [OF assms(4)] mset_eq_imp_distinct_iff [OF assms(4)] mset_eq_length [OF assms(4)] by auto
  obtain d' where d': "register_pool env salt runId now order d = Some d'"
    "\<forall>i\<in>set order. can_log_in env (login_email runId i) d'"
    "\<forall>e. e \<notin> login_email runId ` set order \<longrightarrow> can_log_in env e d' = can_log_in env e d"
    using register_pool_done [OF assms(1,2) order(1), of runId d now] assms(5,6) order by auto
  have "login_credentials runId n c = (login_email runId (c mod n), load_password)" for c
    using assms(3) by (simp add: login_credentials_def client_token_def)
  moreover have "can_log_in env (login_email runId (c mod n)) d'" for c using d'(2) order(2) assms(3) by simp
  ultimately show ?thesis using d'(1,3) unfolding can_log_in_def by auto
qed

theorem login_load_accepted_witness:
  "\<exists>d'. register_pool demo_env (\<lambda>i. [7]) 5 0 [1, 0] no_users = Some d' \<and> can_log_in demo_env (login_email 5 1) d'"
proof -
  have "kdf_total demo_env" using demo_kdf_lengths by (simp add: kdf_total_def demo_env_def demo_kdf_def)
  moreover have "mset [1, 0] = mset [0..<2::nat]" by (simp add: upt_rec)
  ultimately obtain d' r where "register_pool demo_env (\<lambda>i. [7]) 5 0 [1, 0] no_users = Some d'"
    "(case login_credentials 5 2 1 of (email, password) \<Rightarrow> loginUser demo_env email password d') = Inr r"
    "ar_email r = login_email 5 (1 mod 2)"
    using login_load_accepted [of demo_env "\<lambda>i. [7]" 2 "[1, 0]" 5 no_users 0]
    by (force simp: findUserByEmail_def no_users_def int4_max_def)
  then show ?thesis by (auto simp: can_log_in_def login_credentials_def client_token_def)
qed

subsection \<open>What the scripts make of the reply to a registration\<close>

text \<open>
  \<open>registerUser\<close> of the two scripts looks at the parsed body alone: the reservation test wants a
  token, the login test \<open>success\<close>; \<open>None\<close> is the thrown error that ends the script.
\<close>

definition registered_token :: "json \<Rightarrow> json option" where
  "registered_token body =
     (case get_property ''token'' body of Inl e \<Rightarrow> None | Inr v \<Rightarrow> if truthy v then v else None)"

definition registered_credentials :: "json \<Rightarrow> string \<Rightarrow> string \<Rightarrow> (string \<times> string) option" where
  "registered_credentials body email password =
     (case get_property ''success'' body of
        Inl e \<Rightarrow> None
      | Inr v \<Rightarrow> if truthy v then Some (email, password) else None)"

text \<open>A registration the backend refused ends either script, one it accepted gives the token and the credentials.\<close>

lemma registration_replies:
  "registered_token (reply_json dt (ErrorBody code message)) = None"
  "registered_credentials (reply_json dt (ErrorBody code message)) email password = None"
  "ar_token r \<noteq> '''' \<Longrightarrow> registered_token (reply_json dt (Credentials r)) = Some (JStr (ar_token r))"
  "registered_credentials (reply_json dt (Credentials r)) email password = Some (email, password)"
  by (simp_all add: registered_token_def registered_credentials_def)

end
