(* ===== verification/Schema.thy ===== *)
theory Schema
  imports Http Scripts
begin

text \<open>
  The constraints that \<open>infrastructure/database/schema/*.ts\<close> declares (primary keys, foreign
  keys, the unique email, the unique position of a seat, columns of 32 bits) as one predicate on
  the database, and that every statement of the repositories, every request, the expiry of a
  hold and the seed keep it. The locale \<open>statement_invariant\<close> states once what a request needs
  of a predicate that single statements keep.
\<close>

subsection \<open>The constraints, table by table\<close>

definition venues_table :: "db \<Rightarrow> bool" where
  "venues_table d \<longleftrightarrow> distinct (map venue_id (venues d)) \<and> (\<forall>v\<in>set (venues d). int4_ok (venue_id v))"

definition events_table :: "db \<Rightarrow> bool" where
  "events_table d \<longleftrightarrow> distinct (map event_id (events d)) \<and>
     (\<forall>e\<in>set (events d). int4_ok (event_id e) \<and> event_venueId e \<in> venue_id ` set (venues d))"

definition seats_table :: "db \<Rightarrow> bool" where
  "seats_table d \<longleftrightarrow> distinct (map seat_id (seats d)) \<and> distinct (map seat_position (seats d)) \<and>
     (\<forall>s\<in>set (seats d). int4_ok (seat_id s) \<and> seat_eventId s \<in> event_id ` set (events d) \<and>
        int4_ok (seat_seatNumber s) \<and> int4_ok (seat_version s))"

text \<open>A serial column stays below its sequence; the sequence starts at one.\<close>

definition serial_ok :: "int list \<Rightarrow> int \<Rightarrow> bool" where
  "serial_ok ids next_id \<longleftrightarrow> distinct ids \<and> (\<forall>i\<in>set ids. int4_ok i \<and> i < next_id) \<and> 1 \<le> next_id"

definition users_table :: "db \<Rightarrow> bool" where
  "users_table d \<longleftrightarrow> serial_ok (map user_id (users d)) (users_seq d) \<and> distinct (map user_email (users d))"

definition bookings_table :: "db \<Rightarrow> bool" where
  "bookings_table d \<longleftrightarrow> serial_ok (map bk_id (bookings d)) (bookings_seq d) \<and>
     (\<forall>b\<in>set (bookings d). bk_seatId b \<in> seat_id ` set (seats d) \<and> bk_userId b \<in> user_id ` set (users d))"

definition schema_ok :: "db \<Rightarrow> bool" where
  "schema_ok d \<longleftrightarrow> venues_table d \<and> events_table d \<and> seats_table d \<and> users_table d \<and> bookings_table d"

lemmas schema_defs = schema_ok_def venues_table_def events_table_def seats_table_def users_table_def bookings_table_def

lemma serial_ok_snoc: "serial_ok ids i \<Longrightarrow> i \<le> int4_max \<Longrightarrow> serial_ok (ids @ [i]) (i + 1)"
  by (auto simp: serial_ok_def int4_ok_def)

subsection \<open>Statements keep them\<close>

definition statement_keeps :: "(db \<Rightarrow> bool) \<Rightarrow> 'a query \<Rightarrow> bool" where
  "statement_keeps P m \<longleftrightarrow> (\<forall>d r d'. P d \<longrightarrow> m d = Inr (r, d') \<longrightarrow> P d')"

named_theorems keeps_intros \<open>queries that keep a predicate on the database\<close>

lemma keeps_bind [keeps_intros]:
  "statement_keeps P m \<Longrightarrow> (\<And>x. statement_keeps P (f x)) \<Longrightarrow> statement_keeps P (tx_bind m f)"
  unfolding statement_keeps_def by (metis prod.exhaust tx_bind_InrD)

lemma keeps_basic [keeps_intros]:
  "statement_keeps P (tx_return x)" "statement_keeps P (tx_throw e)"
  by (simp_all add: statement_keeps_def)

lemma keeps_guard [keeps_intros]:
  "statement_keeps P (\<lambda>d. m d) \<Longrightarrow> statement_keeps P (\<lambda>d. if c then Inl e else m d)"
  by (simp add: statement_keeps_def)

lemma keeps_transaction: "statement_keeps P m \<Longrightarrow> P d \<Longrightarrow> P (snd (transaction m d))"
  by (auto simp: statement_keeps_def transaction_def split: sum.splits)

text \<open>
  A predicate that the four writing statements of the repositories keep. The requests are its
  clients: what they write is built from these statements.
\<close>

locale statement_invariant =
  fixes P :: "db \<Rightarrow> bool"
  assumes keeps_update_seats: "statement_keeps P (update_seats to p)"
    and keeps_update_bookings: "keeps_keys f \<Longrightarrow> statement_keeps P (update_bookings f q)"
    and keeps_insert_booking: "statement_keeps P (insert_booking sid uid st h now)"
    and keeps_createUser: "statement_keeps P (createUser email hash now)"
begin

lemma keeps_rows:
  "statement_keeps P (reserveSeatRow i)" "statement_keeps P (confirmSeatRow i)"
  "statement_keeps P (releaseSeatRow i)" "statement_keeps P (releaseHeldOrBookedSeatRow i)"
  unfolding reserveSeatRow_def confirmSeatRow_def releaseSeatRow_def releaseHeldOrBookedSeatRow_def
  by (intro keeps_intros keeps_update_seats)+

lemma keeps_transactions:
  "statement_keeps P (reserve_tx sid uid h now)" "statement_keeps P (confirm_tx now bid)"
  "statement_keeps P (cancel_tx now bid)" "statement_keeps P (expireHold bid)"
  unfolding reserve_tx_def confirm_tx_def cancel_tx_def expireHold_def
  by (auto intro!: keeps_intros keeps_update_bookings keeps_rows keeps_insert_booking split: option.split)

lemmas transaction_kept = keeps_transactions [THEN keeps_transaction]

lemma usecases_keep:
  assumes "P (w_db w)"
  shows "P (w_db (snd (reserveSeat svc hold_ms sid uid t1 t2 t3 t4 w)))"
    and "P (w_db (snd (confirmBooking svc bid uid t1 t2 w)))"
    and "P (w_db (snd (cancelBooking svc bid uid t1 t2 w)))"
  using assms by (simp_all add: w_db_usecases transaction_kept)

lemma registerUser_keeps:
  assumes "P d"
  shows "P (snd (registerUser env salt email pw now d))"
  using assms keeps_createUser
  by (auto simp: registerUser_def register_insert_def statement_keeps_def split: sum.splits)

lemma request_keeps:
  assumes "P (w_db w)"
  shows "case serve_request sc env svc rd lims su rid rq st w of (rp, st', w') \<Rightarrow> P (w_db w')"
  using assms usecases_keep [OF assms] registerUser_keeps [OF assms] by (rule request_keeps_db)

end

subsection \<open>The schema is such a predicate\<close>

lemma seat_position_bump [simp]: "seat_position (bump_seat st s) = seat_position s"
  by (simp add: seat_position_def bump_seat_def)

lemma schema_update_seats: "statement_keeps schema_ok (update_seats to p)"
  unfolding statement_keeps_def update_seats_def schema_defs
  by (auto simp: table_simps) (auto simp: set_update_rows bump_seat_def)

lemma schema_update_bookings: "keeps_keys f \<Longrightarrow> statement_keeps schema_ok (update_bookings f q)"
  unfolding statement_keeps_def update_bookings_def schema_defs keeps_keys_def
  by (auto simp: table_simps) (auto simp: set_update_rows)

lemma schema_insert_booking: "statement_keeps schema_ok (insert_booking sid uid st h now)"
  by (auto simp: statement_keeps_def insert_booking_def Let_def schema_defs serial_ok_snoc split: if_splits)

lemma schema_createUser: "statement_keeps schema_ok (createUser email hash now)"
  by (auto simp: statement_keeps_def createUser_def Let_def schema_defs serial_ok_snoc split: if_splits)

interpretation schema: statement_invariant schema_ok
  by unfold_locales (auto intro: schema_update_seats schema_update_bookings schema_insert_booking schema_createUser)

text \<open>So is a fixed catalogue: no statement of a request writes a venue or an event.\<close>

interpretation catalogue: statement_invariant "\<lambda>d. venues d = vs \<and> events d = es" for vs es
  by unfold_locales
    (auto simp: statement_keeps_def update_seats_def update_bookings_def insert_booking_def createUser_def Let_def
      split: if_splits)

subsection \<open>The seed\<close>

text \<open>
  The sequences of the serial columns draw ids that fit the column and are not in the table, the
  400 000 of the seats different ones.
\<close>

definition fresh_draws :: "int \<Rightarrow> int \<Rightarrow> (nat \<Rightarrow> int) \<Rightarrow> db \<Rightarrow> bool" where
  "fresh_draws vi ei ids d \<longleftrightarrow>
     int4_ok vi \<and> vi \<notin> venue_id ` set (venues d) \<and> int4_ok ei \<and> ei \<notin> event_id ` set (events d) \<and>
     inj_on ids {0..<400000} \<and> (\<forall>k\<in>{0..<400000}. int4_ok (ids k) \<and> ids k \<notin> seat_id ` set (seats d))"

lemma insert_seats_rows:
  assumes "insert_seats ids ev now ps k rows = (c, rows')" and "inj_on ids {k..<k + length ps}"
    and "\<forall>i\<in>{k..<k + length ps}. int4_ok (ids i) \<and> ids i \<notin> seat_id ` set rows"
    and "\<forall>(sec, row, n)\<in>set ps. int4_ok n"
    and "distinct (map seat_id rows)" and "distinct (map seat_position rows)"
    and "\<forall>s\<in>set rows. int4_ok (seat_id s) \<and> seat_eventId s \<in> E \<and> int4_ok (seat_seatNumber s) \<and> int4_ok (seat_version s)"
    and "ev \<in> E"
  shows "distinct (map seat_id rows') \<and> distinct (map seat_position rows') \<and> set rows \<subseteq> set rows' \<and>
    (\<forall>s\<in>set rows'. int4_ok (seat_id s) \<and> seat_eventId s \<in> E \<and> int4_ok (seat_seatNumber s) \<and> int4_ok (seat_version s))"
  using assms
proof (induction ps arbitrary: k rows c)
  case (Cons p ps)
  obtain sec row n where p: "p = (sec, row, n)" by (cases p) auto
  let ?s = "\<lparr>seat_id = ids k, seat_eventId = ev, seat_section = sec, seat_rowLabel = row,
      seat_seatNumber = n, seat_status = Available, seat_version = 0, seat_createdAt = now\<rparr>"
  have inj: "inj_on ids {Suc k..<Suc k + length ps}"
    using Cons.prems(2) by (rule inj_on_subset) auto
  have drawn: "ids i \<noteq> ids k" if "i \<in> {Suc k..<Suc k + length ps}" for i
    using that inj_onD [OF Cons.prems(2), of i k] by auto
  show ?case
  proof (cases "(ev, sec, row, n) \<in> seat_position ` set rows")
    case True
    with Cons.prems(1) have "insert_seats ids ev now ps (Suc k) rows = (c, rows')" by (simp add: p)
    from Cons.IH [OF this inj] Cons.prems(3-8) show ?thesis by (auto simp: p)
  next
    case False
    with Cons.prems(1) obtain c' where "insert_seats ids ev now ps (Suc k) (rows @ [?s]) = (c', rows')"
      by (auto simp: p split: prod.splits)
    from Cons.IH [OF this inj] have "distinct (map seat_id rows') \<and> distinct (map seat_position rows') \<and>
        set (rows @ [?s]) \<subseteq> set rows' \<and>
        (\<forall>s\<in>set rows'. int4_ok (seat_id s) \<and> seat_eventId s \<in> E \<and> int4_ok (seat_seatNumber s) \<and> int4_ok (seat_version s))"
    proof (rule)
      show "\<forall>i\<in>{Suc k..<Suc k + length ps}. int4_ok (ids i) \<and> ids i \<notin> seat_id ` set (rows @ [?s])"
        using Cons.prems(3) drawn by auto
      show "distinct (map seat_position (rows @ [?s]))"
        using Cons.prems(6) False seat_position_def [of ?s] by simp
      show "\<forall>s\<in>set (rows @ [?s]). int4_ok (seat_id s) \<and> seat_eventId s \<in> E \<and>
          int4_ok (seat_seatNumber s) \<and> int4_ok (seat_version s)"
        using Cons.prems(3,4,7,8) by (auto simp: p int4_ok_def int4_max_def)
    qed (use Cons.prems(3-5,8) in \<open>auto simp: p\<close>)
    then show ?thesis by simp
  qed
qed simp

lemma seed_positions_int4: "\<forall>(sec, row, n)\<in>set (seed_positions SECTIONS ROWS SEATS_PER_ROW). int4_ok n"
  by (auto simp: seed_positions_def SEATS_PER_ROW_def int4_ok_def int4_max_def)

lemma seed_venue_schema:
  assumes "schema_ok d" and "int4_ok vi" and "vi \<notin> venue_id ` set (venues d)" and "seed_venue vi now d = (v, d1)"
  shows "schema_ok d1 \<and> v \<in> venue_id ` set (venues d1)"
  using assms by (auto simp: seed_venue_def schema_defs split: option.splits dest: first_row_SomeD)

lemma seed_event_schema:
  assumes "schema_ok d" and "int4_ok ei" and "ei \<notin> event_id ` set (events d)" and "v \<in> venue_id ` set (venues d)"
    and "seed_event ei v now d = (e, d2)"
  shows "schema_ok d2 \<and> e \<in> event_id ` set (events d2)"
  using assms by (auto simp: seed_event_def schema_defs split: option.splits dest: first_row_SomeD)

lemma seed_schema:
  assumes "schema_ok d" and "fresh_draws vi ei ids d"
  shows "schema_ok (snd (seed vi ei ids now d))"
proof -
  obtain v d1 e d2 c rows where s: "seed_venue vi now d = (v, d1)" "seed_event ei v now d1 = (e, d2)"
    "insert_seats ids e now (seed_positions SECTIONS ROWS SEATS_PER_ROW) 0 (seats d2) = (c, rows)"
    "seed vi ei ids now d = (c, d2\<lparr>seats := rows\<rparr>)" by (rule seed_unfold)
  have frame: "seats d2 = seats d" "events d1 = events d"
    using seed_venue_again [OF s(1)] seed_event_again [OF s(2)] by simp_all
  have "schema_ok d1" "v \<in> venue_id ` set (venues d1)"
    using assms seed_venue_schema [OF _ _ _ s(1)] by (simp_all add: fresh_draws_def)
  then have ok: "schema_ok d2" "e \<in> event_id ` set (events d2)"
    using assms(2) seed_event_schema [OF _ _ _ _ s(2)] by (simp_all add: fresh_draws_def frame)
  then have "seats_table d2" by (simp add: schema_ok_def)
  with assms(2) ok(2) have "distinct (map seat_id rows) \<and> distinct (map seat_position rows) \<and>
      set (seats d2) \<subseteq> set rows \<and> (\<forall>s\<in>set rows. int4_ok (seat_id s) \<and>
        seat_eventId s \<in> event_id ` set (events d2) \<and> int4_ok (seat_seatNumber s) \<and> int4_ok (seat_version s))"
    by (intro insert_seats_rows [OF s(3)] seed_positions_int4)
      (simp_all add: seed_size fresh_draws_def frame seats_table_def)
  with ok(1) show ?thesis
    by (auto simp: s(4) schema_defs) blast
qed

subsection \<open>Every write keeps the schema\<close>

text \<open>
  C11. The constraints the schema declares are kept by everything that writes: every request to
  any route, with whatever input, broker and queue (and none writes a venue or an event), the
  expiry of any hold, and the seed. The keys of every table are unique and within 32 bits, every
  foreign key has its row, no two users share an email and no two seats a position in an event.
\<close>

theorem schema_kept:
  assumes "schema_ok (w_db w)"
  shows "(case serve_request sc env svc rd lims su rid rq st w of (rp, st', w') \<Rightarrow>
      schema_ok (w_db w') \<and> venues (w_db w') = venues (w_db w) \<and> events (w_db w') = events (w_db w)) \<and>
    schema_ok (snd (transaction (expireHold bid) (w_db w))) \<and>
    (fresh_draws vi ei ids (w_db w) \<longrightarrow> schema_ok (snd (seed vi ei ids now (w_db w))))"
  using schema.request_keeps [OF assms, of sc env svc rd lims su rid rq st]
    catalogue.request_keeps [of w "venues (w_db w)" "events (w_db w)" sc env svc rd lims su rid rq st]
    schema.transaction_kept(4) [OF assms] seed_schema [OF assms]
  by (simp add: case_prod_unfold)

lemma demo_schema: "schema_ok demo_db"
  by (auto simp: demo_defs demo_event_def demo_venue_def schema_defs serial_ok_def seat_position_def int4_ok_def int4_max_def
      dest: show_int_inj)

theorem schema_kept_witness:
  "schema_ok demo_db \<and>
   (case serve_request demo_schemas demo_env quiet_services plain_redis demo_limits demo_surroundings ''r''
     (demo_request ReserveRoute '''' (Some (''Bearer '' @ show_int 1))) (\<lambda>_. 0, \<lambda>_. None) (demo_world demo_db)
    of (rp, st', w') \<Rightarrow> schema_ok (w_db w')) \<and>
   schema_ok (snd (seed 9 9 (\<lambda>k. int k + 10) 0 demo_db))"
proof -
  have ok: "schema_ok (w_db (demo_world demo_db))"
    by (simp add: demo_schema)
  moreover have "fresh_draws 9 9 (\<lambda>k. int k + 10) (w_db (demo_world demo_db))"
    by (auto simp: fresh_draws_def inj_on_def demo_defs demo_event_def demo_venue_def int4_ok_def int4_max_def)
  ultimately show ?thesis
    using schema_kept [OF ok, of demo_schemas demo_env quiet_services plain_redis demo_limits demo_surroundings "''r''"
        "demo_request ReserveRoute '''' (Some (''Bearer '' @ show_int 1))" "(\<lambda>_. 0, \<lambda>_. None)" 1 9 9 "\<lambda>k. int k + 10" 0]
    by (simp add: case_prod_unfold)
qed

end
