(* ===== verification/Benchmark.thy ===== *)
theory Benchmark
  imports Load_Tests Lifecycle Schema
begin

text \<open>
  The benchmark of the booking path (\<open>backend/scripts/bench-reserve.ts\<close>): its settings, the user it
  creates, the workers that share a cursor and count, first against any outcome of a call and then
  against the modelled \<open>reserveSeat\<close>, and the figures it reports.
\<close>

subsection \<open>The benchmark\<close>

text \<open>
  \<open>product p n\<close> is the value of the floating-point expression \<open>(p / 100) * n\<close>; \<open>sorted[idx]\<close> is
  \<open>undefined\<close> on a negative index.
\<close>

definition percentile :: "(rat \<Rightarrow> nat \<Rightarrow> rat) \<Rightarrow> rat list \<Rightarrow> rat \<Rightarrow> rat" where
  "percentile product sorted_values p =
     (let idx = min (int (length sorted_values) - 1) \<lfloor>product p (length sorted_values)\<rfloor>
      in if idx < 0 then 0 else sorted_values ! nat idx)"

text \<open>
  The workers: the shared cursor, the counters and the latencies, and the seat each worker is
  waiting for. \<open>tried\<close> is the history of the calls.
\<close>

record bench =
  bn_cursor :: int
  bn_success :: nat
  bn_failure :: nat
  bn_latencies :: "rat list"
  bn_waiting :: "nat \<rightharpoonup> int"
  bn_tried :: "int list"

definition bench_start :: "int \<Rightarrow> bench" where
  "bench_start start_id = \<lparr>bn_cursor = start_id, bn_success = 0, bn_failure = 0, bn_latencies = [],
     bn_waiting = Map.empty, bn_tried = []\<rparr>"

definition take_seat :: "nat \<Rightarrow> bench \<Rightarrow> bench" where
  "take_seat w b = b\<lparr>bn_cursor := bn_cursor b + 1, bn_waiting := (bn_waiting b)(w \<mapsto> bn_cursor b),
     bn_tried := bn_tried b @ [bn_cursor b]\<rparr>"

definition settle_seat :: "nat \<Rightarrow> bool \<Rightarrow> rat \<Rightarrow> bench \<Rightarrow> bench" where
  "settle_seat w booked latency b =
     (let b' = (if booked then b\<lparr>bn_success := bn_success b + 1\<rparr> else b\<lparr>bn_failure := bn_failure b + 1\<rparr>)
      in b'\<lparr>bn_latencies := bn_latencies b' @ [latency], bn_waiting := (bn_waiting b')(w := None)\<rparr>)"

text \<open>
  The workers interleave at their awaits; while the deadline has not passed an idle worker takes
  the next seat.
\<close>

inductive bench_step :: "nat \<Rightarrow> bench \<Rightarrow> bench \<Rightarrow> bool" for CONCURRENCY :: nat where
  take: "w < CONCURRENCY \<Longrightarrow> bn_waiting b w = None \<Longrightarrow> bench_step CONCURRENCY b (take_seat w b)"
| settle: "bn_waiting b w = Some seatId \<Longrightarrow> bench_step CONCURRENCY b (settle_seat w booked latency b)"

definition bench_inv :: "nat \<Rightarrow> int \<Rightarrow> bench \<Rightarrow> bool" where
  "bench_inv CONCURRENCY start_id b \<longleftrightarrow>
     bn_success b + bn_failure b = length (bn_latencies b) \<and> start_id \<le> bn_cursor b \<and>
     bn_tried b = [start_id..bn_cursor b - 1] \<and> dom (bn_waiting b) \<subseteq> {..<CONCURRENCY} \<and>
     length (bn_tried b) = length (bn_latencies b) + card (dom (bn_waiting b))"

lemma bench_inv_step: "bench_step C b b' \<Longrightarrow> bench_inv C start_id b \<Longrightarrow> bench_inv C start_id b'"
proof (induction rule: bench_step.induct)
  case (take w b)
  then have "finite (dom (bn_waiting b))" "w \<notin> dom (bn_waiting b)"
    by (auto simp: bench_inv_def intro: finite_subset)
  with take show ?case
    by (auto simp: bench_inv_def take_seat_def upto_rec2)
next
  case (settle b w seatId booked latency)
  then have "finite (dom (bn_waiting b))" "w \<in> dom (bn_waiting b)"
    by (auto simp: bench_inv_def intro: finite_subset)
  moreover from this have "0 < card (dom (bn_waiting b))" by (auto simp: card_gt_0_iff)
  ultimately show ?case
    using settle by (auto simp: bench_inv_def settle_seat_def Let_def card_Diff_singleton)
qed

interpretation bench_workers: invariant_system "\<lambda>b. b = bench_start start_id" "bench_step C" "bench_inv C start_id" for C start_id
  by unfold_locales (simp add: bench_inv_def bench_start_def, erule bench_inv_step)

text \<open>
  The benchmark counts right: at every point of every interleaving of the workers, the seats
  tried are the consecutive ids from the start, each once; every call that has settled is counted
  once, as a success or a failure, with one latency; no more calls are under way than there are
  workers. So when all workers have stopped, successes and failures add up to the seats tried.
\<close>

theorem bench_counts:
  assumes "reachable_from (\<lambda>b. b = bench_start start_id) (bench_step CONCURRENCY) b"
  shows "distinct (bn_tried b) \<and> bn_tried b = [start_id..bn_cursor b - 1] \<and>
    bn_success b + bn_failure b = length (bn_latencies b) \<and> card (dom (bn_waiting b)) \<le> CONCURRENCY \<and>
    length (bn_tried b) = bn_success b + bn_failure b + card (dom (bn_waiting b)) \<and>
    (bn_waiting b = Map.empty \<longrightarrow> nat (bn_cursor b - start_id) = bn_success b + bn_failure b)"
proof -
  have inv: "bench_inv CONCURRENCY start_id b"
    using assms by (rule bench_workers.reachable_inv)
  then have "card (dom (bn_waiting b)) \<le> CONCURRENCY"
    using card_mono [of "{..<CONCURRENCY}" "dom (bn_waiting b)"] by (simp add: bench_inv_def)
  with inv show ?thesis by (auto simp: bench_inv_def)
qed

theorem bench_counts_witness:
  "bn_tried (settle_seat 1 True 5 (take_seat 1 (bench_start 7))) = [7]"
proof -
  have "reachable_from (\<lambda>b. b = bench_start 7) (bench_step 2) (bench_start 7)" by (rule reach_init) simp
  then have "reachable_from (\<lambda>b. b = bench_start 7) (bench_step 2) (take_seat 1 (bench_start 7))"
    by (rule reach_step) (rule take, simp_all add: bench_start_def)
  then have "reachable_from (\<lambda>b. b = bench_start 7) (bench_step 2) (settle_seat 1 True 5 (take_seat 1 (bench_start 7)))"
    by (rule reach_step) (rule settle [where seatId = 7], simp add: take_seat_def bench_start_def)
  from bench_counts [OF this] show ?thesis
    by (simp add: settle_seat_def take_seat_def bench_start_def Let_def)
qed

lemma percentile_value:
  assumes "xs \<noteq> []" and "0 \<le> product p (length xs)"
  shows "percentile product xs p = xs ! nat (min (int (length xs) - 1) \<lfloor>product p (length xs)\<rfloor>)"
proof -
  have "0 \<le> min (int (length xs) - 1) \<lfloor>product p (length xs)\<rfloor>" using assms by (cases xs) auto
  then show ?thesis unfolding percentile_def Let_def by (simp only: if_False not_less [symmetric])
qed

text \<open>
  A reported percentile is one of the measured latencies (zero without any), never an index
  outside the list; computed exactly it is a value that at least p percent of the latencies do not
  exceed.
\<close>

theorem percentile_bounds:
  assumes "0 \<le> product p (length xs)"
  shows "(xs = [] \<longrightarrow> percentile product xs p = 0) \<and> (xs \<noteq> [] \<longrightarrow> percentile product xs p \<in> set xs) \<and>
    (sorted xs \<and> xs \<noteq> [] \<and> p \<le> 100 \<and> product p (length xs) = p / 100 * of_nat (length xs) \<longrightarrow>
       p * of_nat (length xs) \<le> 100 * of_nat (length (filter (\<lambda>x. x \<le> percentile product xs p) xs)))"
proof (cases "xs = []")
  case True
  then show ?thesis by (simp add: percentile_def Let_def min_less_iff_disj)
next
  case False
  let ?n = "length xs"
  let ?idx = "min (int ?n - 1) \<lfloor>product p ?n\<rfloor>"
  let ?i = "nat ?idx"
  have idx: "0 \<le> ?idx" "?idx \<le> int ?n - 1" using False assms by (cases xs) auto
  then have i: "?i < ?n" by linarith
  have val: "percentile product xs p = xs ! ?i"
    using False assms by (rule percentile_value)
  have rank: "p * of_nat ?n \<le> 100 * of_nat (length (filter (\<lambda>x. x \<le> xs ! ?i) xs))"
    if s: "sorted xs" and p: "p \<le> 100" and e: "product p ?n = p / 100 * of_nat ?n"
  proof -
    have "{..?i} \<subseteq> {j. j < ?n \<and> xs ! j \<le> xs ! ?i}"
      using s i by (auto intro: sorted_nth_mono)
    then have "card {..?i} \<le> card {j. j < ?n \<and> xs ! j \<le> xs ! ?i}"
      by (intro card_mono) auto
    then have c: "?i + 1 \<le> length (filter (\<lambda>x. x \<le> xs ! ?i) xs)"
      by (simp add: length_filter_conv_card)
    have "p / 100 * of_nat ?n \<le> of_nat (?i + 1)"
    proof (cases "\<lfloor>product p ?n\<rfloor> \<le> int ?n - 1")
      case True
      then have "of_nat ?i = (of_int \<lfloor>product p ?n\<rfloor> :: rat)"
        using idx(1) by (simp add: min_def)
      moreover have "product p ?n < of_int \<lfloor>product p ?n\<rfloor> + 1" by linarith
      ultimately show ?thesis unfolding of_nat_add e [symmetric] by simp
    next
      case False
      then have "?idx = int ?n - 1" by simp
      then have "?i + 1 = ?n" using i by linarith
      moreover have "p / 100 * of_nat ?n \<le> 1 * of_nat ?n" using p by (intro mult_right_mono) simp_all
      ultimately show ?thesis by simp
    qed
    also have "(of_nat (?i + 1) :: rat) \<le> of_nat (length (filter (\<lambda>x. x \<le> xs ! ?i) xs))"
      using c by (simp only: of_nat_le_iff)
    finally show ?thesis by simp
  qed
  show ?thesis
    using False i rank unfolding val by auto
qed

theorem percentile_bounds_witness:
  "percentile (\<lambda>p n. p / 100 * of_nat n) [1, 2, 4] 50 \<in> set [1, 2, 4]"
  using percentile_bounds [of "\<lambda>p n. p / 100 * of_nat n" 50 "[1, 2, 4]"] by simp

subsection \<open>Settings, the user, the end of the script\<close>

text \<open>
  \<open>Number(process.env.X ?? n)\<close>, \<open>None\<close> for \<open>NaN\<close>; the load tests write \<open>Number(process.env.X || n)\<close>,
  where the empty text also gives the default. \<open>Array.from\<close> makes \<open>length\<close> a count of workers.
\<close>

definition bench_setting :: "js_lib \<Rightarrow> rat \<Rightarrow> string option \<Rightarrow> rat option" where
  "bench_setting lib dflt v = (case v of None \<Rightarrow> Some dflt | Some t \<Rightarrow> text_number lib t)"

definition load_setting :: "js_lib \<Rightarrow> rat \<Rightarrow> string option \<Rightarrow> rat option" where
  "load_setting lib dflt v =
     (case v of None \<Rightarrow> Some dflt | Some t \<Rightarrow> if t = '''' then Some dflt else text_number lib t)"

record bench_settings =
  bs_CONCURRENCY :: "rat option"
  bs_DURATION_MS :: "rat option"
  bs_SEAT_ID_START :: "rat option"

definition read_bench_settings :: "js_lib \<Rightarrow> (string \<Rightarrow> string option) \<Rightarrow> bench_settings" where
  "read_bench_settings lib env = \<lparr>bs_CONCURRENCY = bench_setting lib 50 (env ''CONCURRENCY''),
     bs_DURATION_MS = bench_setting lib 8000 (env ''DURATION_MS''),
     bs_SEAT_ID_START = bench_setting lib 300000 (env ''SEAT_ID_START'')\<rparr>"

definition worker_count :: "rat option \<Rightarrow> nat" where
  "worker_count n = (case n of None \<Rightarrow> 0 | Some q \<Rightarrow> nat \<lfloor>q\<rfloor>)"

definition createBenchUser :: "auth_env \<Rightarrow> bytes \<Rightarrow> int \<Rightarrow> int \<Rightarrow> db \<Rightarrow> int result \<times> db" where
  "createBenchUser env salt t_email now d =
     (case hashPassword (au_scrypt env) salt ''bench-only-not-a-real-password'' of
        Inl e \<Rightarrow> (Inl e, d)
      | Inr passwordHash \<Rightarrow>
          (case createUser (''bench-'' @ show_int t_email @ ''@example.com'') passwordHash now d of
             Inl e \<Rightarrow> (Inl e, d)
           | Inr (row, d') \<Rightarrow> (Inr (user_id row), d')))"

text \<open>The first two awaits of \<open>main\<close>.\<close>

definition bench_prepare ::
  "drivers \<Rightarrow> auth_env \<Rightarrow> bytes \<Rightarrow> int \<Rightarrow> int \<Rightarrow> process \<Rightarrow> db \<Rightarrow> int result \<times> process \<times> db" where
  "bench_prepare dr env salt t_email now p d =
     (case connect_producer dr p of
        (Some e, p') \<Rightarrow> (Inl e, p', d)
      | (None, p') \<Rightarrow> (case createBenchUser env salt t_email now d of (r, d') \<Rightarrow> (r, p', d')))"

lemma bench_prepare_user:
  "bench_prepare dr env salt t now p d = (Inr uid, p', d') \<Longrightarrow>
     createBenchUser env salt t now d = (Inr uid, d') \<and> cn_connected (ps_producer p')"
  by (auto simp: bench_prepare_def connect_producer_def split: option.splits prod.splits)

definition closeHoldExpiryQueue :: "drivers \<Rightarrow> process \<Rightarrow> js_error option \<times> process" where
  "closeHoldExpiryQueue dr p =
     (queue_close dr, p\<lparr>ps_queue_open := ps_queue_open p \<and> queue_close dr \<noteq> None\<rparr>)"

text \<open>The last four awaits of \<open>main\<close>; the first that throws ends the process with code 1.\<close>

definition bench_teardown ::
  "drivers \<Rightarrow> js_error option \<Rightarrow> process \<Rightarrow> string list \<times> int option \<times> process" where
  "bench_teardown dr redis_quit p = run_boot
     [(''producer'', disconnect_producer dr), (''redis'', \<lambda>p. (redis_quit, p)),
      (''queue'', closeHoldExpiryQueue dr), (''pool'', close_pool dr)] p"

lemma bench_teardown_releases:
  assumes "bench_teardown dr redis_quit p = (names, None, p')"
  shows "\<not> cn_connected (ps_producer p') \<and> \<not> ps_queue_open p' \<and> \<not> ps_pool_open p'"
  using assms
  by (auto simp: bench_teardown_def disconnect_producer_def closeHoldExpiryQueue_def close_pool_def
      split: option.splits prod.splits)

subsection \<open>The workers against the booking path\<close>

text \<open>
  The state of a run is the workers' variables, the clock, the history of answers and the backend's
  world. A worker looks at the clock before each seat; the call of \<open>reserveSeat\<close> runs at some point
  while its worker waits.
\<close>

inductive bench_run ::
  "nat \<Rightarrow> int \<Rightarrow> int \<Rightarrow> ('q, 'k) services \<Rightarrow> int \<Rightarrow> bench \<times> int \<times> (int \<times> bool) list \<times> ('q, 'k) world \<Rightarrow>
   bench \<times> int \<times> (int \<times> bool) list \<times> ('q, 'k) world \<Rightarrow> bool"
  for CONCURRENCY :: nat and deadline :: int and uid :: int and svc :: "('q, 'k) services" and hold_ms :: int where
  clock: "now \<le> now' \<Longrightarrow> bench_run CONCURRENCY deadline uid svc hold_ms (b, now, a, w) (b, now', a, w)"
| takes: "k < CONCURRENCY \<Longrightarrow> bn_waiting b k = None \<Longrightarrow> now < deadline \<Longrightarrow>
     bench_run CONCURRENCY deadline uid svc hold_ms (b, now, a, w) (take_seat k b, now, a, w)"
| settles: "bn_waiting b k = Some seatId \<Longrightarrow>
     reserveSeat svc hold_ms seatId uid t1 t2 t3 t4 w = (result, w') \<Longrightarrow>
     bench_run CONCURRENCY deadline uid svc hold_ms (b, now, a, w)
       (settle_seat k (\<not> isl result) latency b, now, a @ [(seatId, \<not> isl result)], w')"

text \<open>The answers are the settled seats: with those being waited for they are the seats tried.\<close>

definition answers_inv :: "bench \<Rightarrow> (int \<times> bool) list \<Rightarrow> bool" where
  "answers_inv b a \<longleftrightarrow> distinct (map fst a) \<and> set (bn_tried b) = fst ` set a \<union> ran (bn_waiting b) \<and>
     fst ` set a \<inter> ran (bn_waiting b) = {} \<and> inj_on (bn_waiting b) (dom (bn_waiting b)) \<and>
     bn_success b = length (filter snd a) \<and> bn_failure b = length (filter (\<lambda>r. \<not> snd r) a)"

lemma answers_inv_take:
  assumes "answers_inv b a" and "bench_inv C s0 b" and "bn_waiting b k = None"
  shows "answers_inv (take_seat k b) a"
proof -
  have "bn_cursor b \<notin> set (bn_tried b)" using assms(2) by (simp add: bench_inv_def)
  then have "bn_cursor b \<notin> fst ` set a" "bn_cursor b \<notin> ran (bn_waiting b)"
    using assms(1) by (auto simp: answers_inv_def)
  then show ?thesis
    using assms(1,3) inj_replace [of "bn_waiting b" "bn_cursor b" k]
    by (auto simp: answers_inv_def take_seat_def ran_map_upd)
qed

lemma answers_inv_settle:
  assumes "answers_inv b a" and "bn_waiting b k = Some x"
  shows "answers_inv (settle_seat k ok l b) (a @ [(x, ok)])" "x \<notin> fst ` set a"
proof -
  have x: "x \<in> ran (bn_waiting b)" using assms(2) by (rule ranI)
  with assms(1) show new: "x \<notin> fst ` set a" by (auto simp: answers_inv_def)
  have ran: "ran ((bn_waiting b)(k := None)) = ran (bn_waiting b) - {x}"
    using assms by (intro ran_upd_None) (simp_all add: answers_inv_def)
  have inj: "inj_on ((bn_waiting b)(k := None)) (dom (bn_waiting b) - {k})"
    using assms(1) by (auto simp: answers_inv_def inj_on_def)
  show "answers_inv (settle_seat k ok l b) (a @ [(x, ok)])"
    using assms(1) x new inj
    by (auto simp: answers_inv_def settle_seat_def Let_def ran)
qed

definition run_inv ::
  "nat \<Rightarrow> int \<Rightarrow> int \<Rightarrow> ('q, 'k) world \<Rightarrow> bench \<times> int \<times> (int \<times> bool) list \<times> ('q, 'k) world \<Rightarrow> bool" where
  "run_inv C s0 uid w1 = (\<lambda>(b, now, a, w). bench_inv C s0 b \<and> answers_inv b a \<and> served_inv w1 a w \<and>
     versions_room (w_db w1) \<and> int4_ok uid \<and> uid \<in> user_id ` set (users (w_db w1)))"

definition run_init ::
  "int \<Rightarrow> int \<Rightarrow> ('q, 'k) world \<Rightarrow> bench \<times> int \<times> (int \<times> bool) list \<times> ('q, 'k) world \<Rightarrow> bool" where
  "run_init s0 uid w1 = (\<lambda>(b, now, a, w). b = bench_start s0 \<and> a = [] \<and> w = w1 \<and>
     consistent (w_db w1) \<and> versions_room (w_db w1) \<and> int4_ok uid \<and> uid \<in> user_id ` set (users (w_db w1)))"

lemma run_inv_init: "run_init s0 uid w1 s \<Longrightarrow> run_inv C s0 uid w1 s"
  by (auto simp: run_init_def run_inv_def bench_start_def bench_inv_def answers_inv_def served_inv_def)

lemma run_inv_step: "bench_run C deadline uid svc h s s' \<Longrightarrow> run_inv C s0 uid w1 s \<Longrightarrow> run_inv C s0 uid w1 s'"
proof (induction rule: bench_run.induct)
  case (clock now now' b a w)
  then show ?case by (simp add: run_inv_def)
next
  case (takes k b now a w)
  then show ?case
    using answers_inv_take [of b a C s0 k] bench_inv_step [OF take [of k C b]] by (simp add: run_inv_def)
next
  case (settles b k x t1 t2 t3 t4 w result w' now a latency)
  then show ?case
    using answers_inv_settle [OF _ settles(1)] bench_inv_step [OF settle [OF settles(1)]]
      served_inv_answer [OF _ _ _ _ _ settles(2)]
    by (simp add: run_inv_def)
qed

interpretation bench_runs: invariant_system "run_init s0 uid w1" "bench_run C deadline uid svc h" "run_inv C s0 uid w1"
    for s0 uid w1 C deadline svc h
  by unfold_locales (erule run_inv_init, rule run_inv_step)

subsection \<open>What the benchmark reports\<close>

record bench_report =
  bp_total :: nat
  bp_success :: nat
  bp_failure :: nat
  bp_p50 :: rat
  bp_p95 :: rat
  bp_p99 :: rat
  bp_max :: rat

definition bench_report :: "(rat \<Rightarrow> nat \<Rightarrow> rat) \<Rightarrow> bench \<Rightarrow> bench_report" where
  "bench_report product b =
     (let sorted_values = sort (bn_latencies b)
      in \<lparr>bp_total = bn_success b + bn_failure b, bp_success = bn_success b, bp_failure = bn_failure b,
          bp_p50 = percentile product sorted_values 50, bp_p95 = percentile product sorted_values 95,
          bp_p99 = percentile product sorted_values 99,
          bp_max = (if sorted_values = [] then 0 else sorted_values ! (length sorted_values - 1))\<rparr>)"

lemma percentile_mono:
  assumes "sorted xs" and "0 \<le> product p (length xs)" and "product p (length xs) \<le> product q (length xs)"
  shows "percentile product xs p \<le> percentile product xs q \<and>
    percentile product xs q \<le> (if xs = [] then 0 else xs ! (length xs - 1))"
proof (cases "xs = []")
  case True
  with assms show ?thesis by (simp add: percentile_def Let_def min_less_iff_disj)
next
  case False
  let ?n = "int (length xs) - 1"
  let ?i = "min ?n \<lfloor>product p (length xs)\<rfloor>" and ?j = "min ?n \<lfloor>product q (length xs)\<rfloor>"
  have n: "0 \<le> ?n" using False by (cases xs) auto
  have "0 \<le> \<lfloor>product p (length xs)\<rfloor>" "\<lfloor>product p (length xs)\<rfloor> \<le> \<lfloor>product q (length xs)\<rfloor>"
    using assms(2,3) by (simp_all add: floor_mono)
  with n have ij: "0 \<le> ?i" "?i \<le> ?j" "?j \<le> ?n" by (auto simp: min_def)
  then have "nat ?i \<le> nat ?j" "nat ?j \<le> length xs - 1" "length xs - 1 < length xs" using n by linarith+
  then have "xs ! nat ?i \<le> xs ! nat ?j" "xs ! nat ?j \<le> xs ! (length xs - 1)"
    using assms(1) by (auto intro: sorted_nth_mono)
  moreover have "percentile product xs p = xs ! nat ?i" "percentile product xs q = xs ! nat ?j"
    using False assms(2,3) by (auto intro: percentile_value order_trans)
  ultimately show ?thesis using False by simp
qed

lemma createBenchUser_effect:
  assumes "createBenchUser env salt t now d = (Inr uid, d')" and "schema_ok d"
  shows "schema_ok d' \<and> seats d' = seats d \<and> bookings d' = bookings d \<and> bookings_seq d' = bookings_seq d \<and>
    int4_ok uid \<and> uid \<in> user_id ` set (users d') \<and> set (users d) \<subseteq> set (users d')"
proof -
  obtain h row where r: "createUser (''bench-'' @ show_int t @ ''@example.com'') h now d = Inr (row, d')" "uid = user_id row"
    using assms(1) by (auto simp: createBenchUser_def split: sum.splits prod.splits)
  have "schema_ok d'"
    using schema.keeps_createUser assms(2) r(1) unfolding statement_keeps_def by blast
  moreover have "uid = users_seq d" "users d' = users d @ [row]" "seats d' = seats d" "bookings d' = bookings d"
      "bookings_seq d' = bookings_seq d"
    using r by (auto simp: createUser_def Let_def split: if_splits)
  ultimately show ?thesis
    using r(2) by (auto simp: schema_ok_def users_table_def serial_ok_def)
qed

lemma consistent_more_users:
  "consistent d \<Longrightarrow> seats d' = seats d \<Longrightarrow> bookings d' = bookings d \<Longrightarrow> bookings_seq d' = bookings_seq d \<Longrightarrow>
   set (users d) \<subseteq> set (users d') \<Longrightarrow> consistent d'"
  by (simp add: consistent_def distinct_seats_def seat_matches_def live_bookings_def references_ok_def) blast

lemma answered_card:
  assumes "distinct (map fst a)" and "fst ` set a = X" and "\<And>x ok. (x, ok) \<in> set a \<Longrightarrow> P (x, ok) = Q x"
  shows "length (filter P a) = card {x \<in> X. Q x}"
proof -
  have "fst ` set (filter P a) = {x \<in> X. Q x}" using assms(2,3) by force
  moreover have "distinct (map fst (filter P a))" using assms(1) by (rule distinct_map_filter)
  ultimately show ?thesis by (metis distinct_card length_map set_map)
qed

text \<open>
  The benchmark reports what happened: on a consistent database that nobody else writes, once its
  workers have stopped, the number of successes is the number of seats between the first id and
  the cursor that were available when it began, every other id is a failure, each id was tried
  once, and the reported percentiles are in order up to the maximum. The deadline only bounds how
  far the cursor gets. (\<open>product\<close> is the floating-point product of a percentile and a count, assumed
  to grow with the percentile; the booking sequence has room for the seats tried.)
\<close>

theorem benchmark_report:
  assumes "consistent (w_db w0)" and "schema_ok (w_db w0)" and "versions_room (w_db w0)"
    and "bench_prepare dr env salt t now p0 (w_db w0) = (Inr uid, p1, d1)"
    and "(bench_run C deadline uid svc hold_ms)\<^sup>*\<^sup>* (bench_start s0, t0, [], w0\<lparr>w_db := d1\<rparr>) (b, t1, answered, w)"
    and "bn_waiting b = Map.empty"
    and "bookings_seq (w_db w0) + (bn_cursor b - s0) \<le> int4_max + 1"
    and "\<forall>n. 0 \<le> product 50 n \<and> product 50 n \<le> product 95 n \<and> product 95 n \<le> product 99 n"
  shows "let r = bench_report product b in
    bp_success r = card {x \<in> {s0..<bn_cursor b}. seat_open (w_db w0) x} \<and>
    bp_failure r = card {x \<in> {s0..<bn_cursor b}. \<not> seat_open (w_db w0) x} \<and>
    bp_total r = nat (bn_cursor b - s0) \<and> consistent (w_db w) \<and>
    bp_p50 r \<le> bp_p95 r \<and> bp_p95 r \<le> bp_p99 r \<and> bp_p99 r \<le> bp_max r"
proof -
  let ?w1 = "w0\<lparr>w_db := d1\<rparr>"
  note user = createBenchUser_effect [OF conjunct1 [OF bench_prepare_user [OF assms(4)]] assms(2)]
  have con: "consistent d1"
    using assms(1) user consistent_more_users by blast
  then have "run_init s0 uid ?w1 (bench_start s0, t0, [], ?w1)"
    using user assms(3) by (simp add: run_init_def versions_room_def)
  from bench_runs.steps_inv [OF assms(5) run_inv_init [OF this]]
  have inv: "bench_inv C s0 b" "answers_inv b answered" "served_inv ?w1 answered w" by (simp_all add: run_inv_def)
  have "{s0..bn_cursor b - 1} = {s0..<bn_cursor b}" by auto
  with inv(1,2) assms(6) have keys: "distinct (map fst answered)" "fst ` set answered = {s0..<bn_cursor b}"
    by (simp_all add: bench_inv_def answers_inv_def)
  have "length answered = nat (bn_cursor b - s0)"
    using distinct_card [OF keys(1)] keys(2) by simp
  with inv(3) assms(7) user have ans: "consistent (w_db w)" "\<And>x ok. (x, ok) \<in> set answered \<Longrightarrow> ok = seat_open (w_db w0) x"
    using inv(1) by (auto simp: served_inv_def bench_inv_def seat_open_def seat_at_def)
  note count = answered_card [OF keys]
  have "\<forall>n. 0 \<le> product 95 n" "\<forall>n. 0 \<le> product 99 n" using assms(8) by (meson order_trans)+
  then have "percentile product xs 50 \<le> percentile product xs 95 \<and> percentile product xs 95 \<le> percentile product xs 99 \<and>
      percentile product xs 99 \<le> (if xs = [] then 0 else xs ! (length xs - 1))" if "sorted xs" for xs
    using percentile_mono [OF that, of product 50 95] percentile_mono [OF that, of product 95 99] assms(8) by auto
  from this [of "sort (bn_latencies b)"] show ?thesis
    using inv(1,2) assms(6) ans count [of snd "seat_open (w_db w0)"] count [of "\<lambda>r. \<not> snd r" "\<lambda>x. \<not> seat_open (w_db w0) x"]
    by (auto simp: bench_report_def Let_def answers_inv_def bench_inv_def)
qed

theorem benchmark_report_witness:
  "\<exists>p1 d1 b t1 answered w. bench_prepare demo_drivers demo_env [7] 5 0 fresh_process demo_db = (Inr 3, p1, d1) \<and>
     (bench_run 1 9 3 quiet_services 300000)\<^sup>*\<^sup>* (bench_start 1, 0, [], (demo_world demo_db)\<lparr>w_db := d1\<rparr>) (b, t1, answered, w) \<and>
     bp_success (bench_report (\<lambda>p n. p / 100 * of_nat n) b) = 1"
proof -
  let ?b1 = "take_seat 0 (bench_start 1)"
  have show_digit: "show_int 1 = ''1''" "show_int 2 = ''2''" by code_simp+
  obtain h where "hashPassword (au_scrypt demo_env) [7] ''bench-only-not-a-real-password'' = Inr h"
    by (simp add: hashPassword_def demo_env_def demo_kdf_def)
  moreover have "users_seq demo_db = 3" "\<forall>u\<in>set (users demo_db). user_email u \<noteq> ''bench-'' @ show_int 5 @ ''@example.com''"
    using show_digit by (simp_all add: demo_defs)
  ultimately obtain p1 d1 where d1: "bench_prepare demo_drivers demo_env [7] 5 0 fresh_process demo_db = (Inr 3, p1, d1)"
    by (auto simp: bench_prepare_def connect_producer_def demo_drivers_def createBenchUser_def createUser_def
        Let_def int4_max_def)
  obtain result w where call: "reserveSeat quiet_services 300000 1 3 0 0 0 0 ((demo_world demo_db)\<lparr>w_db := d1\<rparr>) = (result, w)"
    by fastforce
  let ?R = "bench_run 1 9 3 quiet_services 300000" and ?w = "(demo_world demo_db)\<lparr>w_db := d1\<rparr>"
  let ?b2 = "settle_seat 0 (\<not> isl result) 4 ?b1"
  have "?R (bench_start 1, 0, [], ?w) (?b1, 0, [], ?w)"
    by (rule takes) (simp_all add: bench_start_def)
  moreover have "?R (?b1, 0, [], ?w) (?b2, 0, [] @ [(1, \<not> isl result)], w)"
    by (rule settles [OF _ call]) (simp add: take_seat_def bench_start_def)
  ultimately have run: "?R\<^sup>*\<^sup>* (bench_start 1, 0, [], ?w) (?b2, 0, [(1, \<not> isl result)], w)" by simp
  have ok: "consistent (w_db (demo_world demo_db))" "schema_ok (w_db (demo_world demo_db))" "versions_room (w_db (demo_world demo_db))"
    by (simp_all add: demo_facts demo_schema) (simp add: demo_defs versions_room_def int4_ok_def int4_max_def)
  have b2: "bn_waiting ?b2 = Map.empty" "bn_cursor ?b2 = 2"
    by (auto simp: settle_seat_def take_seat_def bench_start_def Let_def)
  have "bookings_seq demo_db = 1" by (simp add: demo_defs)
  then have "bp_success (bench_report (\<lambda>p n. p / 100 * of_nat n) ?b2) = card {x \<in> {1..<2}. seat_open demo_db x}"
    using benchmark_report [OF ok, of demo_drivers demo_env "[7]" 5 0 fresh_process 3 p1 d1, OF _ run b2(1), of "\<lambda>p n. p / 100 * of_nat n"] d1 b2(2)
    by (simp add: Let_def int4_max_def mult_right_mono)
  moreover have "{x \<in> {1..<2}. seat_open demo_db x} = {1}"
    by (auto simp: seat_open_def demo_facts)
  ultimately show ?thesis using d1 run by force
qed

end
