(* ===== verification/Endpoints.thy ===== *)
theory Endpoints
  imports Site_Map Buyer_Journey
begin

text \<open>
  From the client's call to the server's route: the calls of \<open>frontend/src/lib/api.ts\<close> as method,
  path and body, and the table of routes that \<open>index.ts\<close> registers with the prefixes of its
  modules (\<open>booking.routes.ts\<close>, \<open>catalog.routes.ts\<close>, \<open>auth.routes.ts\<close>). Fastify's router is a
  parameter: a function from the registered routes, a method and a path to a route and the values
  of its parameters.
\<close>

subsection \<open>The routes the server registers\<close>

datatype endpoint = Api route | LiveSeats | Health | MetricsText

type_synonym route_table = "(string \<times> string \<times> endpoint) list"

definition bookingRoutes :: route_table where
  "bookingRoutes =
     [(''POST'', ''/reserve'', Api ReserveRoute), (''GET'', ''/'', Api ListBookingsRoute),
      (''GET'', ''/:bookingId'', Api GetBookingRoute), (''POST'', ''/:bookingId/confirm'', Api ConfirmRoute),
      (''POST'', ''/:bookingId/cancel'', Api CancelRoute)]"

definition catalogRoutes :: route_table where
  "catalogRoutes =
     [(''GET'', ''/'', Api ListEventsRoute), (''GET'', ''/:eventId/seats'', Api ListSeatsRoute),
      (''GET'', ''/:eventId/live'', LiveSeats)]"

definition authRoutes :: route_table where
  "authRoutes = [(''POST'', ''/register'', Api RegisterRoute), (''POST'', ''/login'', Api LoginRoute)]"

definition with_prefix :: "string \<Rightarrow> route_table \<Rightarrow> route_table" where
  "with_prefix pre rs = map (\<lambda>(m, path, e). (m, pre @ path, e)) rs"

definition server_routes :: route_table where
  "server_routes =
     [(''GET'', ''/metrics'', MetricsText), (''GET'', ''/health'', Health)] @
     with_prefix ''/bookings'' bookingRoutes @ with_prefix ''/events'' catalogRoutes @ with_prefix ''/auth'' authRoutes"

type_synonym dispatcher = "(string \<times> string) list \<Rightarrow> string \<Rightarrow> string \<Rightarrow> ((string \<times> string) \<times> string list) option"

definition route_key :: "string \<times> string \<times> endpoint \<Rightarrow> string \<times> string" where
  "route_key r = (fst r, fst (snd r))"

definition dispatch :: "dispatcher \<Rightarrow> string \<Rightarrow> string \<Rightarrow> (endpoint \<times> string list) option" where
  "dispatch fa m path =
     (case fa (map route_key server_routes) m path of
        None \<Rightarrow> None
      | Some (k, params) \<Rightarrow> map_option (\<lambda>e. (e, params)) (map_of (map (\<lambda>r. (route_key r, snd (snd r))) server_routes) k))"

text \<open>
  What is assumed of Fastify: a plain path that one registered pattern of the method fits, and no
  other, goes to that pattern with its parameters. (A module's \<open>/\<close> answers at the prefix with and
  without a slash at the end, which is why the segments decide.)
\<close>

definition dispatcher_ok :: "dispatcher \<Rightarrow> bool" where
  "dispatcher_ok fa \<longleftrightarrow> (\<forall>ks m path k. plain_path path \<longrightarrow>
     filter (\<lambda>(m', pat). m' = m \<and> fits pat path) ks = [k] \<longrightarrow> fa ks m path = Some (k, params_of (snd k) path))"

definition first_route :: dispatcher where
  "first_route ks m path =
     (case filter (\<lambda>(m', pat). m' = m \<and> fits pat path) ks of [] \<Rightarrow> None | k # _ \<Rightarrow> Some (k, params_of (snd k) path))"

lemma first_route_ok: "dispatcher_ok first_route"
  by (simp add: dispatcher_ok_def first_route_def)

subsection \<open>The calls of the client\<close>

text \<open>The arguments of \<open>request\<close>: \<open>fetch\<close> without \<open>init\<close> is a GET without a body.\<close>

record api_call =
  ac_method :: string
  ac_path :: string
  ac_body :: "json option"

definition get_call :: "string \<Rightarrow> api_call" where
  "get_call path = \<lparr>ac_method = ''GET'', ac_path = path, ac_body = None\<rparr>"

definition post_call :: "string \<Rightarrow> json option \<Rightarrow> api_call" where
  "post_call path body = \<lparr>ac_method = ''POST'', ac_path = path, ac_body = body\<rparr>"

definition credentials_json :: "string \<Rightarrow> string \<Rightarrow> json" where
  "credentials_json email password = JObj [(''email'', JStr email), (''password'', JStr password)]"

definition call_register :: "string \<Rightarrow> string \<Rightarrow> api_call" where
  "call_register email password = post_call ''/auth/register'' (Some (credentials_json email password))"

definition call_login :: "string \<Rightarrow> string \<Rightarrow> api_call" where
  "call_login email password = post_call ''/auth/login'' (Some (credentials_json email password))"

definition call_listEvents :: api_call where
  "call_listEvents = get_call ''/events''"

definition call_listSeatsForEvent :: "int \<Rightarrow> string option \<Rightarrow> nat option \<Rightarrow> api_call" where
  "call_listSeatsForEvent eventId status limit =
     get_call (''/events/'' @ show_int eventId @ ''/seats'' @ seats_query_text status limit)"

definition call_reserveSeat :: "int \<Rightarrow> api_call" where
  "call_reserveSeat seatId = post_call ''/bookings/reserve'' (Some (JObj [(''seatId'', json_int seatId)]))"

definition call_listBookings :: api_call where
  "call_listBookings = get_call ''/bookings''"

definition call_getBooking :: "int \<Rightarrow> api_call" where
  "call_getBooking bookingId = get_call (''/bookings/'' @ show_int bookingId)"

definition call_confirmBooking :: "int \<Rightarrow> api_call" where
  "call_confirmBooking bookingId = post_call (''/bookings/'' @ show_int bookingId @ ''/confirm'') None"

definition call_cancelBooking :: "int \<Rightarrow> api_call" where
  "call_cancelBooking bookingId = post_call (''/bookings/'' @ show_int bookingId @ ''/cancel'') None"

text \<open>\<open>API_URL\<close> from the build, and \<open>API_URL.replace(/^http/, "ws")\<close>.\<close>

definition API_URL :: "string option \<Rightarrow> string" where
  "API_URL VITE_API_URL = (case VITE_API_URL of None \<Rightarrow> ''http://localhost:3000'' | Some u \<Rightarrow> u)"

definition liveSeatsUrl :: "string \<Rightarrow> int \<Rightarrow> string" where
  "liveSeatsUrl base eventId =
     (if prefix ''http'' base then ''ws'' @ drop 4 base else base) @ ''/events/'' @ show_int eventId @ ''/live''"

text \<open>
  The request the server handles for a call with no query, when its path is one of an API route.
\<close>

definition served_call :: "dispatcher \<Rightarrow> ('q, 'k, 'r, 'c) site \<Rightarrow> string option \<Rightarrow> api_call \<Rightarrow> request option" where
  "served_call fa si token c =
     (case dispatch fa (ac_method c) (pathname (ac_path c)) of
        Some (Api r, params) \<Rightarrow>
          Some (client_request si token r (case params of [] \<Rightarrow> '''' | p # _ \<Rightarrow> p) (ac_body c))
      | _ \<Rightarrow> None)"

subsection \<open>Every call reaches its route\<close>

lemma segs_of_calls:
  "segs_of ''/metrics'' = [''metrics'']" "segs_of ''/health'' = [''health'']"
  "segs_of ''/bookings/reserve'' = [''bookings'', ''reserve'']" "segs_of ''/bookings/'' = [''bookings'']"
  "segs_of ''/bookings/:bookingId/confirm'' = [''bookings'', '':bookingId'', ''confirm'']"
  "segs_of ''/bookings/:bookingId/cancel'' = [''bookings'', '':bookingId'', ''cancel'']"
  "segs_of ''/events/'' = [''events'']" "segs_of ''/events/:eventId/live'' = [''events'', '':eventId'', ''live'']"
  "segs_of ''/auth/register'' = [''auth'', ''register'']" "segs_of ''/auth/login'' = [''auth'', ''login'']"
  "segs_of (''/events/'' @ show_int i @ ''/seats'') = [''events'', show_int i, ''seats'']"
  "segs_of (''/events/'' @ show_int i @ ''/live'') = [''events'', show_int i, ''live'']"
  "segs_of (''/bookings/'' @ show_int i) = [''bookings'', show_int i]"
  "segs_of (''/bookings/'' @ show_int i @ ''/confirm'') = [''bookings'', show_int i, ''confirm'']"
  "segs_of (''/bookings/'' @ show_int i @ ''/cancel'') = [''bookings'', show_int i, ''cancel'']"
  by (simp_all add: segs_of_def)

lemma plain_calls:
  "plain_path ''/bookings/reserve''" "plain_path ''/auth/register''" "plain_path ''/auth/login''"
  "plain_path (''/events/'' @ show_int i @ ''/seats'')" "plain_path (''/events/'' @ show_int i @ ''/live'')"
  "plain_path (''/bookings/'' @ show_int i)" "plain_path (''/bookings/'' @ show_int i @ ''/confirm'')"
  "plain_path (''/bookings/'' @ show_int i @ ''/cancel'')"
  unfolding plain_path_def segs_of_calls using plain_chars [of i] by (simp_all add: path_of_def)

lemma dispatch_first:
  assumes "dispatcher_ok fa" and "plain_path path"
    and "length (filter (\<lambda>(m', pat). m' = m \<and> fits pat path) (map route_key server_routes)) = 1 \<and>
      dispatch first_route m path = r"
  shows "dispatch fa m path = r"
proof -
  have single: "length ks = 1 \<Longrightarrow> \<exists>k. ks = [k]" for ks :: "(string \<times> string) list"
    by (simp add: length_Suc_conv)
  from single [OF conjunct1 [OF assms(3)]]
  obtain k where k: "filter (\<lambda>(m', pat). m' = m \<and> fits pat path) (map route_key server_routes) = [k]" ..
  with assms(1,2) have "fa (map route_key server_routes) m path = Some (k, params_of (snd k) path)"
    unfolding dispatcher_ok_def by blast
  then have "fa (map route_key server_routes) m path = first_route (map route_key server_routes) m path"
    by (simp only: first_route_def k list.case)
  with assms(3) show ?thesis by (simp add: dispatch_def)
qed

lemmas server_route_simps = server_routes_def with_prefix_def bookingRoutes_def catalogRoutes_def authRoutes_def
  route_key_def fits_def params_of_def seg_fits_def segs_of_def dispatch_def first_route_def

lemma pathname_calls:
  "pathname ''/bookings'' = ''/bookings''" "pathname ''/events'' = ''/events''"
  "pathname ''/bookings/reserve'' = ''/bookings/reserve''" "pathname ''/auth/register'' = ''/auth/register''"
  "pathname ''/auth/login'' = ''/auth/login''"
  "pathname (''/bookings/'' @ show_int i) = ''/bookings/'' @ show_int i"
  "pathname (''/bookings/'' @ show_int i @ ''/confirm'') = ''/bookings/'' @ show_int i @ ''/confirm''"
  "pathname (''/bookings/'' @ show_int i @ ''/cancel'') = ''/bookings/'' @ show_int i @ ''/cancel''"
  by (rule pathname_plain, rule plain_calls plain_paths)+

lemma pathname_seats:
  "pathname (''/events/'' @ show_int i @ ''/seats'' @ seats_query_text status limit) = ''/events/'' @ show_int i @ ''/seats''"
proof -
  have plain: "pathname (''/events/'' @ show_int i @ ''/seats'') = ''/events/'' @ show_int i @ ''/seats''"
    using plain_calls(4) by (rule pathname_plain)
  have "seats_query_text status limit = [] \<or> hd (seats_query_text status limit) = CHR ''?''"
    by (auto simp: seats_query_text_def Let_def split: list.split)
  moreover have "takeWhile P (xs @ ys) = xs" if "takeWhile P xs = xs" "ys = [] \<or> \<not> P (hd ys)" for P and xs ys :: string
    using that by (cases ys) (auto simp: takeWhile_append takeWhile_eq_all_conv)
  ultimately show ?thesis
    using plain unfolding pathname_def append_assoc [symmetric] by blast
qed

lemma dispatch_calls:
  assumes "dispatcher_ok fa"
  shows "dispatch fa ''POST'' ''/auth/register'' = Some (Api RegisterRoute, [])"
    "dispatch fa ''POST'' ''/auth/login'' = Some (Api LoginRoute, [])"
    "dispatch fa ''GET'' ''/events'' = Some (Api ListEventsRoute, [])"
    "dispatch fa ''GET'' (''/events/'' @ show_int i @ ''/seats'') = Some (Api ListSeatsRoute, [show_int i])"
    "dispatch fa ''GET'' (''/events/'' @ show_int i @ ''/live'') = Some (LiveSeats, [show_int i])"
    "dispatch fa ''POST'' ''/bookings/reserve'' = Some (Api ReserveRoute, [])"
    "dispatch fa ''GET'' ''/bookings'' = Some (Api ListBookingsRoute, [])"
    "dispatch fa ''GET'' (''/bookings/'' @ show_int i) = Some (Api GetBookingRoute, [show_int i])"
    "dispatch fa ''POST'' (''/bookings/'' @ show_int i @ ''/confirm'') = Some (Api ConfirmRoute, [show_int i])"
    "dispatch fa ''POST'' (''/bookings/'' @ show_int i @ ''/cancel'') = Some (Api CancelRoute, [show_int i])"
  by (rule dispatch_first [OF assms]; (rule plain_calls plain_paths)?; simp add: server_route_simps)+

subsection \<open>The calls and the handlers\<close>

lemmas call_defs = get_call_def post_call_def call_register_def call_login_def call_listEvents_def
  call_listSeatsForEvent_def call_reserveSeat_def call_listBookings_def call_getBooking_def
  call_confirmBooking_def call_cancelBooking_def

text \<open>
  C13. Every call of the client reaches the handler it is meant for: the method and path of each
  function of the API module select that function's route, with the decimal text of the id as the
  parameter, whatever the id and the query; what the server handles for a booking call is the
  request the journey's theorems are about; and the address of the live socket is the API's with
  the scheme ws (or wss) and the path of the live handler of that event.
\<close>

theorem client_calls_reach_routes:
  assumes "dispatcher_ok fa"
  shows "dispatch fa (ac_method (call_register e p)) (pathname (ac_path (call_register e p))) = Some (Api RegisterRoute, []) \<and>
    dispatch fa (ac_method (call_login e p)) (pathname (ac_path (call_login e p))) = Some (Api LoginRoute, []) \<and>
    dispatch fa (ac_method call_listEvents) (pathname (ac_path call_listEvents)) = Some (Api ListEventsRoute, []) \<and>
    (let c = call_listSeatsForEvent i status limit
     in dispatch fa (ac_method c) (pathname (ac_path c)) = Some (Api ListSeatsRoute, [show_int i])) \<and>
    served_call fa si token (call_reserveSeat i) =
      Some (client_request si token ReserveRoute '''' (Some (JObj [(''seatId'', json_int i)]))) \<and>
    served_call fa si token call_listBookings = Some (client_request si token ListBookingsRoute '''' None) \<and>
    served_call fa si token (call_getBooking i) = Some (client_request si token GetBookingRoute (show_int i) None) \<and>
    served_call fa si token (call_confirmBooking i) = Some (client_request si token ConfirmRoute (show_int i) None) \<and>
    served_call fa si token (call_cancelBooking i) = Some (client_request si token CancelRoute (show_int i) None) \<and>
    (\<exists>path. liveSeatsUrl (''http'' @ rest) i = ''ws'' @ rest @ path \<and> dispatch fa ''GET'' path = Some (LiveSeats, [show_int i]))"
proof -
  have live: "liveSeatsUrl (''http'' @ rest) i = ''ws'' @ rest @ (''/events/'' @ show_int i @ ''/live'')"
    by (simp add: liveSeatsUrl_def)
  show ?thesis
    unfolding call_defs served_call_def api_call.simps Let_def pathname_calls pathname_seats
      dispatch_calls [OF assms]
    using live dispatch_calls(5) [OF assms, of i] by (simp only: option.case prod.case endpoint.case list.case simp_thms) blast
qed

theorem client_calls_reach_routes_witness:
  "served_call first_route demo_site None (call_confirmBooking 12) =
     Some (client_request demo_site None ConfirmRoute ''12'' None)"
proof -
  have "show_int 12 = ''12''" by code_simp
  with client_calls_reach_routes [OF first_route_ok, of "''''" "''''" 12 None None demo_site None "''''"]
  show ?thesis by simp
qed

end
