(* ===== verification/Spec2Isabelle.thy ===== *)
theory Spec2Isabelle
  imports Booking_Safety Interleaving Hold_Expiry Cdc Http Config Shutdown Metrics Buyer_Journey Scripts
    Site_Map Lifecycle Bad_Requests Load_Tests Schema Benchmark Endpoints
begin

text \<open>
  A verification library for the ticket-booking system of this repository: the TypeScript
  service under \<open>src/backend/src\<close>, the browser application under \<open>src/frontend/src\<close> that its
  buyers use, and the scripts beside them. The service sells seats of events. A user reserves a seat
  (the seat is held, a pending booking expires after a few minutes), then confirms the booking
  (the seat is booked) or cancels it; an abandoned hold is reverted by a delayed job. Any number
  of instances run over one Postgres database, with Redis, Kafka and a job queue beside it, and
  push seat changes to browsers over WebSockets.

  \<^bold>\<open>The theories and the code they model\<close>

  \<^item> \<open>Prelude\<close>: decimal texts, splitting, rows of tables (\<open>UPDATE ... RETURNING\<close> as
    \<open>update_rows\<close> and \<open>returned_rows\<close>), transactions as functions to an error or a value and
    a new database, reachable states and observed runs, and the locales \<open>invariant_system\<close>,
    \<open>simulation\<close> and \<open>refined_safety\<close>.
  \<^item> \<open>Errors\<close>: \<open>shared/errors/AppError.ts\<close>, the \<open>*.errors.ts\<close> files and
    \<open>shared/middleware/errorHandler.ts\<close>. A thrown value is a \<open>js_error\<close>.
  \<^item> \<open>Database\<close>: \<open>infrastructure/database/schema/*.ts\<close> as records, tables as lists of rows,
    32-bit columns as integers with the range test written out.
  \<^item> \<open>Seat_Repository\<close>: \<open>modules/booking/infrastructure/seat.repository.ts\<close>. Its four conditional
    updates meet the contract \<open>seat_transition\<close>.
  \<^item> \<open>Consistency\<close>: what seats and bookings say about each other (\<open>consistent\<close>).
  \<^item> \<open>Messaging\<close>: \<open>infrastructure/kafka/producer.ts\<close>, \<open>infrastructure/queue/hold-expiry.queue.ts\<close>.
  \<^item> \<open>Booking\<close>, \<open>Booking_Contract\<close>, \<open>Booking_Usecases\<close>: \<open>modules/booking/application/*.ts\<close>. Each
    use case is given by its stages between awaits on the database and by their composition;
    the three transactions on an existing booking meet the contract \<open>booking_transition\<close>.
  \<^item> \<open>Ticket_Ledger\<close>: the abstract specification, a ledger in which each seat is free, held by a
    booking or sold to one.
  \<^item> \<open>Booking_System\<close>, \<open>Booking_Safety\<close>: processes at any stage of the use cases, interleaved
    over one database, with failing connections and lost replies; its reachable states.
  \<^item> \<open>Transaction_Locks\<close>, \<open>Serializability\<close>, \<open>Interleaving\<close>: the four transactions one statement at a time, any
    number at once, under the row locks of READ COMMITTED; what lets the other theories run a
    transaction as one step.
  \<^item> \<open>Hold_Expiry\<close>: \<open>infrastructure/queue/hold-expiry.worker.ts\<close>.
  \<^item> \<open>Realtime\<close>: \<open>infrastructure/realtime/seat-broadcaster.ts\<close> and the WebSocket handler
    \<open>modules/catalog/interface/live.controller.ts\<close>; the rooms meet the contract
    \<open>membership_registry\<close>.
  \<^item> \<open>Json\<close>, \<open>Cdc\<close>: \<open>infrastructure/kafka/debezium-mapper.ts\<close> and \<open>cdc-consumer.ts\<close> on untyped
    JSON values.
  \<^item> \<open>Catalog\<close>: \<open>modules/catalog\<close>, the events and the seats of an event.
  \<^item> \<open>Password\<close>, \<open>Auth\<close>: \<open>shared/crypto/password.ts\<close>, \<open>shared/auth/jwt.ts\<close>, \<open>modules/auth\<close> and
    \<open>shared/middleware/requireAuth.ts\<close>.
  \<^item> \<open>Rate_Limiter\<close>: \<open>shared/middleware/rateLimiter.ts\<close>.
  \<^item> \<open>Zod\<close>, \<open>Validation\<close>: the zod schemas as functions to issues or a value, and those of the
    controllers.
  \<^item> \<open>Bad_Requests\<close>: which requests the schemas refuse.
  \<^item> \<open>Http\<close>: the controllers, the routes and the hooks of \<open>index.ts\<close> in the order Fastify runs
    them.
  \<^item> \<open>Shutdown\<close>, \<open>Metrics\<close>, \<open>Config\<close>: \<open>shutdown.ts\<close>, \<open>shared/metrics/registry.ts\<close> with the
    connection flags and the health route, and the list settings of \<open>config/env.ts\<close>.
  \<^item> \<open>Environment\<close>: the schema of \<open>config/env.ts\<close>, the queue's connection in \<open>config/redis.ts\<close>
    and \<open>start\<close> of \<open>index.ts\<close>.
  \<^item> \<open>Lifecycle\<close>: one process from \<open>start\<close> to the default shutdown dependencies.
  \<^item> \<open>Seat_Picker\<close>: \<open>frontend/src/pages/SeatPickerPage.tsx\<close>: the selection, the live updates, the
    reservation of the selected seats one by one, the map of sections and rows.
  \<^item> \<open>Client\<close>: \<open>frontend/src/lib\<close> and \<open>components/ProtectedRoute.tsx\<close>: requests and their
    errors, the session in React state, module variable and local storage, the countdown, the
    reconnecting socket.
  \<^item> \<open>Checkout_Pages\<close>: the other pages: checkout of one and of several bookings, booking,
    ticket, login, catalogue, event.
  \<^item> \<open>Screens\<close>, \<open>Site_Map\<close>: what every page draws (texts, links, fields, buttons with their
    handlers), \<open>App.tsx\<close> with its routes, and where links and \<open>navigate\<close> calls lead.
  \<^item> \<open>Endpoints\<close>: the calls of \<open>lib/api.ts\<close> as method, path and body, and the table of routes
    that \<open>index.ts\<close> registers.
  \<^item> \<open>Wire\<close>: the replies as JSON, the types of \<open>frontend/src/lib/types.ts\<close> and how a page reads
    a booking or an error.
  \<^item> \<open>Buyer_Journey\<close>: the client's calls as requests that \<open>Http\<close> serves; from the seat map to
    the ticket.
  \<^item> \<open>Schema\<close>: the constraints of \<open>infrastructure/database/schema/*.ts\<close> as one predicate.
  \<^item> \<open>Scripts\<close>: \<open>backend/scripts/seed.ts\<close>, \<open>baseline-migrations.ts\<close> and the user pool of
    \<open>load-test/reserve-auth-load-test.js\<close>.
  \<^item> \<open>Benchmark\<close>: \<open>backend/scripts/bench-reserve.ts\<close> against the modelled booking path.
  \<^item> \<open>Load_Tests\<close>: the connections of \<open>load-test/*.js\<close> against the modelled backend.
  \<^item> \<open>Demo\<close>: the concrete states on which witnesses run.

  \<^bold>\<open>How state and effects are modelled\<close>

  A use case takes the state and returns a result and the new state. The state of the booking
  flow is the record \<open>world\<close>: the database, the queue, the broker and the counters. A transaction
  that throws leaves the database as it was. Times that the code reads are arguments. Code that
  is not under \<open>src/\<close> is a parameter: BullMQ and KafkaJS are the record \<open>services\<close>, Redis is
  \<open>redis\<close> in the rate limiter and a function in the CDC consumer, sockets are \<open>sockets\<close>, what
  zod leaves to JavaScript (numbers of texts, the patterns of emails and URLs, the text of its
  issues) is \<open>js_lib\<close> and \<open>schemas\<close>, scrypt and jsonwebtoken are \<open>auth_env\<close>; for the browser, JSON
  of the stored session is \<open>codec\<close>, the ISO text of a time is \<open>dates\<close>. A page is a record of its React
  state and a handler is a function of the page and of the server, which is any state with calls;
  calls made at once (\<open>Promise.all\<close>) are handled in an arbitrary order, given as a list of indices.
  React batches the updates of a handler; the model takes the state after them. A property that relies on such
  code says how in a named hypothesis (\<open>redis_laws\<close>, \<open>records\<close>, \<open>bullmq_run\<close>, \<open>kdf_lengths\<close>), and
  its witness instantiates the parameter.

  \<^bold>\<open>What is proved\<close>

  The safety theorems of \<open>Booking_Safety\<close> hold in every reachable state of the concurrent system:
  no seat has two live bookings, the tables are what a run of the ledger gives, the state-drift
  errors that the code guards against do not occur, a booking's status only advances. They
  follow from one invariant, whose preservation rests on the facts of the contracts
  \<open>seat_transition\<close> and \<open>booking_transition\<close>. \<open>Serializability\<close> shows that a transaction which
  runs statement by statement among others ends as it would have run alone at its end, that one
  which holds a row never waits, and that each can end; \<open>Interleaving\<close> that whole runs of statements
  are simulated both by a serial execution and by the ledger, whose safety they inherit. \<open>Booking_Usecases\<close> gives the outcome of each use
  case on every branch, the races between them, and what is independent of broker and queue.
  \<open>Hold_Expiry\<close> shows that an abandoned hold is given back and counted once; \<open>Realtime\<close> and \<open>Cdc\<close>
  that a changed row reaches exactly the sockets that watch its event; \<open>Catalog\<close> that the seats
  offered are those that can be reserved; \<open>Auth\<close>, \<open>Password\<close> and \<open>Http\<close> that only the bearer of
  a token acts for its user and that no booking request ends in a server error while ids fit
  their columns; \<open>Rate_Limiter\<close>, \<open>Shutdown\<close> and \<open>Metrics\<close> the guarantees their comments state.
  For the frontend, \<open>Client\<close> and \<open>Seat_Picker\<close> prove invariants of the session, of the live
  connection and of the selection over all their events; \<open>Wire\<close> that every reply has the type the
  frontend declares and that rows and errors reach the page unchanged; \<open>Buyer_Journey\<close> composes
  everything: a buyer who selects free seats ends with a confirmed booking for each of them, in
  whatever order the calls are handled. \<open>Screens\<close> shows that the seat map draws every loaded seat
  once and that the buttons of a booking are enabled exactly when the server would accept the
  call, \<open>Site_Map\<close> that no link or move leads to the not-found page unless it means to and that no
  call which needs a token is made without one, \<open>Environment\<close> which settings the service starts
  with, \<open>Bad_Requests\<close> that a reply says VALIDATION_ERROR exactly when a schema refused the request,
  \<open>Lifecycle\<close> that a shutdown gives back what a start has taken. \<open>Schema\<close> shows that requests,
  expiries and the seed keep every constraint of the schema: its locale \<open>statement_invariant\<close> says
  what a predicate that single statements keep gives for every request. \<open>Endpoints\<close> shows that each
  call of the client reaches the handler it is meant for.
  \<open>Scripts\<close> shows that seeding and baselining can be repeated and that the workers that register
  the users of a load test share their cursor correctly, \<open>Load_Tests\<close> that over free seats every
  request of a load test is a reservation and that every login of the other one succeeds,
  \<open>Benchmark\<close> that the successes it reports are the seats that were free.
  All recursion is structural, so no fuel is needed; every function is total.

  \<^bold>\<open>What is not modelled\<close>

  The interleaving of statements is modelled for the four transactions of the booking module,
  with accounts, events and the catalogue fixed; reads outside them see the committed tables.
  Postgres' own durability is left out, and so is the order of
  rows that SQL leaves open (the model takes the stable one). CORS, body parsing, logging, the
  construction of clients, the Rust load balancer, class names and decoration of the pages, and
  several tabs on one local storage are not modelled; how react-router and Fastify match a path are parameters with named laws (\<open>router_ok\<close>,
  \<open>dispatcher_ok\<close>).
\<close>

end
